(* ===== verification/Prelude.thy ===== *)
theory Prelude
  imports Main "HOL-Library.Word" "HOL-Library.Signed_Division"
begin

text \<open>
  Shared vocabulary of the development: the machine integers the C++ sources use, the exactness
  lemmas that turn wrapped word arithmetic into integer arithmetic where no wrap-around happens,
  the collections of simplification rules the component theories add to, and a few facts on lists.
\<close>

section \<open>Machine integers\<close>

text \<open>
  \<open>int32_t\<close>, \<open>uint32_t\<close>, \<open>int64_t\<close>, \<open>uint64_t\<close> and \<open>size_t\<close> are words of their width: the
  signed ones are read with \<^term>\<open>sint\<close>, the unsigned ones with \<^term>\<open>uint\<close> or \<^term>\<open>unat\<close>.
\<close>

type_synonym s32 = "32 word"
type_synonym u32 = "32 word"
type_synonym s64 = "64 word"
type_synonym u64 = "64 word"
type_synonym u8 = "8 word"

text \<open>Collections: facts that compute an operation, and facts that carry an invariant over it.\<close>

named_theorems op_simps
named_theorems inv_intros

lemma sint_diff_exact:
  fixes a b :: s64
  assumes "- (2 ^ 63) \<le> sint a - sint b" and "sint a - sint b < 2 ^ 63"
  shows "sint (a - b) = sint a - sint b"
  using assms by (simp add: sint_word_diff signed_take_bit_int_eq_self)

lemma sint_add_exact32:
  fixes a b :: s32
  assumes "- (2 ^ 31) \<le> sint a + sint b" and "sint a + sint b < 2 ^ 31"
  shows "sint (a + b) = sint a + sint b"
  using assms by (simp add: sint_word_add signed_take_bit_int_eq_self)

lemma sint_diff_exact32:
  fixes a b :: s32
  assumes "- (2 ^ 31) \<le> sint a - sint b" and "sint a - sint b < 2 ^ 31"
  shows "sint (a - b) = sint a - sint b"
  using assms by (simp add: sint_word_diff signed_take_bit_int_eq_self)

lemma sint_mult_exact32:
  fixes a b :: s32
  assumes "- (2 ^ 31) \<le> sint a * sint b" and "sint a * sint b < 2 ^ 31"
  shows "sint (a * b) = sint a * sint b"
  using assms by (simp add: sint_word_mult signed_take_bit_int_eq_self)

lemma sint_scast32 [simp]: "sint (scast (a :: s32) :: s64) = sint a"
  by (rule sint_up_scast) (simp add: is_up_def source_size_def target_size_def word_size)

lemma ucast_narrows: "(ucast (a + 2 ^ 32 :: s64) :: s32) = ucast a"
  by (transfer, simp, simp add: take_bit_eq_mod)

lemma sint_bounds32: "- (2 ^ 31) \<le> sint (a :: s32) \<and> sint a < 2 ^ 31"
  using sint_ge [of a] sint_lt [of a] by simp

lemma sint_bounds64: "- (2 ^ 63) \<le> sint (a :: s64) \<and> sint a < 2 ^ 63"
  using sint_ge [of a] sint_lt [of a] by simp

lemma word_eq_sint_iff: "(a :: 'a::len word) = b \<longleftrightarrow> sint a = sint b"
  by (auto intro: signed_word_eqI)

lemma sint_word_of_int_s64:
  assumes "- (2 ^ 63) \<le> i" and "i < 2 ^ 63"
  shows "sint (word_of_int i :: s64) = i"
  using assms by (simp add: sint_sbintrunc' signed_take_bit_int_eq_self)

lemma sint_word_of_int_s32:
  assumes "- (2 ^ 31) \<le> i" and "i < 2 ^ 31"
  shows "sint (word_of_int i :: s32) = i"
  using assms by (simp add: sint_sbintrunc' signed_take_bit_int_eq_self)

lemma sdiv_nonneg_eq_div:
  fixes a b :: int
  assumes "0 \<le> a" and "0 < b"
  shows "a sdiv b = a div b"
  using assms by (cases "a = 0") (simp_all add: signed_divide_int_def)

text \<open>How many elements of a list have a property, after one is changed or taken out.\<close>

lemma filter_update:
  assumes "i < length ts"
  shows "length (filter P (ts[i := e])) + (if P (ts ! i) then 1 else 0) = length (filter P ts) + (if P e then 1 else 0)"
proof -
  have "length (filter P (xs @ e # ys)) + (if P x then 1 else 0) = length (filter P (xs @ x # ys)) + (if P e then 1 else 0)" for xs x ys
    by simp
  then show ?thesis
    using id_take_nth_drop [OF assms] upd_conv_take_nth_drop [OF assms, of e] by metis
qed

lemma filter_removed:
  assumes "i < length ts"
  shows "length (filter P (take i ts @ drop (Suc i) ts)) + (if P (ts ! i) then 1 else 0) = length (filter P ts)"
proof -
  have "length (filter P (xs @ ys)) + (if P x then 1 else 0) = length (filter P (xs @ x # ys))" for xs x ys
    by simp
  then show ?thesis
    using id_take_nth_drop [OF assms] by metis
qed

text \<open>Arithmetic of \<open>size_t\<close> on counters kept as natural numbers.\<close>

definition size_add :: "nat \<Rightarrow> nat \<Rightarrow> nat" where
  "size_add a b = (a + b) mod 2 ^ 64"

definition size_sub :: "nat \<Rightarrow> nat \<Rightarrow> nat" where
  "size_sub a b = (a + (2 ^ 64 - b mod 2 ^ 64)) mod 2 ^ 64"

lemma size_add_exact: "a + b < 2 ^ 64 \<Longrightarrow> size_add a b = a + b"
  by (simp add: size_add_def)

lemma size_sub_exact:
  assumes "b \<le> a" and "a < 2 ^ 64"
  shows "size_sub a b = a - b"
proof -
  have "a + (2 ^ 64 - b mod 2 ^ 64) = (a - b) + 2 ^ 64"
    using assms by simp
  then have "size_sub a b = (a - b) mod 2 ^ 64"
    unfolding size_sub_def by (metis mod_add_self2)
  then show ?thesis using assms by simp
qed

section \<open>Decimal numerals\<close>

text \<open>The digits \<open>%d\<close>, \<open>to_string\<close> and stream output print for an integer.\<close>

definition digit_char :: "nat \<Rightarrow> char" where
  "digit_char d = char_of (48 + d)"

fun decimal_nat :: "nat \<Rightarrow> string" where
  "decimal_nat n = (if n < 10 then [digit_char n] else decimal_nat (n div 10) @ [digit_char (n mod 10)])"

declare decimal_nat.simps [simp del]

definition decimal :: "int \<Rightarrow> string" where
  "decimal i = (if i < 0 then CHR ''-'' # decimal_nat (nat (- i)) else decimal_nat (nat i))"

section \<open>Outcomes\<close>

text \<open>
  What a call that can end the process comes to: it returns, it aborts (a failed \<open>CHECK\<close>, an
  uncaught exception), or its behaviour is undefined (a null pointer is followed).
\<close>

datatype 'a outcome = Returns 'a | Aborts | Undefined_behaviour

fun and_then :: "'a outcome \<Rightarrow> ('a \<Rightarrow> 'b outcome) \<Rightarrow> 'b outcome" where
  "and_then (Returns a) f = f a"
| "and_then Aborts f = Aborts"
| "and_then Undefined_behaviour f = Undefined_behaviour"

lemma and_then_Returns_iff [simp]: "and_then x f = Returns b \<longleftrightarrow> (\<exists>a. x = Returns a \<and> f a = Returns b)"
  by (cases x) auto

end
