(* ===== verification/Lockout_Tracker.thy ===== *)
theory Lockout_Tracker
  imports Prelude
begin

text \<open>
  The failed-attempt counter of the fingerprint service: \<open>fingerprint/LockoutTracker.cpp\<close> and
  \<open>fingerprint/include/LockoutTracker.h\<close>. The clock it reads (\<open>Util::getSystemNanoTime\<close>,
  \<open>Util::hasElapsed\<close>) lives in a library outside this repository: one sample of it is an
  argument of every operation that reads it.
\<close>

section \<open>State\<close>

datatype LockoutMode = NONE | TIMED | PERMANENT

record LockoutTracker =
  mFailedCount :: s32
  mLockoutTimedStart :: s64
  mCurrentMode :: LockoutMode

text \<open>One sample of the clock library: the time now, and \<open>hasElapsed start durationMillis\<close>.\<close>

record util =
  getSystemNanoTime :: s64
  hasElapsed :: "s64 \<Rightarrow> s64 \<Rightarrow> bool"

definition LOCKOUT_TIMED_THRESHOLD :: int where
  "LOCKOUT_TIMED_THRESHOLD = 5"

definition LOCKOUT_TIMED_DURATION :: s64 where
  "LOCKOUT_TIMED_DURATION = 30 * 1000"

definition LOCKOUT_PERMANENT_THRESHOLD :: int where
  "LOCKOUT_PERMANENT_THRESHOLD = 20"

text \<open>
  The class has a default initialiser for the counter only: the two other members start with
  whatever the memory held, so they are arguments of the constructor's model.
\<close>

definition LockoutTracker_new :: "s64 \<Rightarrow> LockoutMode \<Rightarrow> LockoutTracker" where
  "LockoutTracker_new timedStart mode =
     \<lparr>mFailedCount = 0, mLockoutTimedStart = timedStart, mCurrentMode = mode\<rparr>"

section \<open>Operations\<close>

definition LockoutTracker_reset :: "bool \<Rightarrow> LockoutTracker \<Rightarrow> LockoutTracker" where
  "LockoutTracker_reset clearAttemptCounter t =
     (let t = (if clearAttemptCounter then t\<lparr>mFailedCount := 0\<rparr> else t)
      in t\<lparr>mLockoutTimedStart := 0, mCurrentMode := NONE\<rparr>)"

definition LockoutTracker_addFailedAttempt :: "util \<Rightarrow> LockoutTracker \<Rightarrow> LockoutTracker" where
  "LockoutTracker_addFailedAttempt u t =
     (let t = t\<lparr>mFailedCount := mFailedCount t + 1\<rparr>
      in if LOCKOUT_PERMANENT_THRESHOLD \<le> sint (mFailedCount t)
         then t\<lparr>mCurrentMode := PERMANENT\<rparr>
         else if LOCKOUT_TIMED_THRESHOLD \<le> sint (mFailedCount t)
         then t\<lparr>mCurrentMode := TIMED, mLockoutTimedStart := getSystemNanoTime u\<rparr>
         else t)"

definition LockoutTracker_getMode :: "util \<Rightarrow> LockoutTracker \<Rightarrow> LockoutMode \<times> LockoutTracker" where
  "LockoutTracker_getMode u t =
     (let t = (if mCurrentMode t = TIMED
               then if hasElapsed u (mLockoutTimedStart t) LOCKOUT_TIMED_DURATION
                    then t\<lparr>mCurrentMode := NONE, mLockoutTimedStart := 0\<rparr>
                    else t
               else t)
      in (mCurrentMode t, t))"

definition LockoutTracker_getLockoutTimeLeft :: "util \<Rightarrow> LockoutTracker \<Rightarrow> s64" where
  "LockoutTracker_getLockoutTimeLeft u t =
     (if 0 < sint (mLockoutTimedStart t)
      then let now = getSystemNanoTime u;
               elapsed = word_of_int (sint (now - mLockoutTimedStart t) sdiv 1000000)
           in LOCKOUT_TIMED_DURATION - elapsed
      else 0)"

lemmas lockout_defs =
  LockoutTracker_reset_def LockoutTracker_addFailedAttempt_def LockoutTracker_getMode_def
  LOCKOUT_TIMED_THRESHOLD_def LOCKOUT_PERMANENT_THRESHOLD_def

section \<open>The policy the tracker implements\<close>

text \<open>The lockout that follows the n-th failure in a row.\<close>

definition lockout_policy :: "nat \<Rightarrow> LockoutMode" where
  "lockout_policy n = (if 20 \<le> n then PERMANENT else if 5 \<le> n then TIMED else NONE)"

text \<open>The modes by severity.\<close>

fun severity :: "LockoutMode \<Rightarrow> nat" where
  "severity NONE = 0"
| "severity TIMED = 1"
| "severity PERMANENT = 2"

lemma severity_inj: "severity a = severity b \<longleftrightarrow> a = b"
  by (cases a; cases b) simp_all

instantiation LockoutMode :: linorder
begin

definition less_eq_LockoutMode :: "LockoutMode \<Rightarrow> LockoutMode \<Rightarrow> bool" where
  "less_eq_LockoutMode a b \<longleftrightarrow> severity a \<le> severity b"

definition less_LockoutMode :: "LockoutMode \<Rightarrow> LockoutMode \<Rightarrow> bool" where
  "less_LockoutMode a b \<longleftrightarrow> severity a < severity b"

instance
  by standard (auto simp: less_eq_LockoutMode_def less_LockoutMode_def severity_inj [symmetric])

end

lemma lockout_mode_bounds [simp]: "NONE \<le> m" "m \<le> PERMANENT"
  by (cases m; simp add: less_eq_LockoutMode_def)+

lemma lockout_policy_mono: "m \<le> n \<Longrightarrow> lockout_policy m \<le> lockout_policy n"
  by (auto simp: lockout_policy_def less_eq_LockoutMode_def)

text \<open>Operations a client issues, and their effect through any implementation of the interface.\<close>

datatype 'u lockout_op = Attempt 'u | Query 'u

fun lockout_apply ::
  "('u \<Rightarrow> 't \<Rightarrow> 't) \<Rightarrow> ('u \<Rightarrow> 't \<Rightarrow> 'm \<times> 't) \<Rightarrow> 'u lockout_op \<Rightarrow> 't \<Rightarrow> 't" where
  "lockout_apply add get (Attempt u) t = add u t"
| "lockout_apply add get (Query u) t = snd (get u t)"

fun is_attempt :: "'u lockout_op \<Rightarrow> bool" where
  "is_attempt (Attempt u) = True"
| "is_attempt (Query u) = False"

definition attempts :: "'u lockout_op list \<Rightarrow> nat" where
  "attempts ops = length (filter is_attempt ops)"

lemma attempts_simps [simp]:
  "attempts [] = 0"
  "attempts (x # xs) = (if is_attempt x then 1 else 0) + attempts xs"
  "attempts (xs @ ys) = attempts xs + attempts ys"
  by (simp_all add: attempts_def)

lemma attempts_le: "attempts ops \<le> length ops"
  by (simp add: attempts_def)

text \<open>
  The interface the session relies on: an abstraction to the number of failures in a row and the
  current mode, and what each operation does to it. \<open>cap\<close> bounds the count an implementation can
  represent.
\<close>

locale lockout =
  fixes reset :: "bool \<Rightarrow> 't \<Rightarrow> 't"
    and add :: "'u \<Rightarrow> 't \<Rightarrow> 't"
    and get :: "'u \<Rightarrow> 't \<Rightarrow> LockoutMode \<times> 't"
    and count :: "'t \<Rightarrow> nat"
    and cur :: "'t \<Rightarrow> LockoutMode"
    and ok :: "'t \<Rightarrow> bool"
    and cap :: nat
  assumes ok_reset: "ok (reset True t)"
    and count_reset: "count (reset True t) = 0"
    and cur_reset: "cur (reset b t) = NONE"
    and ok_add: "ok t \<Longrightarrow> Suc (count t) < cap \<Longrightarrow> ok (add u t)"
    and count_add: "ok t \<Longrightarrow> Suc (count t) < cap \<Longrightarrow> count (add u t) = Suc (count t)"
    and cur_add: "ok t \<Longrightarrow> cur t = NONE \<or> cur t = lockout_policy (count t) \<Longrightarrow> Suc (count t) < cap
      \<Longrightarrow> cur (add u t) = lockout_policy (Suc (count t))"
    and ok_get: "ok t \<Longrightarrow> ok (snd (get u t))"
    and count_get: "count (snd (get u t)) = count t"
    and cur_get: "cur (snd (get u t)) = fst (get u t)"
    and get_cases: "fst (get u t) = cur t \<or> cur t = TIMED \<and> fst (get u t) = NONE"
begin

abbreviation apply_ops :: "'u lockout_op list \<Rightarrow> 't \<Rightarrow> 't" where
  "apply_ops \<equiv> fold (lockout_apply add get)"

definition tracks :: "nat \<Rightarrow> 't \<Rightarrow> bool" where
  "tracks n t \<longleftrightarrow> ok t \<and> count t = n \<and>
     (cur t = lockout_policy n \<or> cur t = NONE \<and> lockout_policy n = TIMED)"

lemma tracks_reset: "tracks 0 (reset True t)"
  by (simp add: tracks_def ok_reset count_reset cur_reset lockout_policy_def)

lemma tracks_apply:
  assumes "tracks n t" and "n + attempts [x] < cap"
  shows "tracks (n + attempts [x]) (lockout_apply add get x t)"
proof (cases x)
  case (Attempt u)
  then show ?thesis
    using assms ok_add [of t u] count_add [of t u] cur_add [of t u] by (auto simp: tracks_def)
next
  case (Query u)
  then show ?thesis
    using assms get_cases [of u t] ok_get [of t u] count_get [of u t] cur_get [of u t]
    by (auto simp: tracks_def)
qed

lemma tracks_ops:
  assumes "tracks n t" and "n + attempts ops < cap"
  shows "tracks (n + attempts ops) (apply_ops ops t)"
  using assms
proof (induction ops arbitrary: n t)
  case Nil
  then show ?case by simp
next
  case (Cons x xs)
  have "tracks (n + attempts [x]) (lockout_apply add get x t)"
    using Cons.prems by (intro tracks_apply) auto
  then show ?case
    using Cons.IH [of "n + attempts [x]" "lockout_apply add get x t"] Cons.prems by (simp add: add.assoc)
qed

lemma policy_after_attempt:
  assumes "tracks n t" and "n + attempts ops + 1 < cap"
  shows "cur (apply_ops (ops @ [Attempt u]) t) = lockout_policy (n + attempts ops + 1)"
proof -
  have "tracks (n + attempts ops) (apply_ops ops t)"
    using assms by (intro tracks_ops) auto
  then show ?thesis
    using assms(2) cur_add [of "apply_ops ops t" u] by (auto simp: tracks_def)
qed

lemma attempt_never_relaxes:
  assumes "tracks n t" and "n + 1 < cap"
  shows "cur t \<le> cur (add u t)"
proof -
  have "cur (add u t) = lockout_policy (n + 1)"
    using policy_after_attempt [OF assms(1), of "[]" u] assms(2) by simp
  then show ?thesis
    using assms(1) lockout_policy_mono [of n "n + 1"] by (auto simp: tracks_def)
qed

lemma query_never_tightens: "fst (get u t) \<le> cur t"
  using get_cases [of u t] by auto

lemma permanent_iff:
  assumes "tracks n t" and "n + attempts ops < cap"
  shows "cur (apply_ops ops t) = PERMANENT \<longleftrightarrow> 20 \<le> n + attempts ops"
proof -
  have "tracks (n + attempts ops) (apply_ops ops t)"
    using assms by (rule tracks_ops)
  then show ?thesis
    by (auto simp: tracks_def lockout_policy_def split: if_splits)
qed

end

section \<open>The tracker implements the policy\<close>

definition LockoutTracker_count :: "LockoutTracker \<Rightarrow> nat" where
  "LockoutTracker_count t = nat (sint (mFailedCount t))"

definition LockoutTracker_ok :: "LockoutTracker \<Rightarrow> bool" where
  "LockoutTracker_ok t \<longleftrightarrow> 0 \<le> sint (mFailedCount t)"

lemma sint_count_Suc:
  assumes "LockoutTracker_ok t" and "Suc (LockoutTracker_count t) < 2 ^ 31"
  shows "sint (mFailedCount t + 1) = int (Suc (LockoutTracker_count t))"
  using assms by (simp add: sint_add_exact32 LockoutTracker_ok_def LockoutTracker_count_def)

interpretation lt: lockout LockoutTracker_reset LockoutTracker_addFailedAttempt LockoutTracker_getMode
  LockoutTracker_count mCurrentMode LockoutTracker_ok "2 ^ 31"
proof unfold_locales
  fix u :: util and t :: LockoutTracker
  assume ok: "LockoutTracker_ok t" and lt: "Suc (LockoutTracker_count t) < 2 ^ 31"
  note inc = sint_count_Suc [OF ok lt]
  show "LockoutTracker_ok (LockoutTracker_addFailedAttempt u t)"
    using inc by (auto simp: lockout_defs LockoutTracker_ok_def Let_def)
  show "LockoutTracker_count (LockoutTracker_addFailedAttempt u t) = Suc (LockoutTracker_count t)"
    using inc by (auto simp: lockout_defs LockoutTracker_count_def Let_def)
  assume "mCurrentMode t = NONE \<or> mCurrentMode t = lockout_policy (LockoutTracker_count t)"
  then show "mCurrentMode (LockoutTracker_addFailedAttempt u t) = lockout_policy (Suc (LockoutTracker_count t))"
    using inc by (auto simp: lockout_defs lockout_policy_def Let_def split: if_splits)
qed (auto simp: lockout_defs LockoutTracker_ok_def LockoutTracker_count_def Let_def)


section \<open>Properties\<close>

definition LockoutTracker_run :: "util lockout_op list \<Rightarrow> LockoutTracker \<Rightarrow> LockoutTracker" where
  "LockoutTracker_run = fold (lockout_apply LockoutTracker_addFailedAttempt LockoutTracker_getMode)"

text \<open>
  C9: From a tracker whose counter was cleared, any sequence of fewer than 2^31 failed attempts and
  mode queries, at any clock readings, leaves exactly the lockout the policy prescribes: the counter
  is the number of attempts, the lockout is permanent exactly from the 20th attempt on and no query
  ever lifts it, there is no lockout before the 5th attempt, and right after an attempt the mode is
  the policy's. An attempt never relaxes the lockout, and a query never tightens it.
\<close>

theorem lockout_run_policy:
  fixes t :: LockoutTracker
  assumes "attempts ops + 1 < 2 ^ 31"
  defines "t' \<equiv> LockoutTracker_run ops (LockoutTracker_reset True t)"
  shows "sint (mFailedCount t') = int (attempts ops)
    \<and> (mCurrentMode t' = PERMANENT \<longleftrightarrow> 20 \<le> attempts ops)
    \<and> (attempts ops < 5 \<longrightarrow> mCurrentMode t' = NONE)
    \<and> mCurrentMode (LockoutTracker_addFailedAttempt u t') = lockout_policy (attempts ops + 1)
    \<and> mCurrentMode t' \<le> mCurrentMode (LockoutTracker_addFailedAttempt u t')
    \<and> fst (LockoutTracker_getMode u t') \<le> mCurrentMode t'"
proof -
  have tr: "lt.tracks (attempts ops) t'"
    using lt.tracks_ops [OF lt.tracks_reset, of ops t] assms
    by (simp add: LockoutTracker_run_def)
  have "mCurrentMode t' = PERMANENT \<longleftrightarrow> 20 \<le> attempts ops"
    using lt.permanent_iff [OF tr, of "[]"] assms by simp
  moreover have "mCurrentMode (LockoutTracker_addFailedAttempt u t') = lockout_policy (attempts ops + 1)"
    using lt.policy_after_attempt [OF tr, of "[]" u] assms by simp
  moreover have "sint (mFailedCount t') = int (attempts ops)"
    using tr by (auto simp: lt.tracks_def LockoutTracker_ok_def LockoutTracker_count_def)
  moreover have "attempts ops < 5 \<longrightarrow> mCurrentMode t' = NONE"
    using tr by (auto simp: lt.tracks_def lockout_policy_def split: if_splits)
  moreover have "mCurrentMode t' \<le> mCurrentMode (LockoutTracker_addFailedAttempt u t')"
    using lt.attempt_never_relaxes [OF tr, of u] assms(1) by simp
  ultimately show ?thesis
    using lt.query_never_tightens [of u t'] by blast
qed

definition sample_clock :: "s64 \<Rightarrow> util" where
  "sample_clock now = \<lparr>getSystemNanoTime = now,
     hasElapsed = (\<lambda>start durationMillis. sint durationMillis \<le> sint (now - start) sdiv 1000000)\<rparr>"

theorem lockout_run_policy_witness:
  "mCurrentMode (LockoutTracker_addFailedAttempt (sample_clock 9)
     (LockoutTracker_run [Attempt (sample_clock 1), Attempt (sample_clock 2), Query (sample_clock 3),
        Attempt (sample_clock 4), Attempt (sample_clock 5)]
       (LockoutTracker_reset True (LockoutTracker_new 77 PERMANENT)))) = TIMED"
  using lockout_run_policy [where ops = "[Attempt (sample_clock 1), Attempt (sample_clock 2),
      Query (sample_clock 3), Attempt (sample_clock 4), Attempt (sample_clock 5)]"
      and u = "sample_clock 9" and t = "LockoutTracker_new 77 PERMANENT"]
  by (simp add: lockout_policy_def)

text \<open>
  C30: While the tracker is in a timed lockout that the clock has not declared over, the time left it
  reports is the 30000 ms duration less the whole milliseconds since the lockout began: never more
  than 30000, and never negative. The hypothesis on the clock is the documented meaning of
  \<open>hasElapsed\<close>: a duration that has not elapsed is at least the time passed.
\<close>

theorem lockout_time_left:
  assumes "LockoutTracker_getMode u t = (TIMED, t')"
    and "0 < sint (mLockoutTimedStart t)" and "sint (mLockoutTimedStart t) \<le> sint (getSystemNanoTime u)"
    and clock: "\<And>start d. \<not> hasElapsed u start d \<Longrightarrow> sint start \<le> sint (getSystemNanoTime u) \<Longrightarrow> 0 \<le> sint start
       \<Longrightarrow> (sint (getSystemNanoTime u) - sint start) div 1000000 \<le> sint d"
  shows "sint (LockoutTracker_getLockoutTimeLeft u t') =
      30000 - (sint (getSystemNanoTime u) - sint (mLockoutTimedStart t)) div 1000000
    \<and> 0 \<le> sint (LockoutTracker_getLockoutTimeLeft u t')
    \<and> sint (LockoutTracker_getLockoutTimeLeft u t') \<le> 30000"
proof -
  define e where "e = (sint (getSystemNanoTime u) - sint (mLockoutTimedStart t)) div 1000000"
  have t': "t' = t" and live: "\<not> hasElapsed u (mLockoutTimedStart t) LOCKOUT_TIMED_DURATION"
    using assms(1) by (auto simp: LockoutTracker_getMode_def Let_def split: if_splits)
  have dur: "sint LOCKOUT_TIMED_DURATION = 30000"
    by (simp add: LOCKOUT_TIMED_DURATION_def)
  have diff: "sint (getSystemNanoTime u - mLockoutTimedStart t)
      = sint (getSystemNanoTime u) - sint (mLockoutTimedStart t)"
    using assms(2,3) sint_bounds64 [of "getSystemNanoTime u"] by (intro sint_diff_exact) auto
  have e: "0 \<le> e" "e \<le> 30000"
    using clock [OF live] assms(2,3) dur by (auto simp: e_def)
  have "LockoutTracker_getLockoutTimeLeft u t' = LOCKOUT_TIMED_DURATION - word_of_int e"
    using assms(2,3) by (simp add: LockoutTracker_getLockoutTimeLeft_def t' diff sdiv_nonneg_eq_div e_def Let_def)
  moreover have "sint (LOCKOUT_TIMED_DURATION - word_of_int e) = 30000 - e"
    using e dur sint_diff_exact [of LOCKOUT_TIMED_DURATION "word_of_int e"]
    by (simp add: sint_word_of_int_s64)
  ultimately show ?thesis
    using e by (simp add: e_def)
qed

theorem lockout_time_left_witness:
  "sint (LockoutTracker_getLockoutTimeLeft (sample_clock 5000000000)
     \<lparr>mFailedCount = 5, mLockoutTimedStart = 1000000000, mCurrentMode = TIMED\<rparr>) = 26000"
proof -
  let ?u = "sample_clock 5000000000"
  let ?t = "\<lparr>mFailedCount = 5, mLockoutTimedStart = 1000000000, mCurrentMode = TIMED\<rparr>"
  have now: "sint (getSystemNanoTime ?u) = 5000000000"
    by (simp add: sample_clock_def)
  have m: "LockoutTracker_getMode ?u ?t = (TIMED, ?t)"
    by (simp add: LockoutTracker_getMode_def sample_clock_def LOCKOUT_TIMED_DURATION_def signed_divide_int_def)
  have clock: "(sint (getSystemNanoTime ?u) - sint start) div 1000000 \<le> sint d"
    if "\<not> hasElapsed ?u start d" "sint start \<le> sint (getSystemNanoTime ?u)" "0 \<le> sint start" for start d
  proof -
    have "sint ((5000000000 :: s64) - start) = 5000000000 - sint start"
      using that now sint_diff_exact [of 5000000000 start] by simp
    then show ?thesis
      using that now by (simp add: sample_clock_def sdiv_nonneg_eq_div)
  qed
  show ?thesis
    using lockout_time_left [OF m] clock by (simp add: sample_clock_def)
qed

lemma run_few_attempts:
  assumes "k + length us < 5"
  shows "LockoutTracker_run (map Attempt us) \<lparr>mFailedCount = word_of_nat k, mLockoutTimedStart = st, mCurrentMode = m\<rparr>
    = \<lparr>mFailedCount = word_of_nat (k + length us), mLockoutTimedStart = st, mCurrentMode = m\<rparr>"
  using assms
proof (induction us arbitrary: k)
  case Nil
  then show ?case by (simp add: LockoutTracker_run_def)
next
  case (Cons u us)
  have "sint (word_of_nat k + 1 :: s32) = int k + 1"
    using Cons.prems sint_word_of_int_s32 [of "int k + 1"] by (simp add: ac_simps)
  then have "LockoutTracker_addFailedAttempt u \<lparr>mFailedCount = word_of_nat k, mLockoutTimedStart = st, mCurrentMode = m\<rparr>
      = \<lparr>mFailedCount = word_of_nat (Suc k), mLockoutTimedStart = st, mCurrentMode = m\<rparr>"
    using Cons.prems by (simp add: lockout_defs ac_simps)
  then show ?case
    using Cons.IH [of "Suc k"] Cons.prems by (simp add: LockoutTracker_run_def)
qed

text \<open>
  The two members the class does not initialise decide its first answers: with fewer than five
  failures since construction the mode it reports is whatever the memory held (or no lockout, when
  that value was a timed lockout that the clock calls over), although the policy prescribes none.
\<close>

theorem lockout_uninitialised_mode:
  assumes "length us < 5"
  shows "fst (LockoutTracker_getMode u (LockoutTracker_run (map Attempt us) (LockoutTracker_new st m))) =
    (if m = TIMED \<and> hasElapsed u st LOCKOUT_TIMED_DURATION then NONE else m)
    \<and> lockout_policy (length us) = NONE"
  using run_few_attempts [of 0 us st m] assms
  by (auto simp: LockoutTracker_new_def LockoutTracker_getMode_def lockout_policy_def Let_def)

theorem lockout_uninitialised_mode_witness:
  "fst (LockoutTracker_getMode (sample_clock 2)
     (LockoutTracker_run (map Attempt [sample_clock 1]) (LockoutTracker_new 0 PERMANENT))) = PERMANENT"
  using lockout_uninitialised_mode [of "[sample_clock 1]" "sample_clock 2" 0 PERMANENT] by simp

end
