(* ===== verification/Udfps_Handler.thy ===== *)
theory Udfps_Handler
  imports Prelude
begin

text \<open>
  The finger-down relay of the under-display sensor: \<open>fingerprint/UdfpsHandler.cpp\<close> and
  \<open>fingerprint/include/UdfpsHandler.h\<close>. Client calls and the handler's own thread share one mutex,
  so the model's atomic steps are the sections of code between two releases of it: a whole client
  call, or what the thread does from one wait to the next. Each operation returns the calls it makes
  to \<open>mSetFingerDown\<close>, in order.
\<close>

section \<open>State\<close>

text \<open>
  Where the thread is when it does not hold the mutex: not yet in \<open>run\<close>, in \<open>mCondition.wait\<close>,
  in \<open>mCondition.wait_for\<close> with the locals \<open>requestId\<close> and \<open>deadline\<close> (nanoseconds of
  \<open>steady_clock\<close>), or returned.
\<close>

datatype thread_pc = Start | WaitCondition | WaitFor u64 int | Exited

record UdfpsHandler =
  mStopped :: bool
  mFingerDown :: bool
  mPending :: bool
  mRequestId :: u64
  mThread :: thread_pc

definition UdfpsHandler_new :: UdfpsHandler where
  "UdfpsHandler_new =
     \<lparr>mStopped = False, mFingerDown = False, mPending = False, mRequestId = 0, mThread = Start\<rparr>"

text \<open>
  What the thread observes between two waits: the clock when it computes the deadline, the result
  of \<open>state >> ready\<close> on the illumination file (\<open>None\<close> when the stream fails), and the clock when it
  compares against the deadline. One section makes at most one of each of these observations.
\<close>

record poll_env =
  now_deadline :: int
  fod_ui :: "int option"
  now_check :: int

section \<open>Client calls\<close>

definition UdfpsHandler_destroy :: "UdfpsHandler \<Rightarrow> UdfpsHandler" where
  "UdfpsHandler_destroy h = h\<lparr>mStopped := True\<rparr>"

definition UdfpsHandler_onUiReady :: "bool \<Rightarrow> UdfpsHandler \<Rightarrow> UdfpsHandler \<times> bool list" where
  "UdfpsHandler_onUiReady waitForIllumination h =
     (if mFingerDown h then (h, [])
      else let h = h\<lparr>mFingerDown := True, mRequestId := mRequestId h + 1\<rparr>
           in if waitForIllumination then (h\<lparr>mPending := True\<rparr>, []) else (h, [True]))"

definition UdfpsHandler_onFingerUp :: "UdfpsHandler \<Rightarrow> UdfpsHandler \<times> bool list" where
  "UdfpsHandler_onFingerUp h =
     (h\<lparr>mFingerDown := False, mPending := False, mRequestId := mRequestId h + 1\<rparr>, [False])"

section \<open>The thread\<close>

text \<open>
  \<open>run_outer\<close> is the outer loop of \<open>run\<close> from its condition on, \<open>run_inner\<close> the inner loop from
  its condition on. A section ends at a wait or at the end of \<open>run\<close>. The measure says why no section
  runs for ever: a request picked up by the outer loop is current, and an iteration of the inner
  loop that does not wait clears \<open>mPending\<close>.
\<close>

definition section_measure ::
  "(poll_env \<times> UdfpsHandler) + (poll_env \<times> u64 \<times> int \<times> UdfpsHandler) \<Rightarrow> nat" where
  "section_measure c = (case c of
      Inl (e, h) \<Rightarrow> if mPending h then 2 else 0
    | Inr (e, r, d, h) \<Rightarrow>
        if \<not> mStopped h \<and> mPending h \<and> r = mRequestId h then 1
        else if mPending h then 3 else 1)"

function run_outer :: "poll_env \<Rightarrow> UdfpsHandler \<Rightarrow> UdfpsHandler \<times> bool list"
  and run_inner :: "poll_env \<Rightarrow> u64 \<Rightarrow> int \<Rightarrow> UdfpsHandler \<Rightarrow> UdfpsHandler \<times> bool list"
where
  "run_outer e h =
     (if mStopped h then (h\<lparr>mThread := Exited\<rparr>, [])
      else if mPending h
      then run_inner e (mRequestId h) (now_deadline e + 500000000) h
      else (h\<lparr>mThread := WaitCondition\<rparr>, []))"
| "run_inner e requestId deadline h =
     (if \<not> mStopped h \<and> mPending h \<and> requestId = mRequestId h
      then (case fod_ui e of
              None \<Rightarrow> run_outer e (h\<lparr>mPending := False\<rparr>)
            | Some ready \<Rightarrow>
                if ready = 1
                then (let (h', out) = run_outer e (h\<lparr>mPending := False\<rparr>) in (h', True # out))
                else if deadline \<le> now_check e then run_outer e (h\<lparr>mPending := False\<rparr>)
                else (h\<lparr>mThread := WaitFor requestId deadline\<rparr>, []))
      else run_outer e h)"
  by pat_completeness auto

termination
  by (relation "measure section_measure") (auto simp: section_measure_def)

declare run_outer.simps [simp del] run_inner.simps [simp del]

text \<open>One section of the thread, from the wait it is in. A wait with a predicate returns only when it holds.\<close>

definition UdfpsHandler_resume :: "poll_env \<Rightarrow> UdfpsHandler \<Rightarrow> UdfpsHandler \<times> bool list" where
  "UdfpsHandler_resume e h =
     (case mThread h of
        Start \<Rightarrow> run_outer e h
      | WaitCondition \<Rightarrow> if mStopped h \<or> mPending h then run_outer e h else (h, [])
      | WaitFor requestId deadline \<Rightarrow> run_inner e requestId deadline h
      | Exited \<Rightarrow> (h, []))"

section \<open>What a section does\<close>

text \<open>A request the thread resolves: it is no longer pending, and pressed only if the file read 1.\<close>

definition resolve :: "poll_env \<Rightarrow> int \<Rightarrow> UdfpsHandler \<Rightarrow> UdfpsHandler \<times> bool list" where
  "resolve e deadline h =
     (if fod_ui e = Some 1 then (h\<lparr>mPending := False, mThread := WaitCondition\<rparr>, [True])
      else if fod_ui e = None \<or> deadline \<le> now_check e
      then (h\<lparr>mPending := False, mThread := WaitCondition\<rparr>, [])
      else (h\<lparr>mThread := WaitFor (mRequestId h) deadline\<rparr>, []))"

lemma run_outer_stopped [op_simps]: "mStopped h \<Longrightarrow> run_outer e h = (h\<lparr>mThread := Exited\<rparr>, [])"
  by (simp add: run_outer.simps)

lemma run_outer_idle [op_simps]:
  "\<not> mStopped h \<Longrightarrow> \<not> mPending h \<Longrightarrow> run_outer e h = (h\<lparr>mThread := WaitCondition\<rparr>, [])"
  by (simp add: run_outer.simps)

lemma run_inner_current [op_simps]:
  "\<not> mStopped h \<Longrightarrow> mPending h \<Longrightarrow> run_inner e (mRequestId h) deadline h = resolve e deadline h"
  by (auto simp: run_inner.simps resolve_def op_simps split: option.splits)

lemma run_outer_pending [op_simps]:
  "\<not> mStopped h \<Longrightarrow> mPending h \<Longrightarrow> run_outer e h = resolve e (now_deadline e + 500000000) h"
  by (simp add: run_outer.simps [of e h] op_simps)

lemma run_inner_stale [op_simps]:
  "mStopped h \<or> \<not> mPending h \<or> r \<noteq> mRequestId h \<Longrightarrow> run_inner e r deadline h = run_outer e h"
  by (auto simp: run_inner.simps)

text \<open>The deadline a section works with: the one it slept with if that request is still the current one.\<close>

definition section_deadline :: "poll_env \<Rightarrow> UdfpsHandler \<Rightarrow> int" where
  "section_deadline e h =
     (case mThread h of
        WaitFor r d \<Rightarrow> if r = mRequestId h then d else now_deadline e + 500000000
      | _ \<Rightarrow> now_deadline e + 500000000)"

lemma resume_exited: "mThread h = Exited \<Longrightarrow> UdfpsHandler_resume e h = (h, [])"
  by (simp add: UdfpsHandler_resume_def)

lemma resume_stopped:
  "mStopped h \<Longrightarrow> UdfpsHandler_resume e h = (h\<lparr>mThread := Exited\<rparr>, [])"
  by (cases "mThread h") (auto simp: UdfpsHandler_resume_def op_simps)

lemma resume_idle:
  "\<not> mStopped h \<Longrightarrow> \<not> mPending h \<Longrightarrow> mThread h \<noteq> Exited
    \<Longrightarrow> UdfpsHandler_resume e h = (h\<lparr>mThread := WaitCondition\<rparr>, [])"
  by (cases "mThread h") (auto simp: UdfpsHandler_resume_def op_simps)

lemma resume_pending:
  "\<not> mStopped h \<Longrightarrow> mPending h \<Longrightarrow> mThread h \<noteq> Exited
    \<Longrightarrow> UdfpsHandler_resume e h = resolve e (section_deadline e h) h"
  by (cases "mThread h") (auto simp: UdfpsHandler_resume_def section_deadline_def op_simps)

lemmas resume_simps = resume_exited resume_stopped resume_idle resume_pending

section \<open>Interleavings\<close>

text \<open>
  Client calls, destruction and thread sections in any order. The trace is every call made to
  \<open>mSetFingerDown\<close> since construction.
\<close>

datatype udfps_event = UiReady bool | FingerUp | Destroy | ThreadRuns poll_env

fun udfps_apply :: "udfps_event \<Rightarrow> UdfpsHandler \<Rightarrow> UdfpsHandler \<times> bool list" where
  "udfps_apply (UiReady w) h = UdfpsHandler_onUiReady w h"
| "udfps_apply FingerUp h = UdfpsHandler_onFingerUp h"
| "udfps_apply Destroy h = (UdfpsHandler_destroy h, [])"
| "udfps_apply (ThreadRuns e) h = UdfpsHandler_resume e h"

fun udfps_run :: "udfps_event list \<Rightarrow> UdfpsHandler \<Rightarrow> UdfpsHandler \<times> bool list" where
  "udfps_run [] h = (h, [])"
| "udfps_run (ev # evs) h =
     (let (h1, out1) = udfps_apply ev h; (h2, out2) = udfps_run evs h1 in (h2, out1 @ out2))"

inductive udfps_reachable :: "UdfpsHandler \<Rightarrow> bool list \<Rightarrow> bool" where
  constructed: "udfps_reachable UdfpsHandler_new []"
| happens: "udfps_reachable h tr \<Longrightarrow> udfps_apply ev h = (h', out) \<Longrightarrow> udfps_reachable h' (tr @ out)"

definition pressed :: "bool list \<Rightarrow> bool" where
  "pressed tr \<longleftrightarrow> tr \<noteq> [] \<and> last tr"

lemma pressed_simps [simp]: "\<not> pressed []" "pressed (tr @ [b]) = b"
  by (simp_all add: pressed_def)

definition udfps_inv :: "UdfpsHandler \<Rightarrow> bool list \<Rightarrow> bool" where
  "udfps_inv h tr \<longleftrightarrow> (mPending h \<longrightarrow> mFingerDown h) \<and>
     (pressed tr \<longrightarrow> mFingerDown h \<and> \<not> mPending h) \<and> (mThread h = Exited \<longrightarrow> mStopped h)"

lemma udfps_inv_new: "udfps_inv UdfpsHandler_new []"
  by (simp add: udfps_inv_def UdfpsHandler_new_def)

lemma resume_cases:
  obtains (stop) "mStopped h" "UdfpsHandler_resume e h = (h\<lparr>mThread := Exited\<rparr>, [])"
  | (gone) "\<not> mStopped h" "mThread h = Exited" "UdfpsHandler_resume e h = (h, [])"
  | (idle) "\<not> mStopped h" "\<not> mPending h" "mThread h \<noteq> Exited"
      "UdfpsHandler_resume e h = (h\<lparr>mThread := WaitCondition\<rparr>, [])"
  | (lit) "\<not> mStopped h" "mPending h" "mThread h \<noteq> Exited" "fod_ui e = Some 1"
      "UdfpsHandler_resume e h = (h\<lparr>mPending := False, mThread := WaitCondition\<rparr>, [True])"
  | (give_up) "\<not> mStopped h" "mPending h" "mThread h \<noteq> Exited" "fod_ui e \<noteq> Some 1"
      "fod_ui e = None \<or> section_deadline e h \<le> now_check e"
      "UdfpsHandler_resume e h = (h\<lparr>mPending := False, mThread := WaitCondition\<rparr>, [])"
  | (sleep) "\<not> mStopped h" "mPending h" "mThread h \<noteq> Exited" "fod_ui e \<noteq> Some 1" "fod_ui e \<noteq> None"
      "now_check e < section_deadline e h"
      "UdfpsHandler_resume e h = (h\<lparr>mThread := WaitFor (mRequestId h) (section_deadline e h)\<rparr>, [])"
proof (cases "mStopped h")
  case True
  then show ?thesis using stop resume_stopped by blast
next
  case go: False
  show ?thesis
  proof (cases "mThread h = Exited \<or> \<not> mPending h")
    case True
    then show ?thesis using go gone idle resume_exited resume_idle by metis
  next
    case False
    then have "UdfpsHandler_resume e h = resolve e (section_deadline e h) h"
      using go by (intro resume_pending) auto
    then show ?thesis
      using go False lit give_up sleep unfolding resolve_def by (auto split: if_splits simp: not_le)
  qed
qed

lemma udfps_inv_apply [inv_intros]:
  assumes "udfps_inv h tr" and "udfps_apply ev h = (h', out)"
  shows "udfps_inv h' (tr @ out)"
proof (cases ev)
  case (ThreadRuns e)
  then have "UdfpsHandler_resume e h = (h', out)" using assms(2) by simp
  with assms(1) show ?thesis
    by (cases rule: resume_cases [of h e]) (auto simp: udfps_inv_def)
qed (use assms in \<open>auto simp: udfps_inv_def UdfpsHandler_onUiReady_def UdfpsHandler_onFingerUp_def
       UdfpsHandler_destroy_def Let_def split: if_splits\<close>)

lemma reachable_udfps_inv: "udfps_reachable h tr \<Longrightarrow> udfps_inv h tr"
  by (induction rule: udfps_reachable.induct) (auto intro: udfps_inv_new udfps_inv_apply)

section \<open>The abstract touch machine\<close>

datatype touch = Lifted | Awaiting | Pressed | Abandoned

inductive touch_step :: "touch \<Rightarrow> bool list \<Rightarrow> touch \<Rightarrow> bool" where
  press: "touch_step Lifted [True] Pressed"
| wait_lit: "touch_step Lifted [] Awaiting"
| lit: "touch_step Awaiting [True] Pressed"
| give_up: "touch_step Awaiting [] Abandoned"
| lift: "touch_step a [False] Lifted"
| idle: "touch_step a [] a"

inductive_simps touch_step_simps: "touch_step a out b"

definition touch_of :: "UdfpsHandler \<Rightarrow> bool list \<Rightarrow> touch" where
  "touch_of h tr = (if \<not> mFingerDown h then Lifted else if mPending h then Awaiting
     else if pressed tr then Pressed else Abandoned)"

lemma apply_simulates:
  assumes "udfps_inv h tr" and "udfps_apply ev h = (h', out)"
  shows "touch_step (touch_of h tr) out (touch_of h' (tr @ out))"
proof (cases ev)
  case (ThreadRuns e)
  then have "UdfpsHandler_resume e h = (h', out)" using assms(2) by simp
  with assms(1) show ?thesis
    by (cases rule: resume_cases [of h e])
      (auto simp: udfps_inv_def touch_of_def intro: touch_step.intros)
qed (use assms in \<open>auto simp: udfps_inv_def touch_of_def UdfpsHandler_onUiReady_def
       UdfpsHandler_onFingerUp_def UdfpsHandler_destroy_def Let_def
       intro: touch_step.intros split: if_splits\<close>)

section \<open>The interface the session uses\<close>

text \<open>What a client may rely on when it only makes the two calls of the public interface.\<close>

locale finger_sink =
  fixes ready :: "bool \<Rightarrow> 'h \<Rightarrow> 'h \<times> bool list"
    and up :: "'h \<Rightarrow> 'h \<times> bool list"
    and down :: "'h \<Rightarrow> bool"
  assumes up_lifts: "\<not> down (fst (up h))"
    and up_reports: "snd (up h) = [False]"
    and ready_lowers: "down (fst (ready w h))"
    and ready_again: "down h \<Longrightarrow> ready w h = (h, [])"
    and ready_first: "\<not> down h \<Longrightarrow> snd (ready w h) = (if w then [] else [True])"
begin

lemma ready_idempotent: "ready w' (fst (ready w h)) = (fst (ready w h), [])"
  by (rule ready_again) (rule ready_lowers)

lemma press_after_up: "snd (ready False (fst (up h))) = [True]"
  by (simp add: ready_first up_lifts)

lemma ready_reports: "snd (ready w h) \<in> {[], [True]}"
  using ready_again ready_first by (cases "down h") auto

end

interpretation uh: finger_sink UdfpsHandler_onUiReady UdfpsHandler_onFingerUp mFingerDown
  by unfold_locales (auto simp: UdfpsHandler_onUiReady_def UdfpsHandler_onFingerUp_def Let_def)

section \<open>Properties\<close>

text \<open>
  C1: The handler refines the abstract touch machine: whatever the interleaving of client calls,
  destruction and thread sections, each atomic step is a step of the machine that reports a press
  only from \<open>Lifted\<close> or \<open>Awaiting\<close>, gives a request up silently, and reports a release whenever
  the finger goes up.
\<close>

theorem udfps_refines_touch:
  assumes "udfps_reachable h tr" and "udfps_apply ev h = (h', out)"
  shows "touch_step (touch_of h tr) out (touch_of h' (tr @ out))"
  using reachable_udfps_inv [OF assms(1)] assms(2) by (rule apply_simulates)

definition lit_env :: poll_env where
  "lit_env = \<lparr>now_deadline = 0, fod_ui = Some 1, now_check = 1\<rparr>"

definition dark_env :: "int \<Rightarrow> poll_env" where
  "dark_env now = \<lparr>now_deadline = now, fod_ui = Some 0, now_check = now\<rparr>"

lemma reachable_waiting:
  "udfps_reachable \<lparr>mStopped = False, mFingerDown = True, mPending = True, mRequestId = 1, mThread = Start\<rparr> []"
  using udfps_reachable.happens [OF udfps_reachable.constructed, of "UiReady True"]
  by (simp add: UdfpsHandler_new_def UdfpsHandler_onUiReady_def)

theorem udfps_refines_touch_witness:
  "touch_step Awaiting [True] (touch_of \<lparr>mStopped = False, mFingerDown = True, mPending = False,
     mRequestId = 1, mThread = WaitCondition\<rparr> [True])"
proof -
  let ?h = "\<lparr>mStopped = False, mFingerDown = True, mPending = True, mRequestId = 1, mThread = Start\<rparr>"
  have "udfps_apply (ThreadRuns lit_env) ?h
      = (?h\<lparr>mPending := False, mThread := WaitCondition\<rparr>, [True])"
    by (simp add: resume_pending resolve_def lit_env_def)
  from udfps_refines_touch [OF reachable_waiting this] show ?thesis
    by (simp add: touch_of_def)
qed

text \<open>The device never sees two presses without a release between them.\<close>

fun no_double_press :: "bool list \<Rightarrow> bool" where
  "no_double_press (a # b # tr) = (\<not> (a \<and> b) \<and> no_double_press (b # tr))"
| "no_double_press _ = True"

lemma no_double_press_snoc:
  "no_double_press (tr @ [b]) \<longleftrightarrow> no_double_press tr \<and> \<not> (pressed tr \<and> b)"
  by (induction tr rule: no_double_press.induct) (auto simp: pressed_def)

lemma touch_step_from_pressed: "touch_step Pressed out b \<Longrightarrow> out = [] \<or> out = [False]"
  by (auto simp: touch_step_simps)

lemma touch_step_output: "touch_step a out b \<Longrightarrow> out \<in> {[], [True], [False]}"
  by (auto simp: touch_step_simps)

lemma reachable_no_double_press:
  assumes "udfps_reachable h tr"
  shows "no_double_press tr \<and> (pressed tr \<longrightarrow> mFingerDown h \<and> \<not> mPending h)"
  using assms
proof (induction rule: udfps_reachable.induct)
  case constructed
  then show ?case by simp
next
  case (happens h tr ev h' out)
  note inv = reachable_udfps_inv [OF happens.hyps(1)]
  have st: "touch_step (touch_of h tr) out (touch_of h' (tr @ out))"
    using inv happens.hyps(2) by (rule apply_simulates)
  have "pressed tr \<Longrightarrow> out = [] \<or> out = [False]"
    using st inv touch_step_from_pressed by (auto simp: touch_of_def udfps_inv_def)
  then have "no_double_press (tr @ out)"
    using happens.IH touch_step_output [OF st] by (auto simp: no_double_press_snoc)
  moreover have "udfps_inv h' (tr @ out)"
    using inv happens.hyps(2) by (rule udfps_inv_apply)
  ultimately show ?case by (simp add: udfps_inv_def)
qed

text \<open>
  In every reachable state the calls made to the device so far contain no two presses in a row,
  and when the last one was a press the finger is recorded as down and no request is pending, so a
  request that is still waiting for illumination has not been reported.
\<close>

theorem udfps_no_double_press:
  assumes "udfps_reachable h tr"
  shows "no_double_press tr \<and> (pressed tr \<longrightarrow> mFingerDown h \<and> \<not> mPending h)"
  using assms by (rule reachable_no_double_press)

theorem udfps_no_double_press_witness:
  "no_double_press [True, False]"
proof -
  let ?h = "fst (UdfpsHandler_onUiReady False UdfpsHandler_new)"
  have "udfps_reachable ?h ([] @ [True])"
    by (rule udfps_reachable.happens [OF udfps_reachable.constructed, of "UiReady False"])
      (simp add: UdfpsHandler_new_def UdfpsHandler_onUiReady_def)
  then have "udfps_reachable (fst (UdfpsHandler_onFingerUp ?h)) (([] @ [True]) @ [False])"
    by (rule udfps_reachable.happens [where ev = FingerUp]) (simp add: UdfpsHandler_onFingerUp_def)
  from udfps_no_double_press [OF this] show ?thesis by simp
qed

fun is_ui_ready :: "udfps_event \<Rightarrow> bool" where
  "is_ui_ready (UiReady w) = True"
| "is_ui_ready _ = False"

lemma lifted_stays_silent:
  assumes "\<not> mFingerDown h" and "\<not> mPending h" and "\<not> is_ui_ready ev"
  shows "True \<notin> set (snd (udfps_apply ev h)) \<and> \<not> mFingerDown (fst (udfps_apply ev h))
    \<and> \<not> mPending (fst (udfps_apply ev h))"
proof (cases ev)
  case (ThreadRuns e)
  with assms show ?thesis by (cases rule: resume_cases [of h e]) auto
qed (use assms in \<open>auto simp: UdfpsHandler_onFingerUp_def UdfpsHandler_destroy_def\<close>)

text \<open>
  A release is final: after \<open>onFingerUp\<close>, in whatever state the handler was and whatever the
  thread was doing with an earlier request, no later thread section, release or destruction reports
  a press until the next \<open>onUiReady\<close>.
\<close>

theorem udfps_silent_after_finger_up:
  assumes "\<forall>ev \<in> set evs. \<not> is_ui_ready ev"
  shows "True \<notin> set (snd (udfps_run evs (fst (UdfpsHandler_onFingerUp h))))"
proof -
  have "True \<notin> set (snd (udfps_run evs g))" if "\<not> mFingerDown g" "\<not> mPending g" for g
    using assms that
  proof (induction evs arbitrary: g)
    case Nil
    then show ?case by simp
  next
    case (Cons ev evs)
    then show ?case
      using lifted_stays_silent [of g ev] by (auto simp: case_prod_beta Let_def)
  qed
  then show ?thesis by (simp add: UdfpsHandler_onFingerUp_def)
qed

theorem udfps_silent_after_finger_up_witness:
  "True \<notin> set (snd (udfps_run [ThreadRuns lit_env, FingerUp, ThreadRuns (dark_env 7)]
     (fst (UdfpsHandler_onFingerUp (fst (UdfpsHandler_onUiReady True UdfpsHandler_new))))))"
  by (rule udfps_silent_after_finger_up) simp

text \<open>
  C25: A pending request is answered within two thread sections once the deadline of the first has
  passed: if the second section's clock check is at or after the deadline the first one works with
  (500 ms after it picked the request up, or the deadline it already slept with), the request is no
  longer pending, and a press was reported exactly when one of the sections read 1 from the
  illumination file.
\<close>

theorem udfps_request_resolved:
  assumes "udfps_reachable h tr" and "mPending h" and "\<not> mStopped h"
    and r1: "UdfpsHandler_resume e1 h = (h1, out1)" and r2: "UdfpsHandler_resume e2 h1 = (h2, out2)"
    and "section_deadline e1 h \<le> now_check e2"
  shows "\<not> mPending h2 \<and> mRequestId h2 = mRequestId h
    \<and> out1 @ out2 = (if fod_ui e1 = Some 1 then [True]
        else if fod_ui e1 = None \<or> section_deadline e1 h \<le> now_check e1 then []
        else if fod_ui e2 = Some 1 then [True] else [])"
proof -
  have alive: "mThread h \<noteq> Exited"
    using reachable_udfps_inv [OF assms(1)] assms(3) by (auto simp: udfps_inv_def)
  have h1: "(h1, out1) = resolve e1 (section_deadline e1 h) h"
    using r1 resume_pending assms(2,3) alive by simp
  show ?thesis
  proof (cases "mPending h1")
    case False
    then have "UdfpsHandler_resume e2 h1 = (h1\<lparr>mThread := WaitCondition\<rparr>, [])"
      using h1 assms(2,3) by (intro resume_idle) (auto simp: resolve_def split: if_splits)
    then show ?thesis
      using False h1 r2 assms(2) by (auto simp: resolve_def split: if_splits)
  next
    case True
    then have "h1 = h\<lparr>mThread := WaitFor (mRequestId h) (section_deadline e1 h)\<rparr>" "out1 = []"
      and slept: "fod_ui e1 \<noteq> Some 1" "fod_ui e1 \<noteq> None" "\<not> section_deadline e1 h \<le> now_check e1"
      using h1 by (auto simp: resolve_def split: if_splits)
    then have "(h2, out2) = resolve e2 (section_deadline e1 h) h1"
      using r2 resume_pending [of h1 e2] True assms(3) by (simp add: section_deadline_def)
    then show ?thesis
      using slept assms(6) \<open>h1 = _\<close> \<open>out1 = []\<close> by (auto simp: resolve_def split: if_splits)
  qed
qed

theorem udfps_request_resolved_witness:
  "\<not> mPending (fst (UdfpsHandler_resume (dark_env 600000000) (fst (UdfpsHandler_resume (dark_env 10)
      \<lparr>mStopped = False, mFingerDown = True, mPending = True, mRequestId = 1, mThread = Start\<rparr>))))"
proof -
  let ?h = "\<lparr>mStopped = False, mFingerDown = True, mPending = True, mRequestId = 1, mThread = Start\<rparr>"
  let ?h1 = "?h\<lparr>mThread := WaitFor 1 500000010\<rparr>"
  let ?h2 = "?h1\<lparr>mPending := False, mThread := WaitCondition\<rparr>"
  have a: "UdfpsHandler_resume (dark_env 10) ?h = (?h1, [])"
    by (simp add: resume_pending resolve_def section_deadline_def dark_env_def)
  have b: "UdfpsHandler_resume (dark_env 600000000) ?h1 = (?h2, [])"
    by (simp add: resume_pending resolve_def section_deadline_def dark_env_def)
  have "\<not> mPending ?h2"
    using udfps_request_resolved [OF reachable_waiting _ _ a b] by (simp add: section_deadline_def dark_env_def)
  then show ?thesis using a b by simp
qed

text \<open>
  Destruction joins: once \<open>mStopped\<close> is set, the first section the thread runs ends it without
  reporting anything, and it stays ended, whatever it was waiting for.
\<close>

theorem udfps_destroy_joins:
  "mThread (fst (UdfpsHandler_resume e (UdfpsHandler_destroy h))) = Exited
   \<and> snd (UdfpsHandler_resume e (UdfpsHandler_destroy h)) = []
   \<and> UdfpsHandler_resume e' (fst (UdfpsHandler_resume e (UdfpsHandler_destroy h)))
       = (fst (UdfpsHandler_resume e (UdfpsHandler_destroy h)), [])"
  by (simp add: UdfpsHandler_destroy_def resume_stopped)

end
