(* ===== verification/Legacy2_Aidl.thy ===== *)
theory Legacy2_Aidl
  imports Prelude
begin

text \<open>
  Translation of hardware authentication tokens between the legacy HAL structure and the AIDL
  parcelable: the two overloads of \<open>translate\<close> in \<open>fingerprint/include/Legacy2Aidl.h\<close>. The structures
  are declared outside this repository; the record of the legacy one holds all of its members, also the version, which
  neither function touches.
\<close>

section \<open>Byte order\<close>

text \<open>
  \<open>htobe32\<close>, \<open>be32toh\<close>, \<open>htobe64\<close> and \<open>be64toh\<close> on the little-endian device: the bytes in reverse
  order.
\<close>

definition byte_of :: "nat \<Rightarrow> u32 \<Rightarrow> u8" where
  "byte_of i x = ucast (drop_bit (8 * i) x)"

definition bswap32 :: "u32 \<Rightarrow> u32" where
  "bswap32 x = word_cat (word_cat (byte_of 0 x) (byte_of 1 x) :: 16 word)
     (word_cat (byte_of 2 x) (byte_of 3 x) :: 16 word)"

definition bswap64 :: "u64 \<Rightarrow> u64" where
  "bswap64 x = word_cat (bswap32 (ucast x)) (bswap32 (ucast (drop_bit 32 x)))"

lemma bit_bswap32:
  "bit (bswap32 x) n \<longleftrightarrow>
     (if n < 8 then bit x (24 + n) else if n < 16 then bit x (8 + n)
      else if n < 24 then bit x (n - 8) else n < 32 \<and> bit x (n - 24))"
  by (auto simp: bswap32_def byte_of_def bit_simps)

lemma bswap32_bswap32 [simp]: "bswap32 (bswap32 x) = x"
  by (rule bit_word_eqI) (auto simp: bit_bswap32)

lemma bswap64_bswap64 [simp]: "bswap64 (bswap64 x) = x"
proof -
  have "ucast (bswap64 x) = bswap32 (ucast (drop_bit 32 x))"
    by (rule bit_word_eqI) (simp add: bswap64_def bit_simps)
  moreover have "ucast (drop_bit 32 (bswap64 x)) = bswap32 (ucast x)"
    by (rule bit_word_eqI) (simp add: bswap64_def bit_simps)
  ultimately show ?thesis
    unfolding bswap64_def [of "bswap64 x"] by (intro bit_word_eqI) (auto simp: bit_simps)
qed

section \<open>Tokens\<close>

record hw_auth_token_t =
  hat_version :: u8
  hat_challenge :: u64
  hat_user_id :: u64
  hat_authenticator_id :: u64
  hat_authenticator_type :: u32
  hat_timestamp :: u64
  hat_hmac :: "u8 list"

record HardwareAuthToken =
  tok_challenge :: s64
  tok_userId :: s64
  tok_authenticatorId :: s64
  tok_authenticatorType :: s32
  tok_milliSeconds :: s64
  tok_mac :: "u8 list"

text \<open>The array \<open>hmac\<close> of the legacy structure has 32 bytes.\<close>

definition hmac_size :: nat where
  "hmac_size = 32"

text \<open>
  From AIDL to the legacy structure. \<open>std::copy\<close> writes as many bytes as the vector has: more than
  the array holds is a write past it (\<open>None\<close>), fewer leave the rest of the array as it was.
\<close>

definition translate_to_hal ::
  "HardwareAuthToken \<Rightarrow> hw_auth_token_t \<Rightarrow> hw_auth_token_t option" where
  "translate_to_hal authToken hat =
     (if hmac_size < length (tok_mac authToken) then None
      else Some (hat
        \<lparr>hat_challenge := tok_challenge authToken,
         hat_user_id := tok_userId authToken,
         hat_authenticator_id := tok_authenticatorId authToken,
         hat_authenticator_type := bswap32 (tok_authenticatorType authToken),
         hat_timestamp := bswap64 (tok_milliSeconds authToken),
         hat_hmac := tok_mac authToken @ drop (length (tok_mac authToken)) (hat_hmac hat)\<rparr>))"

text \<open>From the legacy structure to AIDL. \<open>insert\<close> puts the 32 bytes in front of what the vector held.\<close>

definition translate_to_aidl :: "hw_auth_token_t \<Rightarrow> HardwareAuthToken \<Rightarrow> HardwareAuthToken" where
  "translate_to_aidl hat authToken = authToken
     \<lparr>tok_challenge := hat_challenge hat,
      tok_userId := hat_user_id hat,
      tok_authenticatorId := hat_authenticator_id hat,
      tok_authenticatorType := bswap32 (hat_authenticator_type hat),
      tok_milliSeconds := bswap64 (hat_timestamp hat),
      tok_mac := hat_hmac hat @ tok_mac authToken\<rparr>"

text \<open>A default-constructed token, as the callers pass it.\<close>

definition HardwareAuthToken_new :: HardwareAuthToken where
  "HardwareAuthToken_new =
     \<lparr>tok_challenge = 0, tok_userId = 0, tok_authenticatorId = 0, tok_authenticatorType = 0, tok_milliSeconds = 0, tok_mac = []\<rparr>"

section \<open>Properties\<close>

text \<open>
  C26: The two translations are inverse to each other but for the version. A legacy token with its 32-byte code that goes
  to AIDL and back has all of its members again except the version, which is that of the target structure: the
  round trip is exact if and only if the versions agree. A token from the framework survives the way to the
  legacy structure and back exactly when its code has 32 bytes, whatever that structure held before.
\<close>

theorem auth_token_roundtrip:
  assumes "length (hat_hmac hat) = hmac_size" and "length (hat_hmac old) = hmac_size"
  shows "translate_to_hal (translate_to_aidl hat HardwareAuthToken_new) old = Some (hat\<lparr>hat_version := hat_version old\<rparr>)
    \<and> (translate_to_hal (translate_to_aidl hat HardwareAuthToken_new) old = Some hat \<longleftrightarrow> hat_version hat = hat_version old)
    \<and> (map_option (\<lambda>h. translate_to_aidl h HardwareAuthToken_new) (translate_to_hal tok old) = Some tok
        \<longleftrightarrow> length (tok_mac tok) = hmac_size)"
proof -
  have "translate_to_hal (translate_to_aidl hat HardwareAuthToken_new) old = Some (hat\<lparr>hat_version := hat_version old\<rparr>)"
    using assms by (simp add: translate_to_hal_def translate_to_aidl_def HardwareAuthToken_new_def)
  moreover have "hat\<lparr>hat_version := v\<rparr> = hat \<longleftrightarrow> hat_version hat = v" for v
    by (cases hat) auto
  moreover have "drop (length (tok_mac tok)) (hat_hmac old) = [] \<longleftrightarrow> hmac_size \<le> length (tok_mac tok)"
    using assms(2) by simp
  then have "map_option (\<lambda>h. translate_to_aidl h HardwareAuthToken_new) (translate_to_hal tok old) = Some tok
      \<longleftrightarrow> length (tok_mac tok) = hmac_size"
    by (cases tok) (auto simp: translate_to_hal_def translate_to_aidl_def HardwareAuthToken_new_def)
  ultimately show ?thesis
    by simp
qed

text \<open>A token of version 0 that comes back in a structure whose version was never set.\<close>

theorem auth_token_roundtrip_witness:
  "\<exists>hat old. translate_to_hal (translate_to_aidl hat HardwareAuthToken_new) old = Some (hat\<lparr>hat_version := 0xA5\<rparr>)
     \<and> translate_to_hal (translate_to_aidl hat HardwareAuthToken_new) old \<noteq> Some hat
     \<and> hat_authenticator_type hat = 0x01020304 \<and> hat_hmac hat = replicate 32 7"
proof -
  define hat where "hat = \<lparr>hat_version = 0, hat_challenge = 1, hat_user_id = 2, hat_authenticator_id = 3,
    hat_authenticator_type = 0x01020304, hat_timestamp = 5, hat_hmac = replicate 32 7\<rparr>"
  let ?old = "hat\<lparr>hat_version := 0xA5\<rparr>"
  have "length (hat_hmac hat) = hmac_size" "length (hat_hmac ?old) = hmac_size"
    by (simp_all add: hat_def hmac_size_def)
  from auth_token_roundtrip [OF this] show ?thesis
    by (intro exI [of _ hat] exI [of _ ?old]) (simp add: hat_def)
qed

end
