(* ===== verification/Fp_Session.thy ===== *)
theory Fp_Session
  imports Lockout_Tracker Udfps_Handler Legacy2_Aidl "HOL-Library.State_Monad"
begin

text \<open>
  The fingerprint session: \<open>fingerprint/Session.cpp\<close>, \<open>fingerprint/include/Session.h\<close>,
  \<open>fingerprint/CancellationSignal.cpp\<close> and the message and device types of
  \<open>fingerprint/include/fingerprint.h\<close>. An operation is a computation of the state monad over the
  session, the state behind the vendor device and the list of effects it has had: every call of the
  device, of the framework callback and every write of the illumination node, in order.
\<close>

section \<open>The legacy HAL interface\<close>

datatype fingerprint_error =
    FINGERPRINT_ERROR_HW_UNAVAILABLE | FINGERPRINT_ERROR_UNABLE_TO_PROCESS
  | FINGERPRINT_ERROR_TIMEOUT | FINGERPRINT_ERROR_NO_SPACE | FINGERPRINT_ERROR_CANCELED
  | FINGERPRINT_ERROR_UNABLE_TO_REMOVE | FINGERPRINT_ERROR_LOCKOUT | FINGERPRINT_ERROR_VENDOR_BASE

fun error_code :: "fingerprint_error \<Rightarrow> s32" where
  "error_code FINGERPRINT_ERROR_HW_UNAVAILABLE = 1"
| "error_code FINGERPRINT_ERROR_UNABLE_TO_PROCESS = 2"
| "error_code FINGERPRINT_ERROR_TIMEOUT = 3"
| "error_code FINGERPRINT_ERROR_NO_SPACE = 4"
| "error_code FINGERPRINT_ERROR_CANCELED = 5"
| "error_code FINGERPRINT_ERROR_UNABLE_TO_REMOVE = 6"
| "error_code FINGERPRINT_ERROR_LOCKOUT = 7"
| "error_code FINGERPRINT_ERROR_VENDOR_BASE = 1000"

datatype fingerprint_acquired_info =
    FINGERPRINT_ACQUIRED_GOOD | FINGERPRINT_ACQUIRED_PARTIAL | FINGERPRINT_ACQUIRED_INSUFFICIENT
  | FINGERPRINT_ACQUIRED_IMAGER_DIRTY | FINGERPRINT_ACQUIRED_TOO_SLOW | FINGERPRINT_ACQUIRED_TOO_FAST
  | FINGERPRINT_ACQUIRED_DETECTED | FINGERPRINT_ACQUIRED_VENDOR_BASE

fun acquired_code :: "fingerprint_acquired_info \<Rightarrow> s32" where
  "acquired_code FINGERPRINT_ACQUIRED_GOOD = 0"
| "acquired_code FINGERPRINT_ACQUIRED_PARTIAL = 1"
| "acquired_code FINGERPRINT_ACQUIRED_INSUFFICIENT = 2"
| "acquired_code FINGERPRINT_ACQUIRED_IMAGER_DIRTY = 3"
| "acquired_code FINGERPRINT_ACQUIRED_TOO_SLOW = 4"
| "acquired_code FINGERPRINT_ACQUIRED_TOO_FAST = 5"
| "acquired_code FINGERPRINT_ACQUIRED_DETECTED = 6"
| "acquired_code FINGERPRINT_ACQUIRED_VENDOR_BASE = 1000"

record fingerprint_finger_id =
  gid :: u32
  fid :: u32

text \<open>The tagged union; the last constructor stands for a tag the switch of \<open>notify\<close> has no case for.\<close>

datatype fingerprint_msg =
    FINGERPRINT_ERROR s32
  | FINGERPRINT_ACQUIRED s32
  | FINGERPRINT_TEMPLATE_ENROLLING fingerprint_finger_id u32 u64
  | FINGERPRINT_TEMPLATE_REMOVED fingerprint_finger_id u32
  | FINGERPRINT_AUTHENTICATED fingerprint_finger_id hw_auth_token_t
  | FINGERPRINT_TEMPLATE_ENUMERATING fingerprint_finger_id u32
  | FINGERPRINT_OTHER s32

text \<open>
  The function table of the vendor device, over whatever state \<open>'d\<close> the vendor library keeps behind
  it. Its members are arguments of the model.
\<close>

record 'd fingerprint_device =
  dev_pre_enroll :: "'d \<Rightarrow> u64 \<times> 'd"
  dev_enroll :: "hw_auth_token_t \<Rightarrow> u32 \<Rightarrow> u32 \<Rightarrow> 'd \<Rightarrow> s32 \<times> 'd"
  dev_post_enroll :: "'d \<Rightarrow> s32 \<times> 'd"
  dev_get_authenticator_id :: "'d \<Rightarrow> u64 \<times> 'd"
  dev_cancel :: "'d \<Rightarrow> s32 \<times> 'd"
  dev_enumerate :: "'d \<Rightarrow> s32 \<times> 'd"
  dev_remove :: "u32 \<Rightarrow> u32 \<Rightarrow> 'd \<Rightarrow> s32 \<times> 'd"
  dev_set_active_group :: "u32 \<Rightarrow> string \<Rightarrow> 'd \<Rightarrow> s32 \<times> 'd"
  dev_authenticate :: "u64 \<Rightarrow> u32 \<Rightarrow> 'd \<Rightarrow> s32 \<times> 'd"
  dev_goodixExtCmd :: "s32 \<Rightarrow> s32 \<Rightarrow> 'd \<Rightarrow> s32 \<times> 'd"

section \<open>The AIDL side\<close>

datatype Error = Error_UNABLE_TO_PROCESS | Error_HW_UNAVAILABLE | Error_TIMEOUT | Error_NO_SPACE
  | Error_CANCELED | Error_UNABLE_TO_REMOVE | Error_VENDOR

datatype AcquiredInfo = Acquired_GOOD | Acquired_PARTIAL | Acquired_INSUFFICIENT
  | Acquired_SENSOR_DIRTY | Acquired_TOO_SLOW | Acquired_TOO_FAST | Acquired_VENDOR

text \<open>
  What a binder call comes back with. \<open>Undefined\<close> marks the paths on which the code's behaviour is
  undefined: a write past an array, a second deletion.
\<close>

datatype status = Ok | ServiceSpecificError s32 | Undefined

datatype effect =
    SetFodHbm bool
  | DevPreEnroll | DevEnroll hw_auth_token_t u32 u32 | DevPostEnroll | DevGetAuthenticatorId
  | DevCancel | DevEnumerate | DevRemove u32 u32 | DevSetActiveGroup u32 string
  | DevAuthenticate u64 u32 | DevGoodixExtCmd s32 s32
  | OnChallengeGenerated s64 | OnChallengeRevoked s64 | OnError Error s32
  | OnAuthenticatorIdRetrieved s64 | OnAuthenticatorIdInvalidated s64
  | OnAcquired AcquiredInfo s32 | OnEnrollmentProgress s32 s32 | OnEnrollmentsRemoved "s32 list"
  | OnEnrollmentsEnumerated "s32 list"
  | OnAuthenticationSucceeded s32 HardwareAuthToken | OnAuthenticationFailed
  | OnLockoutPermanent | OnLockoutTimed s64 | OnLockoutCleared | OnSessionClosed
  | LinkToDeath | DeathRecipientDelete

section \<open>State\<close>

text \<open>
  The members of \<open>Session\<close>. \<open>mDeathRecipient\<close> says whether the recipient still exists;
  \<open>lockoutTimers\<close> lists the timeouts of the detached threads that sleep before
  \<open>lockoutTimerExpired\<close>.
\<close>

record Session =
  mLockoutTracker :: LockoutTracker
  mClosed :: bool
  mIsLockoutTimerStarted :: bool
  mIsLockoutTimerAborted :: bool
  mUserId :: s32
  mDeathRecipient :: bool
  mIsAod :: bool
  mUdfpsHandler :: UdfpsHandler
  lockoutTimers :: "s64 list"

text \<open>\<open>enrollments\<close> is the function-local static of \<open>notify\<close>, shared by all sessions of the process.\<close>

record 'd fp =
  this :: Session
  dev :: 'd
  enrollments :: "s32 list"
  effects :: "effect list"

type_synonym ('d, 'a) fp_op = "('d fp, 'a) state"

definition emit :: "effect \<Rightarrow> ('d, unit) fp_op" where
  "emit e = State (\<lambda>s. ((), s\<lparr>effects := effects s @ [e]\<rparr>))"

definition member :: "(Session \<Rightarrow> 'a) \<Rightarrow> ('d, 'a) fp_op" where
  "member f = State (\<lambda>s. (f (this s), s))"

definition assign :: "(Session \<Rightarrow> Session) \<Rightarrow> ('d, unit) fp_op" where
  "assign f = State (\<lambda>s. ((), s\<lparr>this := f (this s)\<rparr>))"

definition call_device :: "effect \<Rightarrow> ('d \<Rightarrow> 'r \<times> 'd) \<Rightarrow> ('d, 'r) fp_op" where
  "call_device e f = State (\<lambda>s. case f (dev s) of (r, d) \<Rightarrow> (r, s\<lparr>dev := d, effects := effects s @ [e]\<rparr>))"

lemma run_primitives [simp]:
  "run_state (emit e) s = ((), s\<lparr>effects := effects s @ [e]\<rparr>)"
  "run_state (member f) s = (f (this s), s)"
  "run_state (assign g) s = ((), s\<lparr>this := g (this s)\<rparr>)"
  "run_state (call_device e k) s =
     (fst (k (dev s)), s\<lparr>dev := snd (k (dev s)), effects := effects s @ [e]\<rparr>)"
  by (simp_all add: emit_def member_def assign_def call_device_def case_prod_beta)

section \<open>Illumination and finger reports\<close>

definition setFodHbm :: "bool \<Rightarrow> ('d, unit) fp_op" where
  "setFodHbm status = emit (SetFodHbm status)"

text \<open>The lambda the constructor hands to the handler, and the handler's calls of it.\<close>

definition setFingerDown :: "'d fingerprint_device \<Rightarrow> bool \<Rightarrow> ('d, unit) fp_op" where
  "setFingerDown fd down = do {
     let cmd = (if down then 1 else 0);
     _ \<leftarrow> call_device (DevGoodixExtCmd cmd 0) (dev_goodixExtCmd fd cmd 0);
     State_Monad.return ()
   }"

fun report_fingers :: "'d fingerprint_device \<Rightarrow> bool list \<Rightarrow> ('d, unit) fp_op" where
  "report_fingers fd [] = State_Monad.return ()"
| "report_fingers fd (b # bs) = do { setFingerDown fd b; report_fingers fd bs }"

definition udfps_call ::
  "'d fingerprint_device \<Rightarrow> (UdfpsHandler \<Rightarrow> UdfpsHandler \<times> bool list) \<Rightarrow> ('d, unit) fp_op" where
  "udfps_call fd f = do {
     h \<leftarrow> member mUdfpsHandler;
     assign (\<lambda>t. t\<lparr>mUdfpsHandler := fst (f h)\<rparr>);
     report_fingers fd (snd (f h))
   }"

section \<open>Construction\<close>

definition group_path :: "s32 \<Rightarrow> string" where
  "group_path userId = ''/data/vendor_de/'' @ decimal (sint userId) @ ''/fpdata/''"

definition Session_members :: "s32 \<Rightarrow> LockoutTracker \<Rightarrow> Session" where
  "Session_members userId lockoutTracker =
     \<lparr>mLockoutTracker = lockoutTracker, mClosed = False,
      mIsLockoutTimerStarted = False, mIsLockoutTimerAborted = False, mUserId = userId,
      mDeathRecipient = True, mIsAod = False, mUdfpsHandler = UdfpsHandler_new, lockoutTimers = []\<rparr>"

definition Session_new :: "'d fingerprint_device \<Rightarrow> s32 \<Rightarrow> LockoutTracker \<Rightarrow> ('d, unit) fp_op" where
  "Session_new fd userId lockoutTracker = do {
     assign (\<lambda>_. Session_members userId lockoutTracker);
     _ \<leftarrow> call_device (DevSetActiveGroup userId (group_path userId))
       (dev_set_active_group fd userId (group_path userId));
     State_Monad.return ()
   }"

section \<open>Enrollment, authentication and queries\<close>

definition Session_generateChallenge :: "'d fingerprint_device \<Rightarrow> ('d, status) fp_op" where
  "Session_generateChallenge fd = do {
     challenge \<leftarrow> call_device DevPreEnroll (dev_pre_enroll fd);
     emit (OnChallengeGenerated challenge);
     State_Monad.return Ok
   }"

definition Session_revokeChallenge :: "'d fingerprint_device \<Rightarrow> s64 \<Rightarrow> ('d, status) fp_op" where
  "Session_revokeChallenge fd challenge = do {
     udfps_call fd UdfpsHandler_onFingerUp;
     setFodHbm False;
     _ \<leftarrow> call_device DevPostEnroll (dev_post_enroll fd);
     emit (OnChallengeRevoked challenge);
     State_Monad.return Ok
   }"

text \<open>\<open>stack\<close> is what the uninitialised local \<open>authToken\<close> of \<open>enroll\<close> happens to hold.\<close>

definition Session_enroll ::
  "'d fingerprint_device \<Rightarrow> hw_auth_token_t \<Rightarrow> HardwareAuthToken \<Rightarrow> ('d, status) fp_op" where
  "Session_enroll fd stack hat = (case translate_to_hal hat stack of
       None \<Rightarrow> State_Monad.return Undefined
     | Some authToken \<Rightarrow> do {
         user \<leftarrow> member mUserId;
         error \<leftarrow> call_device (DevEnroll authToken user 60) (dev_enroll fd authToken user 60);
         (if error \<noteq> 0 then emit (OnError Error_UNABLE_TO_PROCESS error) else setFodHbm True);
         State_Monad.return Ok
       })"

definition Session_authenticate :: "'d fingerprint_device \<Rightarrow> s64 \<Rightarrow> ('d, status) fp_op" where
  "Session_authenticate fd operationId = do {
     user \<leftarrow> member mUserId;
     error \<leftarrow> call_device (DevAuthenticate operationId user) (dev_authenticate fd operationId user);
     (if error \<noteq> 0 then emit (OnError Error_UNABLE_TO_PROCESS error) else setFodHbm True);
     State_Monad.return Ok
   }"

definition Session_detectInteraction :: "('d, status) fp_op" where
  "Session_detectInteraction = do {
     emit (OnError Error_UNABLE_TO_PROCESS 0);
     State_Monad.return Ok
   }"

definition Session_enumerateEnrollments :: "'d fingerprint_device \<Rightarrow> ('d, status) fp_op" where
  "Session_enumerateEnrollments fd = do {
     _ \<leftarrow> call_device DevEnumerate (dev_enumerate fd);
     State_Monad.return Ok
   }"

fun remove_each :: "'d fingerprint_device \<Rightarrow> s32 list \<Rightarrow> ('d, unit) fp_op" where
  "remove_each fd [] = State_Monad.return ()"
| "remove_each fd (f # fs) = do {
     user \<leftarrow> member mUserId;
     _ \<leftarrow> call_device (DevRemove user f) (dev_remove fd user f);
     remove_each fd fs
   }"

definition Session_removeEnrollments :: "'d fingerprint_device \<Rightarrow> s32 list \<Rightarrow> ('d, status) fp_op" where
  "Session_removeEnrollments fd enrollmentIds = do {
     remove_each fd enrollmentIds;
     State_Monad.return Ok
   }"

definition Session_getAuthenticatorId :: "'d fingerprint_device \<Rightarrow> ('d, status) fp_op" where
  "Session_getAuthenticatorId fd = do {
     auth_id \<leftarrow> call_device DevGetAuthenticatorId (dev_get_authenticator_id fd);
     emit (OnAuthenticatorIdRetrieved auth_id);
     State_Monad.return Ok
   }"

definition Session_invalidateAuthenticatorId :: "'d fingerprint_device \<Rightarrow> ('d, status) fp_op" where
  "Session_invalidateAuthenticatorId fd = do {
     auth_id \<leftarrow> call_device DevGetAuthenticatorId (dev_get_authenticator_id fd);
     emit (OnAuthenticatorIdInvalidated auth_id);
     State_Monad.return Ok
   }"

section \<open>Pointer events\<close>

definition Session_onPointerDown :: "('d, status) fp_op" where
  "Session_onPointerDown = do {
     assign (\<lambda>t. t\<lparr>mIsAod := False\<rparr>);
     State_Monad.return Ok
   }"

definition Session_onPointerUp :: "'d fingerprint_device \<Rightarrow> ('d, status) fp_op" where
  "Session_onPointerUp fd = do {
     udfps_call fd UdfpsHandler_onFingerUp;
     State_Monad.return Ok
   }"

definition Session_onUiReady :: "'d fingerprint_device \<Rightarrow> ('d, status) fp_op" where
  "Session_onUiReady fd = do {
     isAod \<leftarrow> member mIsAod;
     udfps_call fd (UdfpsHandler_onUiReady isAod);
     State_Monad.return Ok
   }"

definition Session_onPointerDownWithContext :: "bool \<Rightarrow> ('d, status) fp_op" where
  "Session_onPointerDownWithContext isAod = do {
     status \<leftarrow> Session_onPointerDown;
     assign (\<lambda>t. t\<lparr>mIsAod := isAod\<rparr>);
     State_Monad.return status
   }"

section \<open>Cancelling and closing\<close>

definition Session_cancel :: "'d fingerprint_device \<Rightarrow> ('d, status) fp_op" where
  "Session_cancel fd = do {
     udfps_call fd UdfpsHandler_onFingerUp;
     setFodHbm False;
     ret \<leftarrow> call_device DevCancel (dev_cancel fd);
     if ret = 0
     then do { emit (OnError Error_CANCELED 0); State_Monad.return Ok }
     else State_Monad.return (ServiceSpecificError ret)
   }"

definition Session_close :: "'d fingerprint_device \<Rightarrow> ('d, status) fp_op" where
  "Session_close fd = do {
     udfps_call fd UdfpsHandler_onFingerUp;
     setFodHbm False;
     assign (\<lambda>t. t\<lparr>mClosed := True\<rparr>);
     emit OnSessionClosed;
     alive \<leftarrow> member mDeathRecipient;
     if alive
     then do {
       emit DeathRecipientDelete;
       assign (\<lambda>t. t\<lparr>mDeathRecipient := False\<rparr>);
       State_Monad.return Ok
     }
     else State_Monad.return Undefined
   }"

text \<open>The binder's status is for the caller, who does not look at it; it is left out.\<close>

definition Session_linkToDeath :: "('d, unit) fp_op" where
  "Session_linkToDeath = emit LinkToDeath"

definition Session_isClosed :: "('d, bool) fp_op" where
  "Session_isClosed = member mClosed"

definition onClientDeath :: "'d fingerprint_device \<Rightarrow> ('d, unit) fp_op" where
  "onClientDeath fd = do {
     closed \<leftarrow> Session_isClosed;
     if \<not> closed
     then do { _ \<leftarrow> Session_close fd; State_Monad.return () }
     else State_Monad.return ()
   }"

section \<open>Translation of vendor codes\<close>

definition VendorErrorFilter :: "s32 \<Rightarrow> Error \<times> s32" where
  "VendorErrorFilter error =
     (if error = error_code FINGERPRINT_ERROR_HW_UNAVAILABLE then (Error_HW_UNAVAILABLE, 0)
      else if error = error_code FINGERPRINT_ERROR_UNABLE_TO_PROCESS then (Error_UNABLE_TO_PROCESS, 0)
      else if error = error_code FINGERPRINT_ERROR_TIMEOUT then (Error_TIMEOUT, 0)
      else if error = error_code FINGERPRINT_ERROR_NO_SPACE then (Error_NO_SPACE, 0)
      else if error = error_code FINGERPRINT_ERROR_CANCELED then (Error_CANCELED, 0)
      else if error = error_code FINGERPRINT_ERROR_UNABLE_TO_REMOVE then (Error_UNABLE_TO_REMOVE, 0)
      else if error = error_code FINGERPRINT_ERROR_LOCKOUT
      then (Error_VENDOR, error_code FINGERPRINT_ERROR_LOCKOUT)
      else if sint (error_code FINGERPRINT_ERROR_VENDOR_BASE) \<le> sint error
      then (Error_VENDOR, error - error_code FINGERPRINT_ERROR_VENDOR_BASE)
      else (Error_UNABLE_TO_PROCESS, 0))"

definition VendorAcquiredFilter :: "s32 \<Rightarrow> AcquiredInfo \<times> s32" where
  "VendorAcquiredFilter info =
     (if info = acquired_code FINGERPRINT_ACQUIRED_GOOD then (Acquired_GOOD, 0)
      else if info = acquired_code FINGERPRINT_ACQUIRED_PARTIAL then (Acquired_PARTIAL, 0)
      else if info = acquired_code FINGERPRINT_ACQUIRED_INSUFFICIENT then (Acquired_INSUFFICIENT, 0)
      else if info = acquired_code FINGERPRINT_ACQUIRED_IMAGER_DIRTY then (Acquired_SENSOR_DIRTY, 0)
      else if info = acquired_code FINGERPRINT_ACQUIRED_TOO_SLOW then (Acquired_TOO_SLOW, 0)
      else if info = acquired_code FINGERPRINT_ACQUIRED_TOO_FAST then (Acquired_TOO_FAST, 0)
      else if sint (acquired_code FINGERPRINT_ACQUIRED_VENDOR_BASE) \<le> sint info
      then (Acquired_VENDOR, info - acquired_code FINGERPRINT_ACQUIRED_VENDOR_BASE)
      else (Acquired_INSUFFICIENT, 0))"

section \<open>Lockout\<close>

definition clearLockout :: "bool \<Rightarrow> ('d, unit) fp_op" where
  "clearLockout clearAttemptCounter = do {
     assign (\<lambda>t. t\<lparr>mLockoutTracker := LockoutTracker_reset clearAttemptCounter (mLockoutTracker t)\<rparr>);
     emit OnLockoutCleared
   }"

text \<open>Spawning and detaching the thread adds its timeout to \<open>lockoutTimers\<close>.\<close>

definition startLockoutTimer :: "s64 \<Rightarrow> ('d, unit) fp_op" where
  "startLockoutTimer timeout = do {
     assign (\<lambda>t. t\<lparr>mIsLockoutTimerAborted := False\<rparr>);
     assign (\<lambda>t. t\<lparr>lockoutTimers := lockoutTimers t @ [timeout]\<rparr>);
     assign (\<lambda>t. t\<lparr>mIsLockoutTimerStarted := True\<rparr>)
   }"

text \<open>Taken as one step here, as every operation; \<open>Fp_Races\<close> cuts it at its statements.\<close>

definition lockoutTimerExpired :: "('d, unit) fp_op" where
  "lockoutTimerExpired = do {
     aborted \<leftarrow> member mIsLockoutTimerAborted;
     (if \<not> aborted then clearLockout False else State_Monad.return ());
     assign (\<lambda>t. t\<lparr>mIsLockoutTimerStarted := False\<rparr>);
     assign (\<lambda>t. t\<lparr>mIsLockoutTimerAborted := False\<rparr>)
   }"

text \<open>
  A call that reads the clock more than once takes the samples as a function of their order:
  \<open>clk 0\<close> for the failed attempt, \<open>clk 1\<close> for the mode, \<open>clk 2\<close> for the time left.
\<close>

definition checkSensorLockout :: "'d fingerprint_device \<Rightarrow> (nat \<Rightarrow> util) \<Rightarrow> ('d, bool) fp_op" where
  "checkSensorLockout fd clk = do {
     tracker \<leftarrow> member mLockoutTracker;
     let lockoutMode = fst (LockoutTracker_getMode (clk 1) tracker);
     assign (\<lambda>t. t\<lparr>mLockoutTracker := snd (LockoutTracker_getMode (clk 1) tracker)\<rparr>);
     (if lockoutMode \<noteq> NONE
      then do { udfps_call fd UdfpsHandler_onFingerUp; setFodHbm False }
      else State_Monad.return ());
     (if lockoutMode = PERMANENT
      then do {
        emit OnLockoutPermanent;
        assign (\<lambda>t. t\<lparr>mIsLockoutTimerAborted := True\<rparr>);
        State_Monad.return True
      }
      else if lockoutMode = TIMED
      then do {
        timeLeft \<leftarrow> member (\<lambda>t. LockoutTracker_getLockoutTimeLeft (clk 2) (mLockoutTracker t));
        emit (OnLockoutTimed timeLeft);
        started \<leftarrow> member mIsLockoutTimerStarted;
        (if \<not> started then startLockoutTimer timeLeft else State_Monad.return ());
        State_Monad.return True
      }
      else State_Monad.return False)
   }"

definition Session_resetLockout :: "('d, status) fp_op" where
  "Session_resetLockout = do {
     clearLockout True;
     assign (\<lambda>t. t\<lparr>mIsLockoutTimerAborted := True\<rparr>);
     State_Monad.return Ok
   }"

section \<open>Messages of the HAL\<close>

fun Session_notify ::
  "'d fingerprint_device \<Rightarrow> (nat \<Rightarrow> util) \<Rightarrow> fingerprint_msg \<Rightarrow> ('d, unit) fp_op" where
  "Session_notify fd clk (FINGERPRINT_ERROR error) =
     emit (OnError (fst (VendorErrorFilter error)) (snd (VendorErrorFilter error)))"
| "Session_notify fd clk (FINGERPRINT_ACQUIRED info) =
     (if fst (VendorAcquiredFilter info) \<noteq> Acquired_VENDOR
      then emit (OnAcquired (fst (VendorAcquiredFilter info)) (snd (VendorAcquiredFilter info)))
      else State_Monad.return ())"
| "Session_notify fd clk (FINGERPRINT_TEMPLATE_ENROLLING finger samples_remaining msg) = do {
     emit (OnEnrollmentProgress (fid finger) samples_remaining);
     if samples_remaining = 0
     then do { udfps_call fd UdfpsHandler_onFingerUp; setFodHbm False }
     else State_Monad.return ()
   }"
| "Session_notify fd clk (FINGERPRINT_TEMPLATE_REMOVED finger remaining_templates) =
     emit (OnEnrollmentsRemoved [fid finger])"
| "Session_notify fd clk (FINGERPRINT_AUTHENTICATED finger hat) =
     (if fid finger \<noteq> 0
      then do {
        emit (OnAuthenticationSucceeded (fid finger) (translate_to_aidl hat HardwareAuthToken_new));
        assign (\<lambda>t. t\<lparr>mLockoutTracker := LockoutTracker_reset True (mLockoutTracker t)\<rparr>);
        udfps_call fd UdfpsHandler_onFingerUp;
        setFodHbm False
      }
      else do {
        emit OnAuthenticationFailed;
        assign (\<lambda>t. t\<lparr>mLockoutTracker := LockoutTracker_addFailedAttempt (clk 0) (mLockoutTracker t)\<rparr>);
        _ \<leftarrow> checkSensorLockout fd clk;
        State_Monad.return ()
      })"
| "Session_notify fd clk (FINGERPRINT_TEMPLATE_ENUMERATING finger remaining_templates) = do {
     State_Monad.update (\<lambda>s. s\<lparr>enrollments := enrollments s @ [fid finger]\<rparr>);
     if remaining_templates = 0
     then do {
       found \<leftarrow> State_Monad.bind State_Monad.get (\<lambda>s. State_Monad.return (enrollments s));
       emit (OnEnrollmentsEnumerated found);
       State_Monad.update (\<lambda>s. s\<lparr>enrollments := []\<rparr>)
     }
     else State_Monad.return ()
   }"
| "Session_notify fd clk (FINGERPRINT_OTHER tag) = State_Monad.return ()"

section \<open>The session and its threads\<close>

text \<open>
  Everything that can act on a session: the binder calls (the \<open>WithContext\<close> variants forward to the
  plain ones), a cancellation signal, the death of the client, a message of the HAL, the expiry of
  the i-th sleeping lockout thread and a section of the UDFPS thread.
\<close>

datatype session_op =
    GenerateChallenge | RevokeChallenge s64 | Enroll hw_auth_token_t HardwareAuthToken
  | Authenticate s64 | DetectInteraction | EnumerateEnrollments | RemoveEnrollments "s32 list"
  | GetAuthenticatorId | InvalidateAuthenticatorId | ResetLockout
  | OnPointerDown | OnPointerUp | OnUiReady
  | AuthenticateWithContext s64 | EnrollWithContext hw_auth_token_t HardwareAuthToken | DetectInteractionWithContext
  | OnPointerDownWithContext bool | OnPointerUpWithContext | OnContextChanged | OnPointerCancelWithContext
  | SetIgnoreDisplayTouches bool | Cancel | Close | ClientDeath
  | Notify "nat \<Rightarrow> util" fingerprint_msg | TimerFires nat | UdfpsThread poll_env

text \<open>\<open>CancellationSignal::cancel\<close> forwards to the session it was made for.\<close>

definition CancellationSignal_cancel :: "'d fingerprint_device \<Rightarrow> ('d, status) fp_op" where
  "CancellationSignal_cancel fd = Session_cancel fd"

definition Session_onContextChanged :: "('d, status) fp_op" where
  "Session_onContextChanged = State_Monad.return Ok"

definition Session_setIgnoreDisplayTouches :: "('d, status) fp_op" where
  "Session_setIgnoreDisplayTouches = State_Monad.return Ok"

text \<open>The variants with a context ignore it; the pointer ones forward the pointer's id, which is not used.\<close>

definition Session_authenticateWithContext :: "'d fingerprint_device \<Rightarrow> s64 \<Rightarrow> 'c \<Rightarrow> ('d, status) fp_op" where
  "Session_authenticateWithContext fd operationId ctxt = Session_authenticate fd operationId"

definition Session_enrollWithContext ::
  "'d fingerprint_device \<Rightarrow> hw_auth_token_t \<Rightarrow> HardwareAuthToken \<Rightarrow> 'c \<Rightarrow> ('d, status) fp_op" where
  "Session_enrollWithContext fd stack hat ctxt = Session_enroll fd stack hat"

definition Session_detectInteractionWithContext :: "'c \<Rightarrow> ('d, status) fp_op" where
  "Session_detectInteractionWithContext ctxt = Session_detectInteraction"

definition Session_onPointerUpWithContext :: "'d fingerprint_device \<Rightarrow> ('d, status) fp_op" where
  "Session_onPointerUpWithContext fd = Session_onPointerUp fd"

definition Session_onPointerCancelWithContext :: "'d fingerprint_device \<Rightarrow> ('d, status) fp_op" where
  "Session_onPointerCancelWithContext fd = Session_onPointerUp fd"

text \<open>The thread of a timer wakes up: it leaves the list of sleepers and runs the bound action.\<close>

definition timer_fires :: "nat \<Rightarrow> ('d, unit) fp_op" where
  "timer_fires i = do {
     timers \<leftarrow> member lockoutTimers;
     if i < length timers
     then do {
       assign (\<lambda>t. t\<lparr>lockoutTimers := take i timers @ drop (Suc i) timers\<rparr>);
       lockoutTimerExpired
     }
     else State_Monad.return ()
   }"

fun session_apply :: "'d fingerprint_device \<Rightarrow> session_op \<Rightarrow> 'd fp \<Rightarrow> 'd fp" where
  "session_apply fd GenerateChallenge s = snd (run_state (Session_generateChallenge fd) s)"
| "session_apply fd (RevokeChallenge c) s = snd (run_state (Session_revokeChallenge fd c) s)"
| "session_apply fd (Enroll stack hat) s = snd (run_state (Session_enroll fd stack hat) s)"
| "session_apply fd (Authenticate i) s = snd (run_state (Session_authenticate fd i) s)"
| "session_apply fd DetectInteraction s = snd (run_state Session_detectInteraction s)"
| "session_apply fd EnumerateEnrollments s = snd (run_state (Session_enumerateEnrollments fd) s)"
| "session_apply fd (RemoveEnrollments ids) s = snd (run_state (Session_removeEnrollments fd ids) s)"
| "session_apply fd GetAuthenticatorId s = snd (run_state (Session_getAuthenticatorId fd) s)"
| "session_apply fd InvalidateAuthenticatorId s = snd (run_state (Session_invalidateAuthenticatorId fd) s)"
| "session_apply fd ResetLockout s = snd (run_state Session_resetLockout s)"
| "session_apply fd OnPointerDown s = snd (run_state Session_onPointerDown s)"
| "session_apply fd OnPointerUp s = snd (run_state (Session_onPointerUp fd) s)"
| "session_apply fd OnUiReady s = snd (run_state (Session_onUiReady fd) s)"
| "session_apply fd (OnPointerDownWithContext a) s = snd (run_state (Session_onPointerDownWithContext a) s)"
| "session_apply fd (AuthenticateWithContext i) s = snd (run_state (Session_authenticateWithContext fd i ()) s)"
| "session_apply fd (EnrollWithContext stack hat) s = snd (run_state (Session_enrollWithContext fd stack hat ()) s)"
| "session_apply fd DetectInteractionWithContext s = snd (run_state (Session_detectInteractionWithContext ()) s)"
| "session_apply fd OnPointerUpWithContext s = snd (run_state (Session_onPointerUpWithContext fd) s)"
| "session_apply fd OnContextChanged s = snd (run_state Session_onContextChanged s)"
| "session_apply fd OnPointerCancelWithContext s = snd (run_state (Session_onPointerCancelWithContext fd) s)"
| "session_apply fd (SetIgnoreDisplayTouches b) s = snd (run_state Session_setIgnoreDisplayTouches s)"
| "session_apply fd Cancel s = snd (run_state (CancellationSignal_cancel fd) s)"
| "session_apply fd Close s = snd (run_state (Session_close fd) s)"
| "session_apply fd ClientDeath s = snd (run_state (onClientDeath fd) s)"
| "session_apply fd (Notify clk msg) s = snd (run_state (Session_notify fd clk msg) s)"
| "session_apply fd (TimerFires i) s = snd (run_state (timer_fires i) s)"
| "session_apply fd (UdfpsThread e) s = snd (run_state (udfps_call fd (UdfpsHandler_resume e)) s)"

end
