(* ===== verification/Fp_Session_Props.thy ===== *)
theory Fp_Session_Props
  imports Fp_Session
begin

text \<open>
  What the session operations do: their effects in order, the invariant of the lockout timer, the
  trace of finger commands the vendor device sees, and the illumination state they leave.
\<close>

section \<open>Running the operations\<close>

lemma run_update [simp]: "run_state (State_Monad.update f) s = ((), f s)"
  by (simp add: State_Monad.update_def)

definition finger_cmd :: "bool \<Rightarrow> effect" where
  "finger_cmd b = DevGoodixExtCmd (if b then 1 else 0) 0"

definition finger_dev :: "'d fingerprint_device \<Rightarrow> bool list \<Rightarrow> 'd \<Rightarrow> 'd" where
  "finger_dev fd = fold (\<lambda>b d. snd (dev_goodixExtCmd fd (if b then 1 else 0) 0 d))"

lemma run_report_fingers [simp]:
  "run_state (report_fingers fd bs) s =
     ((), s\<lparr>dev := finger_dev fd bs (dev s), effects := effects s @ map finger_cmd bs\<rparr>)"
  by (induction bs arbitrary: s) (simp_all add: setFingerDown_def finger_dev_def finger_cmd_def Let_def)

lemma run_udfps_call [simp]:
  "run_state (udfps_call fd f) s =
     ((), s\<lparr>this := (this s)\<lparr>mUdfpsHandler := fst (f (mUdfpsHandler (this s)))\<rparr>,
        dev := finger_dev fd (snd (f (mUdfpsHandler (this s)))) (dev s),
        effects := effects s @ map finger_cmd (snd (f (mUdfpsHandler (this s))))\<rparr>)"
  by (simp add: udfps_call_def)

lemma run_setFodHbm [simp]: "run_state (setFodHbm b) s = ((), s\<lparr>effects := effects s @ [SetFodHbm b]\<rparr>)"
  by (simp add: setFodHbm_def)

lemma snd_onFingerUp [simp]: "snd (UdfpsHandler_onFingerUp h) = [False]"
  by (rule uh.up_reports)

lemma run_remove_each [simp]:
  "effects (snd (run_state (remove_each fd ids) s)) = effects s @ map (DevRemove (mUserId (this s))) ids"
  "this (snd (run_state (remove_each fd ids) s)) = this s"
  "enrollments (snd (run_state (remove_each fd ids) s)) = enrollments s"
  by (induction ids arbitrary: s) (simp_all add: case_prod_beta)

lemmas session_op_defs [op_simps] =
  Session_generateChallenge_def Session_revokeChallenge_def Session_enroll_def
  Session_authenticate_def Session_detectInteraction_def Session_enumerateEnrollments_def
  Session_removeEnrollments_def Session_getAuthenticatorId_def Session_invalidateAuthenticatorId_def
  Session_onPointerDown_def Session_onPointerUp_def Session_onUiReady_def
  Session_onPointerDownWithContext_def Session_cancel_def Session_close_def Session_isClosed_def
  onClientDeath_def CancellationSignal_cancel_def Session_onContextChanged_def
  Session_resetLockout_def clearLockout_def Session_setIgnoreDisplayTouches_def
  Session_authenticateWithContext_def Session_enrollWithContext_def Session_detectInteractionWithContext_def
  Session_onPointerUpWithContext_def Session_onPointerCancelWithContext_def

lemmas timer_defs = lockoutTimerExpired_def timer_fires_def startLockoutTimer_def clearLockout_def

section \<open>Vendor codes\<close>

text \<open>
  The translation of vendor error codes is exact. The framework is told a vendor error exactly
  for the lockout code (with code 7) and for codes from 1000 on (with the offset above 1000, which
  never wraps around); every other error comes with vendor code 0; so the vendor's own error 1007
  and the lockout are told apart no more.
\<close>

theorem vendor_error_exact:
  "(VendorErrorFilter e = (Error_VENDOR, v) \<longleftrightarrow>
      sint e = 7 \<and> v = 7 \<or> 1000 \<le> sint e \<and> sint v = sint e - 1000)
   \<and> (fst (VendorErrorFilter e) \<noteq> Error_VENDOR \<longrightarrow> snd (VendorErrorFilter e) = 0)
   \<and> VendorErrorFilter 1007 = VendorErrorFilter (error_code FINGERPRINT_ERROR_LOCKOUT)"
proof -
  have sub: "sint (e - 1000) = sint e - 1000" if "1000 \<le> sint e"
    using that sint_bounds32 [of e] by (subst sint_diff_exact32) auto
  show ?thesis
    using sub by (auto simp: VendorErrorFilter_def word_eq_sint_iff)
qed

theorem vendor_error_exact_witness:
  "VendorErrorFilter 1003 = (Error_VENDOR, 3) \<and> snd (VendorErrorFilter 3) = 0"
  using vendor_error_exact [of 1003 3] vendor_error_exact [of 3 0]
  by (simp add: VendorErrorFilter_def)

text \<open>
  An acquisition message reaches the framework unless it is a vendor one (code 1000 or above),
  always with vendor code 0 and never as a vendor acquisition; the codes the HAL header names other
  than 0, 1, 3, 4 and 5, its DETECTED code 6 among them, and all codes it does not name arrive as an
  insufficient image.
\<close>

theorem acquired_never_vendor:
  "effects (session_apply fd (Notify clk (FINGERPRINT_ACQUIRED info)) s) = effects s @
     (if 1000 \<le> sint info then []
      else [OnAcquired (if sint info = 0 then Acquired_GOOD else if sint info = 1 then Acquired_PARTIAL
        else if sint info = 3 then Acquired_SENSOR_DIRTY else if sint info = 4 then Acquired_TOO_SLOW
        else if sint info = 5 then Acquired_TOO_FAST else Acquired_INSUFFICIENT) 0])"
  by (auto simp: VendorAcquiredFilter_def word_eq_sint_iff)

section \<open>Lockout\<close>

text \<open>A tracker that has seen \<open>n\<close> failures since it was cleared, in the terms of the policy.\<close>

definition counts_failures :: "nat \<Rightarrow> LockoutTracker \<Rightarrow> bool" where
  "counts_failures n t \<longleftrightarrow> sint (mFailedCount t) = int n \<and>
     (mCurrentMode t = lockout_policy n \<or> mCurrentMode t = NONE \<and> lockout_policy n = TIMED)"

lemma counts_failures_tracks: "counts_failures n t \<longleftrightarrow> lt.tracks n t"
  by (auto simp: counts_failures_def lt.tracks_def LockoutTracker_ok_def LockoutTracker_count_def)

lemma run_checkSensorLockout:
  "snd (run_state (checkSensorLockout fd clk) s) =
     (let m = LockoutTracker_getMode (clk 1) (mLockoutTracker (this s));
          t = (this s)\<lparr>mLockoutTracker := snd m\<rparr>;
          lifted = t\<lparr>mUdfpsHandler := fst (UdfpsHandler_onFingerUp (mUdfpsHandler t))\<rparr>;
          dark = s\<lparr>dev := finger_dev fd [False] (dev s),
                   effects := effects s @ [finger_cmd False, SetFodHbm False]\<rparr>;
          left = LockoutTracker_getLockoutTimeLeft (clk 2) (snd m)
      in case fst m of
           NONE \<Rightarrow> s\<lparr>this := t\<rparr>
         | PERMANENT \<Rightarrow> dark\<lparr>this := lifted\<lparr>mIsLockoutTimerAborted := True\<rparr>,
             effects := effects dark @ [OnLockoutPermanent]\<rparr>
         | TIMED \<Rightarrow> dark\<lparr>this := (if mIsLockoutTimerStarted t then lifted
               else lifted\<lparr>mIsLockoutTimerAborted := False, lockoutTimers := lockoutTimers t @ [left],
                 mIsLockoutTimerStarted := True\<rparr>),
             effects := effects dark @ [OnLockoutTimed left]\<rparr>)"
  by (cases "fst (LockoutTracker_getMode (clk 1) (mLockoutTracker (this s)))")
    (simp_all add: checkSensorLockout_def startLockoutTimer_def Let_def)

text \<open>The lockout the session announces after a failure: a timed one the clock already calls over is none.\<close>

definition announced :: "(nat \<Rightarrow> util) \<Rightarrow> nat \<Rightarrow> LockoutMode" where
  "announced clk n =
     (if lockout_policy n = TIMED \<and> hasElapsed (clk 1) (getSystemNanoTime (clk 0)) LOCKOUT_TIMED_DURATION
      then NONE else lockout_policy n)"

lemma add_then_getMode:
  fixes t :: LockoutTracker and clk :: "nat \<Rightarrow> util"
  assumes "counts_failures n t" and "n + 1 < 2 ^ 31"
  defines "m \<equiv> LockoutTracker_getMode (clk 1) (LockoutTracker_addFailedAttempt (clk 0) t)"
  shows "fst m = announced clk (n + 1)" and "counts_failures (n + 1) (snd m)"
proof -
  let ?a = "LockoutTracker_addFailedAttempt (clk 0) t"
  have tr: "lt.tracks n t"
    using assms(1) by (simp add: counts_failures_tracks)
  have mode: "mCurrentMode ?a = lockout_policy (n + 1)"
    using lt.policy_after_attempt [OF tr, of "[]" "clk 0"] assms(2) by simp
  have "lt.tracks (n + 1) ?a"
    using lt.tracks_apply [OF tr, of "Attempt (clk 0)"] assms(2) by simp
  then have "lt.tracks (n + 1) (snd m)"
    using lt.tracks_apply [of "n + 1" ?a "Query (clk 1)"] assms(2) unfolding m_def by simp
  then show "counts_failures (n + 1) (snd m)"
    by (simp add: counts_failures_tracks)
  have "sint (mFailedCount t + 1) = int (n + 1)"
    using sint_count_Suc [of t] tr assms(2) by (auto simp: lt.tracks_def)
  then have "mLockoutTimedStart ?a = getSystemNanoTime (clk 0)" if "mCurrentMode ?a = TIMED"
    using that mode by (auto simp: lockout_defs lockout_policy_def Let_def split: if_splits)
  then show "fst m = announced clk (n + 1)"
    using mode by (auto simp: m_def LockoutTracker_getMode_def announced_def Let_def)
qed

text \<open>
  C13: What a failed authentication does, in every state in which the tracker has counted \<open>n\<close>
  failures: the framework hears of the failure; below the timed threshold nothing else happens; a
  timed or permanent lockout first lifts the finger and switches the illumination off and then is
  announced, a timed one with the time left. A timer thread is started only for a timed lockout and
  only when none is running, and the tracker has counted one failure more.
\<close>

theorem failed_attempt_effects:
  fixes s :: "'d fp" and fd :: "'d fingerprint_device" and clk :: "nat \<Rightarrow> util"
    and finger :: fingerprint_finger_id and hat :: hw_auth_token_t
  assumes n: "counts_failures n (mLockoutTracker (this s))" "n + 1 < 2 ^ 31" and "fid finger = 0"
  defines "s' \<equiv> session_apply fd (Notify clk (FINGERPRINT_AUTHENTICATED finger hat)) s"
  defines "left \<equiv> LockoutTracker_getLockoutTimeLeft (clk 2) (mLockoutTracker (this s'))"
  shows "effects s' = effects s @ OnAuthenticationFailed #
      (case announced clk (n + 1) of
         NONE \<Rightarrow> []
       | TIMED \<Rightarrow> [DevGoodixExtCmd 0 0, SetFodHbm False, OnLockoutTimed left]
       | PERMANENT \<Rightarrow> [DevGoodixExtCmd 0 0, SetFodHbm False, OnLockoutPermanent])
    \<and> lockoutTimers (this s') = lockoutTimers (this s) @
        (if announced clk (n + 1) = TIMED \<and> \<not> mIsLockoutTimerStarted (this s) then [left] else [])
    \<and> counts_failures (n + 1) (mLockoutTracker (this s'))"
proof -
  note m = add_then_getMode [OF n, of clk]
  show ?thesis
    using assms(3) m unfolding left_def s'_def
    by (cases "announced clk (n + 1)")
      (simp_all add: run_checkSensorLockout finger_cmd_def Let_def case_prod_beta)
qed

text \<open>A concrete session for the witnesses: a device without state that accepts everything.\<close>

definition accepting_device :: "unit fingerprint_device" where
  "accepting_device = \<lparr>dev_pre_enroll = (\<lambda>d. (42, d)), dev_enroll = (\<lambda>_ _ _ d. (0, d)),
     dev_post_enroll = (\<lambda>d. (0, d)), dev_get_authenticator_id = (\<lambda>d. (9, d)), dev_cancel = (\<lambda>d. (0, d)),
     dev_enumerate = (\<lambda>d. (0, d)), dev_remove = (\<lambda>_ _ d. (0, d)),
     dev_set_active_group = (\<lambda>_ _ d. (0, d)), dev_authenticate = (\<lambda>_ _ d. (0, d)),
     dev_goodixExtCmd = (\<lambda>_ _ d. (0, d))\<rparr>"

definition sample_session :: "s32 \<Rightarrow> LockoutMode \<Rightarrow> Session" where
  "sample_session n m =
     \<lparr>mLockoutTracker = \<lparr>mFailedCount = n, mLockoutTimedStart = 0, mCurrentMode = m\<rparr>, mClosed = False,
      mIsLockoutTimerStarted = False, mIsLockoutTimerAborted = False, mUserId = 0, mDeathRecipient = True,
      mIsAod = False, mUdfpsHandler = UdfpsHandler_new, lockoutTimers = []\<rparr>"

definition sample_fp :: "s32 \<Rightarrow> LockoutMode \<Rightarrow> unit fp" where
  "sample_fp n m = \<lparr>this = sample_session n m, dev = (), enrollments = [], effects = []\<rparr>"

definition no_finger :: fingerprint_finger_id where
  "no_finger = \<lparr>gid = 0, fid = 0\<rparr>"

definition no_hat :: hw_auth_token_t where
  "no_hat = \<lparr>hat_version = 0, hat_challenge = 0, hat_user_id = 0, hat_authenticator_id = 0, hat_authenticator_type = 0,
     hat_timestamp = 0, hat_hmac = replicate 32 0\<rparr>"

theorem failed_attempt_effects_witness:
  "effects (session_apply accepting_device
     (Notify (\<lambda>_. sample_clock 0) (FINGERPRINT_AUTHENTICATED no_finger no_hat)) (sample_fp 19 TIMED))
   = [OnAuthenticationFailed, DevGoodixExtCmd 0 0, SetFodHbm False, OnLockoutPermanent]"
proof -
  let ?s = "sample_fp 19 TIMED"
  have c: "counts_failures 19 (mLockoutTracker (this ?s))"
    by (simp add: counts_failures_def sample_fp_def sample_session_def lockout_policy_def)
  have "announced (\<lambda>_. sample_clock 0) (19 + 1) = PERMANENT"
    by (simp add: announced_def lockout_policy_def)
  then show ?thesis
    using failed_attempt_effects [OF c, where finger = no_finger and fd = accepting_device
        and clk = "\<lambda>_. sample_clock 0" and hat = no_hat]
    by (simp add: no_finger_def sample_fp_def)
qed

section \<open>The lockout timer\<close>

definition lockout_part :: "Session \<Rightarrow> LockoutTracker \<times> bool \<times> bool \<times> s64 list" where
  "lockout_part t =
     (mLockoutTracker t, mIsLockoutTimerStarted t, mIsLockoutTimerAborted t, lockoutTimers t)"

fun touches_lockout :: "session_op \<Rightarrow> bool" where
  "touches_lockout ResetLockout = True"
| "touches_lockout (TimerFires i) = True"
| "touches_lockout (Notify clk (FINGERPRINT_AUTHENTICATED finger hat)) = True"
| "touches_lockout _ = False"

text \<open>The effects an operation adds.\<close>

definition adds :: "effect list \<Rightarrow> 'd fp \<Rightarrow> 'd fp \<Rightarrow> bool" where
  "adds es s s' \<longleftrightarrow> effects s' = effects s @ es"

lemma adds_trans: "adds xs a b \<Longrightarrow> adds ys b c \<Longrightarrow> adds (xs @ ys) a c"
  by (simp add: adds_def)

lemma lockout_frame:
  assumes "\<not> touches_lockout x"
  shows "lockout_part (this (session_apply fd x s)) = lockout_part (this s)
    \<and> (\<exists>es. adds es s (session_apply fd x s) \<and> OnLockoutCleared \<notin> set es)"
proof (cases x)
  case (Notify clk msg)
  with assms show ?thesis
    by (cases msg) (auto simp: lockout_part_def adds_def finger_cmd_def)
qed (use assms in \<open>auto simp: lockout_part_def adds_def finger_cmd_def session_op_defs case_prod_beta split: option.split\<close>)

definition timer_inv :: "Session \<Rightarrow> bool" where
  "timer_inv t \<longleftrightarrow> length (lockoutTimers t) = (if mIsLockoutTimerStarted t then 1 else 0)
     \<and> (mCurrentMode (mLockoutTracker t) = PERMANENT \<and> mIsLockoutTimerStarted t \<longrightarrow> mIsLockoutTimerAborted t)"

lemma timer_inv_lockout_part:
  "lockout_part t = lockout_part u \<Longrightarrow> timer_inv t = timer_inv u"
  by (simp add: lockout_part_def timer_inv_def)

lemma mode_after_getMode: "mCurrentMode (snd (LockoutTracker_getMode u t)) = fst (LockoutTracker_getMode u t)"
  by (rule lt.cur_get)

lemma timer_inv_apply [inv_intros]:
  assumes "timer_inv (this s)"
  shows "timer_inv (this (session_apply fd x s))"
proof (cases "touches_lockout x")
  case False
  then show ?thesis
    using lockout_frame [of x fd s] assms timer_inv_lockout_part by blast
next
  case True
  then show ?thesis
  proof (cases x rule: touches_lockout.cases)
    case 1
    then show ?thesis using assms by (auto simp: timer_inv_def session_op_defs lockout_defs Let_def)
  next
    case (2 i)
    then show ?thesis using assms by (auto simp: timer_inv_def timer_defs lockout_defs Let_def split: if_splits)
  next
    case (3 clk finger hat)
    show ?thesis
      using assms 3 mode_after_getMode
      by (cases "fst (LockoutTracker_getMode (clk 1)
            (LockoutTracker_addFailedAttempt (clk 0) (mLockoutTracker (this s))))")
        (auto simp: timer_inv_def run_checkSensorLockout Let_def case_prod_beta LockoutTracker_reset_def
           split: if_splits)
  qed auto
qed

inductive session_reachable :: "'d fingerprint_device \<Rightarrow> 'd fp \<Rightarrow> bool" for fd where
  opened: "session_reachable fd (snd (run_state (Session_new fd user tracker) s))"
| acts: "session_reachable fd s \<Longrightarrow> session_reachable fd (session_apply fd x s)"

lemma reachable_timer_inv: "session_reachable fd s \<Longrightarrow> timer_inv (this s)"
  by (induction rule: session_reachable.induct) (simp_all add: timer_inv_apply, simp add: Session_new_def Session_members_def timer_inv_def)

definition opened_session :: "unit fp" where
  "opened_session = snd (run_state (Session_new accepting_device 0 (LockoutTracker_new 0 NONE)) (sample_fp 0 NONE))"

definition session_run :: "'d fingerprint_device \<Rightarrow> session_op list \<Rightarrow> 'd fp \<Rightarrow> 'd fp" where
  "session_run fd = fold (session_apply fd)"

lemma session_run_simps [simp]:
  "session_run fd [] s = s"
  "session_run fd (x # xs) s = session_run fd xs (session_apply fd x s)"
  "session_run fd (xs @ ys) s = session_run fd ys (session_run fd xs s)"
  by (simp_all add: session_run_def)

fun unlocks :: "session_op \<Rightarrow> bool" where
  "unlocks ResetLockout = True"
| "unlocks (Notify clk (FINGERPRINT_AUTHENTICATED finger hat)) = (fid finger \<noteq> 0)"
| "unlocks _ = False"

text \<open>A tracker in a permanent lockout that can count \<open>k\<close> more failures without wrap-around.\<close>

definition locked_for_good :: "nat \<Rightarrow> Session \<Rightarrow> bool" where
  "locked_for_good k t \<longleftrightarrow> mCurrentMode (mLockoutTracker t) = PERMANENT
     \<and> 20 \<le> sint (mFailedCount (mLockoutTracker t))
     \<and> sint (mFailedCount (mLockoutTracker t)) + int k < 2 ^ 31"

lemma locked_op:
  assumes "locked_for_good (Suc k) (this s)" and "\<not> unlocks x" and "\<forall>i. x \<noteq> TimerFires i"
  shows "locked_for_good k (this (session_apply fd x s))
    \<and> lockoutTimers (this (session_apply fd x s)) = lockoutTimers (this s)
    \<and> mIsLockoutTimerStarted (this (session_apply fd x s)) = mIsLockoutTimerStarted (this s)
    \<and> (mIsLockoutTimerAborted (this s) \<longrightarrow> mIsLockoutTimerAborted (this (session_apply fd x s)))
    \<and> (\<exists>es. adds es s (session_apply fd x s) \<and> OnLockoutCleared \<notin> set es)"
proof (cases "touches_lockout x")
  case False
  then show ?thesis
    using lockout_frame [of x fd s] assms(1) by (auto simp: locked_for_good_def lockout_part_def)
next
  case True
  then show ?thesis
  proof (cases x rule: touches_lockout.cases)
    case 1
    then show ?thesis using assms(2) by simp
  next
    case (2 i)
    then show ?thesis using assms(3) by simp
  next
    case (3 clk finger hat)
    let ?a = "LockoutTracker_addFailedAttempt (clk 0) (mLockoutTracker (this s))"
    have "sint (mFailedCount (mLockoutTracker (this s)) + 1)
        = sint (mFailedCount (mLockoutTracker (this s))) + 1"
      using assms(1) by (subst sint_add_exact32) (auto simp: locked_for_good_def)
    then have a: "mCurrentMode ?a = PERMANENT" "20 \<le> sint (mFailedCount ?a)"
        "sint (mFailedCount ?a) + int k < 2 ^ 31"
      using assms(1) by (auto simp: lockout_defs locked_for_good_def Let_def)
    then have "LockoutTracker_getMode (clk 1) ?a = (PERMANENT, ?a)"
      by (simp add: LockoutTracker_getMode_def)
    then show ?thesis
      using 3 assms(2) a by (auto simp: locked_for_good_def run_checkSensorLockout adds_def finger_cmd_def
          Let_def case_prod_beta)
  qed auto
qed

text \<open>No operation takes a sleeping lockout thread away, and one that adds one marks the timer as started.\<close>

lemma op_timers:
  assumes "\<forall>i. x \<noteq> TimerFires i"
  shows "(lockoutTimers (this (session_apply fd x s)) = lockoutTimers (this s)
      \<and> mIsLockoutTimerStarted (this (session_apply fd x s)) = mIsLockoutTimerStarted (this s))
    \<or> (\<exists>d. \<not> mIsLockoutTimerStarted (this s) \<and> mIsLockoutTimerStarted (this (session_apply fd x s))
      \<and> lockoutTimers (this (session_apply fd x s)) = lockoutTimers (this s) @ [d])"
proof (cases "touches_lockout x")
  case False
  then show ?thesis
    using lockout_frame [of x fd s] by (auto simp: lockout_part_def)
next
  case True
  then show ?thesis
  proof (cases x rule: touches_lockout.cases)
    case 1
    then show ?thesis by (auto simp: session_op_defs lockout_defs Let_def)
  next
    case (2 i)
    then show ?thesis using assms by simp
  next
    case (3 clk finger hat)
    show ?thesis
      using 3
      by (cases "fst (LockoutTracker_getMode (clk 1)
            (LockoutTracker_addFailedAttempt (clk 0) (mLockoutTracker (this s))))")
        (auto simp: run_checkSensorLockout Let_def case_prod_beta)
  qed auto
qed

text \<open>A run of failed authentications, one set of clock samples for each.\<close>

definition fail_ops :: "(nat \<Rightarrow> util) list \<Rightarrow> session_op list" where
  "fail_ops = map (\<lambda>clk. Notify clk (FINGERPRINT_AUTHENTICATED no_finger no_hat))"

lemma failed_step:
  fixes s :: "'d fp" and fd :: "'d fingerprint_device" and clk :: "nat \<Rightarrow> util"
  assumes "counts_failures n (mLockoutTracker (this s))" and "n + 1 < 2 ^ 31"
    and "mIsLockoutTimerStarted (this s)" and "mIsLockoutTimerAborted (this s)"
  defines "s' \<equiv> session_apply fd (Notify clk (FINGERPRINT_AUTHENTICATED no_finger no_hat)) s"
  shows "counts_failures (n + 1) (mLockoutTracker (this s')) \<and> mIsLockoutTimerStarted (this s')
    \<and> mIsLockoutTimerAborted (this s') \<and> lockoutTimers (this s') = lockoutTimers (this s)
    \<and> mCurrentMode (mLockoutTracker (this s')) = announced clk (n + 1)
    \<and> (\<exists>es. adds es s s' \<and> OnLockoutCleared \<notin> set es)"
  using assms(3,4) add_then_getMode [OF assms(1,2), of clk] mode_after_getMode unfolding s'_def
  by (cases "announced clk (n + 1)")
    (auto simp: run_checkSensorLockout no_finger_def adds_def finger_cmd_def Let_def case_prod_beta)

lemma failed_run:
  assumes "counts_failures n (mLockoutTracker (this s))" and "n + length clks < 2 ^ 31"
    and "mIsLockoutTimerStarted (this s)" and "mIsLockoutTimerAborted (this s)"
  shows "counts_failures (n + length clks) (mLockoutTracker (this (session_run fd (fail_ops clks) s)))
    \<and> mIsLockoutTimerStarted (this (session_run fd (fail_ops clks) s))
    \<and> mIsLockoutTimerAborted (this (session_run fd (fail_ops clks) s))
    \<and> lockoutTimers (this (session_run fd (fail_ops clks) s)) = lockoutTimers (this s)
    \<and> (\<exists>es. adds es s (session_run fd (fail_ops clks) s) \<and> OnLockoutCleared \<notin> set es)"
  using assms
proof (induction clks arbitrary: n s)
  case Nil
  then show ?case by (auto simp: fail_ops_def adds_def)
next
  case (Cons clk clks)
  let ?s = "session_apply fd (Notify clk (FINGERPRINT_AUTHENTICATED no_finger no_hat)) s"
  note st = failed_step [OF Cons.prems(1) _ Cons.prems(3,4), of fd clk]
  have run: "session_run fd (fail_ops (clk # clks)) s = session_run fd (fail_ops clks) ?s"
    by (simp add: fail_ops_def)
  show ?case
    unfolding run using Cons.IH [of "n + 1" ?s] st Cons.prems(2)
    by (fastforce dest: adds_trans simp: adds_def)
qed

lemma aborted_timer_fires:
  assumes "length (lockoutTimers (this s)) = 1" and "mIsLockoutTimerAborted (this s)"
  shows "mLockoutTracker (this (session_apply fd (TimerFires 0) s)) = mLockoutTracker (this s)
    \<and> lockoutTimers (this (session_apply fd (TimerFires 0) s)) = []
    \<and> effects (session_apply fd (TimerFires 0) s) = effects s"
  using assms by (auto simp: timer_defs)

text \<open>
  \<open>resetLockout\<close> while a timer thread sleeps loses the next announcement: after any number of
  failures that ends in a new timed lockout the sleeping thread is still the aborted one, no other is
  started, and when it wakes up nothing is cleared. The session is then in a timed lockout without a
  timer, and the framework has not been told, and will not be told by a timer, that it ended.
\<close>

theorem reset_loses_lockout_timer:
  fixes s :: "'d fp" and fd :: "'d fingerprint_device" and clk :: "nat \<Rightarrow> util"
  assumes "session_reachable fd s" and "mIsLockoutTimerStarted (this s)"
    and "announced clk (length clks + 1) = TIMED"
  defines "s' \<equiv> session_run fd (ResetLockout # fail_ops (clks @ [clk]) @ [TimerFires 0]) s"
  shows "mCurrentMode (mLockoutTracker (this s')) = TIMED \<and> lockoutTimers (this s') = []
    \<and> (\<exists>es. effects s' = effects s @ OnLockoutCleared # es \<and> OnLockoutCleared \<notin> set es)"
proof -
  let ?r = "session_apply fd ResetLockout s"
  let ?f = "session_run fd (fail_ops clks) ?r"
  let ?g = "session_apply fd (Notify clk (FINGERPRINT_AUTHENTICATED no_finger no_hat)) ?f"
  have small: "length clks + 1 < 20"
    using assms(3) by (auto simp: announced_def lockout_policy_def split: if_splits)
  have r: "counts_failures 0 (mLockoutTracker (this ?r))" "mIsLockoutTimerStarted (this ?r)"
      "mIsLockoutTimerAborted (this ?r)" "lockoutTimers (this ?r) = lockoutTimers (this s)"
      "effects ?r = effects s @ [OnLockoutCleared]"
    using assms(2) by (simp_all add: session_op_defs lockout_defs counts_failures_def lockout_policy_def)
  obtain es where f: "counts_failures (length clks) (mLockoutTracker (this ?f))"
      "mIsLockoutTimerStarted (this ?f)" "mIsLockoutTimerAborted (this ?f)"
      "lockoutTimers (this ?f) = lockoutTimers (this s)" "adds es ?r ?f" "OnLockoutCleared \<notin> set es"
    using failed_run [OF r(1) _ r(2,3), of clks fd] r(4) small by auto
  obtain es' where g: "mCurrentMode (mLockoutTracker (this ?g)) = TIMED"
      "mIsLockoutTimerStarted (this ?g)" "mIsLockoutTimerAborted (this ?g)"
      "lockoutTimers (this ?g) = lockoutTimers (this s)" "adds es' ?f ?g" "OnLockoutCleared \<notin> set es'"
    using failed_step [OF f(1) _ f(2,3), of fd clk] f(4) small assms(3) by auto
  have one: "length (lockoutTimers (this s)) = 1"
    using reachable_timer_inv [OF assms(1)] assms(2) by (simp add: timer_inv_def)
  have "s' = session_apply fd (TimerFires 0) ?g"
    unfolding s'_def by (simp add: fail_ops_def del: session_apply.simps)
  then have "mCurrentMode (mLockoutTracker (this s')) = TIMED" "lockoutTimers (this s') = []"
      "effects s' = effects ?g"
    using g(1,3,4) one aborted_timer_fires [of ?g fd] by (simp_all del: session_apply.simps)
  moreover have "effects ?g = effects s @ OnLockoutCleared # es @ es'"
    using r(5) f(5) g(5) by (simp add: adds_def)
  ultimately show ?thesis
    using f(6) g(6) by auto
qed

theorem reset_loses_lockout_timer_witness:
  "mCurrentMode (mLockoutTracker (this (session_run accepting_device
     (ResetLockout # fail_ops (replicate 4 (\<lambda>_. sample_clock 2) @ [\<lambda>_. sample_clock 3]) @ [TimerFires 0])
     (session_apply accepting_device
       (Notify (\<lambda>_. sample_clock 1) (FINGERPRINT_AUTHENTICATED no_finger no_hat))
       (snd (run_state (Session_new accepting_device 0
          \<lparr>mFailedCount = 4, mLockoutTimedStart = 0, mCurrentMode = NONE\<rparr>) (sample_fp 0 NONE))))))) = TIMED"
proof -
  let ?o = "snd (run_state (Session_new accepting_device 0
     \<lparr>mFailedCount = 4, mLockoutTimedStart = 0, mCurrentMode = NONE\<rparr>) (sample_fp 0 NONE))"
  let ?s = "session_apply accepting_device
     (Notify (\<lambda>_. sample_clock 1) (FINGERPRINT_AUTHENTICATED no_finger no_hat)) ?o"
  have live: "\<not> hasElapsed (sample_clock n) n LOCKOUT_TIMED_DURATION" for n
    by (simp add: sample_clock_def LOCKOUT_TIMED_DURATION_def)
  have "LockoutTracker_addFailedAttempt (sample_clock 1)
      \<lparr>mFailedCount = 4, mLockoutTimedStart = 0, mCurrentMode = NONE\<rparr>
    = \<lparr>mFailedCount = 5, mLockoutTimedStart = 1, mCurrentMode = TIMED\<rparr>"
    by (simp add: lockout_defs sample_clock_def)
  then have started: "mIsLockoutTimerStarted (this ?s)"
    using live [of 1] by (simp add: Session_new_def Session_members_def no_finger_def run_checkSensorLockout
        LockoutTracker_getMode_def case_prod_beta Let_def)
  have ann: "announced (\<lambda>_. sample_clock 3) (length (replicate 4 (\<lambda>_::nat. sample_clock 2)) + 1) = TIMED"
    using live [of 3] by (simp add: announced_def lockout_policy_def sample_clock_def)
  show ?thesis
    by (rule reset_loses_lockout_timer [OF session_reachable.acts [OF session_reachable.opened] started ann,
          THEN conjunct1])
qed

section \<open>Finger commands and illumination\<close>

definition goodix :: "effect list \<Rightarrow> bool list" where
  "goodix es = concat (map (\<lambda>e. case e of DevGoodixExtCmd c p \<Rightarrow> [c \<noteq> 0] | _ \<Rightarrow> []) es)"

definition hbm :: "effect list \<Rightarrow> bool list" where
  "hbm es = concat (map (\<lambda>e. case e of SetFodHbm b \<Rightarrow> [b] | _ \<Rightarrow> []) es)"

lemma goodix_simps [simp]:
  "goodix [] = []" "goodix (e # es) = (case e of DevGoodixExtCmd c p \<Rightarrow> [c \<noteq> 0] | _ \<Rightarrow> []) @ goodix es"
  "goodix (xs @ ys) = goodix xs @ goodix ys"
  by (simp_all add: goodix_def)

lemma hbm_simps [simp]:
  "hbm [] = []" "hbm (e # es) = (case e of SetFodHbm b \<Rightarrow> [b] | _ \<Rightarrow> []) @ hbm es"
  "hbm (xs @ ys) = hbm xs @ hbm ys"
  by (simp_all add: hbm_def)

lemma finger_cmds [simp]: "goodix (map finger_cmd bs) = bs" "hbm (map finger_cmd bs) = []"
  "goodix (map (DevRemove u) ids) = []" "hbm (map (DevRemove u) ids) = []"
  by (induction bs, simp_all add: finger_cmd_def) (induction ids, simp_all)+

lemma finger_cmd_goodix [simp]: "goodix [finger_cmd b] = [b]" "hbm [finger_cmd b] = []"
  by (simp_all add: finger_cmd_def)

lemmas op_effects = finger_cmd_def session_op_defs run_checkSensorLockout timer_defs adds_def Let_def case_prod_beta

text \<open>An operation makes at most one call of the handler, and every finger command comes from it.\<close>

definition handler_step :: "UdfpsHandler \<Rightarrow> bool list \<Rightarrow> UdfpsHandler \<Rightarrow> bool" where
  "handler_step h out h' \<longleftrightarrow> h' = h \<and> out = [] \<or> (\<exists>ev. udfps_apply ev h = (h', out))"

lemma handler_stepI:
  "handler_step h [] h"
  "handler_step h (snd (UdfpsHandler_onUiReady w h)) (fst (UdfpsHandler_onUiReady w h))"
  "handler_step h [False] (fst (UdfpsHandler_onFingerUp h))"
  "handler_step h (snd (UdfpsHandler_resume e h)) (fst (UdfpsHandler_resume e h))"
proof -
  show "handler_step h [False] (fst (UdfpsHandler_onFingerUp h))"
    unfolding handler_step_def
    by (intro disjI2 exI [of _ FingerUp]) (simp add: UdfpsHandler_onFingerUp_def)
  show "handler_step h (snd (UdfpsHandler_onUiReady w h)) (fst (UdfpsHandler_onUiReady w h))"
    unfolding handler_step_def by (intro disjI2 exI [of _ "UiReady w"]) simp
  show "handler_step h (snd (UdfpsHandler_resume e h)) (fst (UdfpsHandler_resume e h))"
    unfolding handler_step_def by (intro disjI2 exI [of _ "ThreadRuns e"]) simp
qed (simp add: handler_step_def)

lemma session_handler_step:
  "\<exists>es. adds es s (session_apply fd x s)
     \<and> handler_step (mUdfpsHandler (this s)) (goodix es) (mUdfpsHandler (this (session_apply fd x s)))"
proof (cases x)
  case (Notify clk msg)
  show ?thesis
  proof (cases msg)
    case (FINGERPRINT_AUTHENTICATED finger hat)
    show ?thesis
      using Notify FINGERPRINT_AUTHENTICATED
      by (cases "fst (LockoutTracker_getMode (clk 1)
            (LockoutTracker_addFailedAttempt (clk 0) (mLockoutTracker (this s))))")
        (auto simp: op_effects intro: handler_stepI)
  qed (use Notify in \<open>auto simp: op_effects intro: handler_stepI\<close>)
qed (auto simp: op_effects intro: handler_stepI split: option.split)

lemma session_udfps_reachable:
  assumes "udfps_reachable (mUdfpsHandler (this s)) tr"
  shows "\<exists>es. adds es s (session_run fd ops s)
    \<and> udfps_reachable (mUdfpsHandler (this (session_run fd ops s))) (tr @ goodix es)"
  using assms
proof (induction ops arbitrary: s tr)
  case Nil
  then show ?case by (auto simp: adds_def intro!: exI [of _ "[]"])
next
  case (Cons x xs)
  let ?s = "session_apply fd x s"
  obtain es where es: "adds es s ?s"
      "handler_step (mUdfpsHandler (this s)) (goodix es) (mUdfpsHandler (this ?s))"
    using session_handler_step by blast
  then have "udfps_reachable (mUdfpsHandler (this ?s)) (tr @ goodix es)"
    using Cons.prems unfolding handler_step_def by (auto intro: udfps_reachable.happens)
  from Cons.IH [OF this] obtain es' where "adds es' ?s (session_run fd xs ?s)"
      "udfps_reachable (mUdfpsHandler (this (session_run fd xs ?s))) ((tr @ goodix es) @ goodix es')"
    by blast
  then show ?case
    using es(1) by (intro exI [of _ "es @ es'"]) (auto intro: adds_trans)
qed

text \<open>
  C6: The handler's guarantee reaches the vendor device: whatever the session is asked to do from its
  opening on, in whatever order with its threads, the finger commands it sends contain no two
  finger-downs in a row; and when the last one is a finger-down, the handler holds the finger as
  down with no request pending.
\<close>

theorem session_no_double_press:
  "\<exists>es. effects (session_run fd ops (snd (run_state (Session_new fd user tracker) s)))
       = effects s @ DevSetActiveGroup user (group_path user) # es
     \<and> no_double_press (goodix es)
     \<and> (pressed (goodix es) \<longrightarrow>
          (let h = mUdfpsHandler (this (session_run fd ops (snd (run_state (Session_new fd user tracker) s))))
           in mFingerDown h \<and> \<not> mPending h))"
proof -
  let ?o = "snd (run_state (Session_new fd user tracker) s)"
  have o: "mUdfpsHandler (this ?o) = UdfpsHandler_new"
      "effects ?o = effects s @ [DevSetActiveGroup user (group_path user)]"
    by (simp_all add: Session_new_def Session_members_def case_prod_beta)
  then obtain es where "adds es ?o (session_run fd ops ?o)"
      "udfps_reachable (mUdfpsHandler (this (session_run fd ops ?o))) (goodix es)"
    using session_udfps_reachable [of ?o "[]" fd ops] udfps_reachable.constructed by auto
  then show ?thesis
    using o(2) reachable_no_double_press by (fastforce simp: adds_def Let_def)
qed

theorem session_no_double_press_witness:
  "\<exists>es. effects (session_run accepting_device [OnPointerDown, OnUiReady, UdfpsThread lit_env, OnPointerUp]
         (snd (run_state (Session_new accepting_device 0 (LockoutTracker_new 0 NONE)) (sample_fp 0 NONE))))
       = effects (sample_fp 0 NONE) @ DevSetActiveGroup 0 (group_path 0) # es
     \<and> no_double_press (goodix es)"
  using session_no_double_press [of accepting_device
      "[OnPointerDown, OnUiReady, UdfpsThread lit_env, OnPointerUp]" 0 "LockoutTracker_new 0 NONE"
      "sample_fp 0 NONE"]
  by blast

text \<open>Operations that begin or end an illuminated operation.\<close>

fun starts_scan :: "'d fingerprint_device \<Rightarrow> session_op \<Rightarrow> 'd fp \<Rightarrow> bool" where
  "starts_scan fd (Enroll stack hat) s = (case translate_to_hal hat stack of None \<Rightarrow> False
     | Some t \<Rightarrow> fst (dev_enroll fd t (mUserId (this s)) 60 (dev s)) = 0)"
| "starts_scan fd (Authenticate i) s = (fst (dev_authenticate fd i (mUserId (this s)) (dev s)) = 0)"
| "starts_scan fd (EnrollWithContext stack hat) s = (case translate_to_hal hat stack of None \<Rightarrow> False
     | Some t \<Rightarrow> fst (dev_enroll fd t (mUserId (this s)) 60 (dev s)) = 0)"
| "starts_scan fd (AuthenticateWithContext i) s = (fst (dev_authenticate fd i (mUserId (this s)) (dev s)) = 0)"
| "starts_scan fd _ s = False"

fun ends_scan :: "session_op \<Rightarrow> 'd fp \<Rightarrow> bool" where
  "ends_scan (RevokeChallenge c) s = True"
| "ends_scan Cancel s = True"
| "ends_scan Close s = True"
| "ends_scan ClientDeath s = (\<not> mClosed (this s))"
| "ends_scan (Notify clk (FINGERPRINT_TEMPLATE_ENROLLING finger remaining msg)) s = (remaining = 0)"
| "ends_scan (Notify clk (FINGERPRINT_AUTHENTICATED finger hat)) s =
     (fid finger \<noteq> 0 \<or> fst (LockoutTracker_getMode (clk 1)
        (LockoutTracker_addFailedAttempt (clk 0) (mLockoutTracker (this s)))) \<noteq> NONE)"
| "ends_scan _ s = False"

text \<open>
  C28: The illumination node is written by exactly the operations that begin or end a scan: it is
  switched on precisely when the device accepted an enrollment or authentication, and switched off
  precisely when a scan ends (cancel, close, death of an open session's client, revoked challenge,
  last enrollment sample, match, or a failure that leads to a lockout), and there the finger is
  lifted first.
\<close>

theorem illumination_control:
  "\<exists>es. effects (session_apply fd x s) = effects s @ es
     \<and> hbm es = (if starts_scan fd x s then [True] else if ends_scan x s then [False] else [])
     \<and> (ends_scan x s \<longrightarrow> goodix es = [False]
          \<and> \<not> mFingerDown (mUdfpsHandler (this (session_apply fd x s))))"
proof (cases x)
  case (Notify clk msg)
  show ?thesis
  proof (cases msg)
    case (FINGERPRINT_AUTHENTICATED finger hat)
    show ?thesis
      using Notify FINGERPRINT_AUTHENTICATED uh.up_lifts
      by (cases "fst (LockoutTracker_getMode (clk 1)
            (LockoutTracker_addFailedAttempt (clk 0) (mLockoutTracker (this s))))")
        (auto simp: op_effects)
  qed (use Notify uh.up_lifts in \<open>auto simp: op_effects\<close>)
qed (use uh.up_lifts in \<open>auto simp: op_effects split: option.split\<close>)

theorem illumination_control_witness:
  "\<exists>es. effects (session_apply accepting_device Cancel (sample_fp 0 NONE)) = effects (sample_fp 0 NONE) @ es
     \<and> hbm es = [False] \<and> goodix es = [False]"
  using illumination_control [of accepting_device Cancel "sample_fp 0 NONE"] by force

section \<open>Enumerating and removing templates\<close>

text \<open>The messages the HAL sends for the templates \<open>fs\<close>: the remaining count goes down to 0.\<close>

fun enumeration :: "(nat \<Rightarrow> util) \<Rightarrow> u32 \<Rightarrow> u32 list \<Rightarrow> session_op list" where
  "enumeration clk g [] = []"
| "enumeration clk g (f # fs) =
     Notify clk (FINGERPRINT_TEMPLATE_ENUMERATING \<lparr>gid = g, fid = f\<rparr> (word_of_nat (length fs)))
     # enumeration clk g fs"

lemma enumeration_run:
  assumes "length fs < 2 ^ 32"
  shows "session_run fd (enumeration clk g fs) s =
    (if fs = [] then s
     else s\<lparr>enrollments := [], effects := effects s @ [OnEnrollmentsEnumerated (enrollments s @ fs)]\<rparr>)"
  using assms
proof (induction fs arbitrary: s)
  case Nil
  then show ?case by simp
next
  case (Cons f fs)
  have "unat (word_of_nat (length fs) :: u32) = length fs"
    using Cons.prems by (simp add: unsigned_of_nat take_bit_nat_eq_self)
  then have "(word_of_nat (length fs) :: u32) = 0 \<longleftrightarrow> fs = []"
    by (metis length_0_conv unat_eq_zero unsigned_0)
  then show ?case
    using Cons by (auto simp: case_prod_beta)
qed

text \<open>
  C31: A complete enumeration is reported once and in full: the messages for any non-empty list of
  templates add exactly one callback with all of them in order, after whatever an interrupted
  earlier enumeration had left in the static list, and leave that list empty. The answer the header
  prescribes for an empty store, one message with id 0, is reported as a template with id 0.
\<close>

theorem enumeration_reported:
  assumes "length fs < 2 ^ 32" and "fs \<noteq> []"
  shows "effects (session_run fd (enumeration clk g fs) s)
      = effects s @ [OnEnrollmentsEnumerated (enrollments s @ fs)]
    \<and> enrollments (session_run fd (enumeration clk g fs) s) = []
    \<and> (enrollments s = [] \<longrightarrow> effects (session_run fd (enumeration clk g [0]) s)
         = effects s @ [OnEnrollmentsEnumerated [0]])"
  using enumeration_run [OF assms(1), of fd clk g s] enumeration_run [of "[0]" fd clk g s] assms(2)
  by (simp del: enumeration.simps)

theorem enumeration_reported_witness:
  "effects (session_run accepting_device (enumeration (\<lambda>_. sample_clock 0) 0 [11, 12]) (sample_fp 0 NONE))
   = [OnEnrollmentsEnumerated [11, 12]]"
  using enumeration_reported [of "[11, 12]" accepting_device "\<lambda>_. sample_clock 0" 0 "sample_fp 0 NONE"]
  by (simp add: sample_fp_def del: enumeration.simps)

text \<open>
  \<open>removeEnrollments\<close> asks the device to remove every template of the list, once, in the order
  of the list and for the session's user, whatever the device answers for each; it changes no member
  and always succeeds.
\<close>

theorem remove_enrollments_complete:
  "fst (run_state (Session_removeEnrollments fd ids) s) = Ok
   \<and> effects (session_apply fd (RemoveEnrollments ids) s)
       = effects s @ map (DevRemove (mUserId (this s))) ids
   \<and> this (session_apply fd (RemoveEnrollments ids) s) = this s"
  by (simp add: Session_removeEnrollments_def case_prod_beta)

section \<open>Closing\<close>

text \<open>Closing by the client once and otherwise only by its death deletes the death recipient once.\<close>

definition close_inv :: "Session \<Rightarrow> bool" where
  "close_inv t \<longleftrightarrow> mClosed t = (\<not> mDeathRecipient t)"

lemma close_frame:
  assumes "x \<noteq> Close" and "x \<noteq> ClientDeath"
  shows "mClosed (this (session_apply fd x s)) = mClosed (this s)
    \<and> mDeathRecipient (this (session_apply fd x s)) = mDeathRecipient (this s)"
proof (cases x)
  case (Notify clk msg)
  show ?thesis
  proof (cases msg)
    case (FINGERPRINT_AUTHENTICATED finger hat)
    show ?thesis
      using Notify FINGERPRINT_AUTHENTICATED
      by (cases "fst (LockoutTracker_getMode (clk 1)
            (LockoutTracker_addFailedAttempt (clk 0) (mLockoutTracker (this s))))")
        (auto simp: op_effects)
  qed (use Notify in \<open>auto simp: op_effects\<close>)
qed (use assms in \<open>auto simp: op_effects split: option.split\<close>)

lemma close_inv_apply: "close_inv (this s) \<Longrightarrow> close_inv (this (session_apply fd x s))"
  by (cases "x = Close \<or> x = ClientDeath") (auto simp: close_inv_def op_effects dest: close_frame [of x fd s])

lemma reachable_close_inv: "session_reachable fd s \<Longrightarrow> close_inv (this s)"
proof (induction rule: session_reachable.induct)
  case opened
  then show ?case by (simp add: Session_new_def Session_members_def close_inv_def case_prod_beta)
qed (rule close_inv_apply)

text \<open>
  In every reachable state the recipient for the client's death exists exactly while the session
  is open. So the first \<open>close\<close> succeeds, the death of the client never deletes it twice, and a
  second \<open>close\<close> by the client does: its behaviour is undefined.
\<close>

theorem close_once:
  assumes "session_reachable fd s"
  shows "fst (run_state (Session_close fd) s) = (if mClosed (this s) then Undefined else Ok)
    \<and> mClosed (this (session_apply fd Close s))
    \<and> (mClosed (this s) \<longrightarrow> session_apply fd ClientDeath s = s)
    \<and> fst (run_state (Session_close fd) (session_apply fd Close s)) = Undefined"
  using reachable_close_inv [OF assms] by (auto simp: close_inv_def op_effects)

theorem close_once_witness:
  "fst (run_state (Session_close accepting_device)
     (session_apply accepting_device Close opened_session)) = Undefined"
  using close_once [OF session_reachable.opened] unfolding opened_session_def by blast

end
