(* ===== verification/Fp_Service.thy ===== *)
theory Fp_Service
  imports Fp_Session_Props
begin

text \<open>
  The fingerprint service object: \<open>fingerprint/Fingerprint.cpp\<close>,
  \<open>fingerprint/include/Fingerprint.h\<close>, and the z-order hooks of \<open>fingerprint/UdfpsExtension.cpp\<close>. It
  opens the vendor HAL, creates sessions, forwards the HAL's messages to the current one and
  describes the sensor. System properties and the string helpers of libbase are arguments.
\<close>

section \<open>Opening the HAL\<close>

text \<open>What the hardware library and the module answer, in the order \<open>openHal\<close> asks.\<close>

record 'd hal_env =
  hw_get_module_by_class :: "s32 \<times> bool"
  has_open_method :: bool
  open_device :: "s32 \<times> 'd fingerprint_device option"
  set_notify_result :: s32

definition openHal :: "'d hal_env \<Rightarrow> 'd fingerprint_device option outcome" where
  "openHal e =
     (if fst (hw_get_module_by_class e) \<noteq> 0 then Returns None
      else if \<not> snd (hw_get_module_by_class e) then Returns None
      else if \<not> has_open_method e then Returns None
      else if fst (open_device e) \<noteq> 0 then Returns None
      else (case snd (open_device e) of
              None \<Rightarrow> Undefined_behaviour
            | Some fp_device \<Rightarrow>
                if set_notify_result e \<noteq> 0 then Returns None else Returns (Some fp_device)))"

section \<open>State\<close>

datatype FingerprintSensorType = UNKNOWN | REAR | UNDER_DISPLAY_ULTRASONIC | UNDER_DISPLAY_OPTICAL
  | POWER_BUTTON | HOME_BUTTON

record 'd Fingerprint =
  mDevice :: "'d fingerprint_device option"
  mSession :: "Session option"
  fpLockoutTracker :: LockoutTracker
  mSensorType :: FingerprintSensorType
  mMaxEnrollmentsPerUser :: s32
  fpDev :: 'd
  fpEnrollments :: "s32 list"
  fpEffects :: "effect list"

definition MAX_ENROLLMENTS_PER_USER :: s32 where
  "MAX_ENROLLMENTS_PER_USER = 5"

definition sensorType :: "string option \<Rightarrow> FingerprintSensorType" where
  "sensorType typeProp =
     (let sensorTypeProp = (case typeProp of None \<Rightarrow> '''' | Some p \<Rightarrow> p)
      in if sensorTypeProp = '''' \<or> sensorTypeProp = ''default'' \<or> sensorTypeProp = ''rear'' then REAR
         else if sensorTypeProp = ''udfps'' then UNDER_DISPLAY_ULTRASONIC
         else if sensorTypeProp = ''udfps_optical'' then UNDER_DISPLAY_OPTICAL
         else if sensorTypeProp = ''side'' then POWER_BUTTON
         else if sensorTypeProp = ''home'' then HOME_BUTTON
         else UNKNOWN)"

text \<open>\<open>tracker\<close> is the tracker member as its own constructor leaves it.\<close>

definition Fingerprint_new ::
  "'d hal_env \<Rightarrow> 'd \<Rightarrow> LockoutTracker \<Rightarrow> string option \<Rightarrow> s32 option \<Rightarrow> 'd Fingerprint outcome" where
  "Fingerprint_new e d tracker typeProp maxProp =
     and_then (openHal e) (\<lambda>device. Returns
       \<lparr>mDevice = device, mSession = None, fpLockoutTracker = tracker,
        mSensorType = sensorType typeProp,
        mMaxEnrollmentsPerUser = (case maxProp of None \<Rightarrow> MAX_ENROLLMENTS_PER_USER | Some m \<Rightarrow> m),
        fpDev = d, fpEnrollments = [], fpEffects = []\<rparr>)"

section \<open>Sessions and messages\<close>

definition on_session :: "('d fp \<Rightarrow> 'd fp) \<Rightarrow> Session \<Rightarrow> 'd Fingerprint \<Rightarrow> 'd Fingerprint" where
  "on_session f t s =
     (let r = f \<lparr>this = t, dev = fpDev s, enrollments = fpEnrollments s, effects = fpEffects s\<rparr>
      in s\<lparr>mSession := Some (this r), fpDev := dev r, fpEnrollments := enrollments r, fpEffects := effects r\<rparr>)"

text \<open>The constructor of \<open>Session\<close> follows the device pointer without a check.\<close>

definition Fingerprint_createSession :: "s32 \<Rightarrow> 'd Fingerprint \<Rightarrow> 'd Fingerprint outcome" where
  "Fingerprint_createSession userId s =
     (if (case mSession s of Some t \<Rightarrow> \<not> mClosed t | None \<Rightarrow> False) then Aborts
      else (case mDevice s of
              None \<Rightarrow> Undefined_behaviour
            | Some fd \<Rightarrow> Returns (on_session
                (\<lambda>r. snd (run_state (do { Session_new fd userId (fpLockoutTracker s); Session_linkToDeath }) r))
                (Session_members userId (fpLockoutTracker s)) s)))"

definition Fingerprint_notify :: "(nat \<Rightarrow> util) \<Rightarrow> fingerprint_msg \<Rightarrow> 'd Fingerprint \<Rightarrow> 'd Fingerprint" where
  "Fingerprint_notify clk msg s =
     (case (mSession s, mDevice s) of
        (Some t, Some fd) \<Rightarrow>
          if mClosed t then s else on_session (\<lambda>r. snd (run_state (Session_notify fd clk msg) r)) t s
      | _ \<Rightarrow> s)"

text \<open>The destructor: the session goes, then the device is closed; \<open>err\<close> is what its \<open>close\<close> returns.\<close>

definition Fingerprint_destroy :: "s32 \<Rightarrow> 'd Fingerprint \<Rightarrow> 'd Fingerprint" where
  "Fingerprint_destroy err s =
     (let s = s\<lparr>mSession := None\<rparr>
      in case mDevice s of
           None \<Rightarrow> s
         | Some fd \<Rightarrow> if err \<noteq> 0 then s else s\<lparr>mDevice := None\<rparr>)"

section \<open>Sensor properties\<close>

record SensorLocation =
  sensorLocationX :: s32
  sensorLocationY :: s32
  sensorRadius :: s32
  display :: string

text \<open>\<open>ParseInt\<close> writes its target only when it succeeds.\<close>

definition parse_into :: "(string \<Rightarrow> s32 option) \<Rightarrow> string \<Rightarrow> s32 \<Rightarrow> s32" where
  "parse_into ParseInt str old = (case ParseInt str of None \<Rightarrow> old | Some i \<Rightarrow> i)"

definition sensor_location ::
  "(string \<Rightarrow> string \<Rightarrow> string list) \<Rightarrow> (string \<Rightarrow> s32 option) \<Rightarrow> string option \<Rightarrow> SensorLocation" where
  "sensor_location Split ParseInt locProp =
     (let loc = (case locProp of None \<Rightarrow> '''' | Some l \<Rightarrow> l);
          dim = Split loc ''|'';
          l = \<lparr>sensorLocationX = 0, sensorLocationY = 0, sensorRadius = 0, display = ''''\<rparr>
      in if 3 \<le> length dim \<and> length dim \<le> 4
         then let l = l\<lparr>sensorLocationX := parse_into ParseInt (dim ! 0) (sensorLocationX l),
                        sensorLocationY := parse_into ParseInt (dim ! 1) (sensorLocationY l),
                        sensorRadius := parse_into ParseInt (dim ! 2) (sensorRadius l)\<rparr>
              in if 4 \<le> length dim then l\<lparr>display := dim ! 3\<rparr> else l
         else l)"

record ComponentInfo =
  componentId :: string
  hardwareVersion :: string
  firmwareVersion :: string
  serialNumber :: string
  softwareVersion :: string

definition componentInfo :: "ComponentInfo list" where
  "componentInfo =
     [\<lparr>componentId = ''fingerprintSensor'', hardwareVersion = ''vendor/model/revision'',
       firmwareVersion = ''1.01'', serialNumber = ''00000001'', softwareVersion = ''''\<rparr>,
      \<lparr>componentId = ''matchingAlgorithm'', hardwareVersion = '''', firmwareVersion = '''',
       serialNumber = '''', softwareVersion = ''vendor/version/revision''\<rparr>]"

text \<open>The sensor strength is the constant \<open>STRONG\<close>; the four flags are constant too.\<close>

record SensorProps =
  sensorId :: s32
  maxEnrollmentsPerUser :: s32
  props_componentInfo :: "ComponentInfo list"
  props_sensorType :: FingerprintSensorType
  sensorLocations :: "SensorLocation list"
  supportsNavigationGestures :: bool
  supportsDetectInteraction :: bool
  halHandlesDisplayTouches :: bool
  halControlsIllumination :: bool

definition Fingerprint_getSensorProps ::
  "(string \<Rightarrow> string \<Rightarrow> string list) \<Rightarrow> (string \<Rightarrow> s32 option) \<Rightarrow> string option
   \<Rightarrow> 'd Fingerprint \<Rightarrow> SensorProps list" where
  "Fingerprint_getSensorProps Split ParseInt locProp s =
     [\<lparr>sensorId = 0, maxEnrollmentsPerUser = mMaxEnrollmentsPerUser s,
       props_componentInfo = componentInfo, props_sensorType = mSensorType s,
       sensorLocations = [sensor_location Split ParseInt locProp],
       supportsNavigationGestures = False, supportsDetectInteraction = False,
       halHandlesDisplayTouches = False, halControlsIllumination = False\<rparr>]"

section \<open>Z-order hooks of the compositor\<close>

text \<open>\<open>FOD_PRESSED_LAYER_ZORDER\<close> comes from a kernel header and is an argument.\<close>

definition getUdfpsDimZOrder :: "u32 \<Rightarrow> u32" where
  "getUdfpsDimZOrder z = z"

definition getUdfpsZOrder :: "u32 \<Rightarrow> u32 \<Rightarrow> bool \<Rightarrow> u32" where
  "getUdfpsZOrder fodPressedLayerZOrder z touched = (if touched then or z fodPressedLayerZOrder else z)"

definition getUdfpsUsageBits :: "u64 \<Rightarrow> bool \<Rightarrow> u64" where
  "getUdfpsUsageBits usageBits touched = usageBits"

section \<open>The service over time\<close>

text \<open>
  Requests to the service: a new session, an operation of the current session or of one of its
  threads, a message of the HAL. Messages reach a session only through \<open>Fingerprint::notify\<close>.
\<close>

datatype service_op = CreateSession s32 | SessionOp session_op | HalMessage "nat \<Rightarrow> util" fingerprint_msg

fun is_notify :: "session_op \<Rightarrow> bool" where
  "is_notify (Notify clk msg) = True"
| "is_notify _ = False"

fun service_apply :: "service_op \<Rightarrow> 'd Fingerprint \<Rightarrow> 'd Fingerprint outcome" where
  "service_apply (CreateSession user) s = Fingerprint_createSession user s"
| "service_apply (SessionOp x) s =
     (case (mSession s, mDevice s) of
        (Some t, Some fd) \<Rightarrow> if is_notify x then Returns s else Returns (on_session (session_apply fd x) t s)
      | _ \<Rightarrow> Returns s)"
| "service_apply (HalMessage clk msg) s = Returns (Fingerprint_notify clk msg s)"

fun service_run :: "service_op list \<Rightarrow> 'd Fingerprint \<Rightarrow> 'd Fingerprint outcome" where
  "service_run [] s = Returns s"
| "service_run (x # xs) s = and_then (service_apply x s) (service_run xs)"

lemma on_session_frame [simp]:
  "fpLockoutTracker (on_session f t s) = fpLockoutTracker s"
  "mDevice (on_session f t s) = mDevice s"
  "mSensorType (on_session f t s) = mSensorType s"
  "mMaxEnrollmentsPerUser (on_session f t s) = mMaxEnrollmentsPerUser s"
  by (simp_all add: on_session_def Let_def)

lemma service_apply_frame:
  assumes "service_apply x s = Returns s'"
  shows "fpLockoutTracker s' = fpLockoutTracker s \<and> mDevice s' = mDevice s"
  using assms
  by (cases x) (auto simp: Fingerprint_createSession_def Fingerprint_notify_def split: option.splits if_splits)

lemma service_run_frame:
  "service_run xs s = Returns s' \<Longrightarrow> fpLockoutTracker s' = fpLockoutTracker s \<and> mDevice s' = mDevice s"
proof (induction xs arbitrary: s)
  case (Cons x xs)
  then show ?case using service_apply_frame by fastforce
qed simp

text \<open>
  Creating a session aborts the process exactly when the previous one is still open, follows a
  null pointer exactly when the HAL could not be opened, and otherwise opens a session for the user
  whose group it selects and whose death it is told of, with no lockout timer, the finger up and nothing pending.
\<close>

theorem create_session_outcome:
  "Fingerprint_createSession user s =
     (case mSession s of
        Some t \<Rightarrow> if mClosed t then Fingerprint_createSession user (s\<lparr>mSession := None\<rparr>) else Aborts
      | None \<Rightarrow> (case mDevice s of None \<Rightarrow> Undefined_behaviour | Some fd \<Rightarrow>
          Returns (s\<lparr>mSession := Some (Session_members user (fpLockoutTracker s)),
            fpDev := snd (dev_set_active_group fd user (group_path user) (fpDev s)),
            fpEffects := fpEffects s @ [DevSetActiveGroup user (group_path user), LinkToDeath]\<rparr>)))"
  by (auto simp: Fingerprint_createSession_def on_session_def Session_new_def Session_linkToDeath_def Let_def
      case_prod_beta split: option.split)

text \<open>
  C39: Failed attempts do not survive a session: the service hands every session a copy of its own
  tracker, which nothing ever updates. After any run of requests, closing the session, even in a
  permanent lockout, and creating the next one gives a session whose tracker is the one the service
  was constructed with.
\<close>

theorem reopening_forgets_lockout:
  assumes "service_run xs s = Returns s'" and "service_run [SessionOp Close, CreateSession user] s' = Returns s''"
  shows "\<exists>t. mSession s'' = Some t \<and> mLockoutTracker t = fpLockoutTracker s \<and> \<not> mClosed t"
proof -
  obtain s1 where s1: "service_apply (SessionOp Close) s' = Returns s1"
      and s'': "Fingerprint_createSession user s1 = Returns s''"
    using assms(2) by auto
  have "fpLockoutTracker s1 = fpLockoutTracker s"
    using service_run_frame [OF assms(1)] service_apply_frame [OF s1] by simp
  then show ?thesis
    using s'' by (auto simp: Fingerprint_createSession_def on_session_def Session_new_def Session_linkToDeath_def
        Session_members_def Let_def case_prod_beta split: option.splits if_splits)
qed

definition sample_service :: "Session option \<Rightarrow> unit Fingerprint" where
  "sample_service t = \<lparr>mDevice = Some accepting_device, mSession = t,
     fpLockoutTracker = LockoutTracker_new 0 NONE, mSensorType = UNDER_DISPLAY_OPTICAL,
     mMaxEnrollmentsPerUser = 5, fpDev = (), fpEnrollments = [], fpEffects = []\<rparr>"

theorem reopening_forgets_lockout_witness:
  "\<exists>s''. service_run [SessionOp Close, CreateSession 0] (sample_service (Some (sample_session 20 PERMANENT)))
       = Returns s''
     \<and> (\<exists>t. mSession s'' = Some t \<and> mCurrentMode (mLockoutTracker t) = NONE)"
proof -
  let ?s = "sample_service (Some (sample_session 20 PERMANENT))"
  obtain s'' where r: "service_run [SessionOp Close, CreateSession 0] ?s = Returns s''"
    by (auto simp: sample_service_def sample_session_def Fingerprint_createSession_def on_session_def
        Session_close_def Let_def)
  have "fpLockoutTracker ?s = LockoutTracker_new 0 NONE"
    by (simp add: sample_service_def)
  then show ?thesis
    using r reopening_forgets_lockout [of "[]" ?s ?s 0 s''] by (auto simp: LockoutTracker_new_def)
qed

text \<open>
  A closed session is silent towards the HAL: after \<open>close\<close>, whatever messages the vendor library
  sends, no callback is made, no device call follows and nothing of the service changes until a new
  session is created.
\<close>

theorem closed_session_silent:
  assumes "service_apply (SessionOp Close) s = Returns s1"
  shows "service_run (map (\<lambda>(clk, msg). HalMessage clk msg) msgs) s1 = Returns s1"
proof -
  have "Fingerprint_notify clk msg s1 = s1" for clk msg
    using assms by (auto simp: Fingerprint_notify_def on_session_def Session_close_def Let_def
        split: option.splits if_splits)
  then show ?thesis by (induction msgs) auto
qed

theorem closed_session_silent_witness:
  "\<exists>s1 :: unit Fingerprint. service_run [HalMessage (\<lambda>_. sample_clock 0) (FINGERPRINT_ERROR 5),
       HalMessage (\<lambda>_. sample_clock 0) (FINGERPRINT_AUTHENTICATED no_finger no_hat)] s1 = Returns s1
     \<and> (\<exists>t. mSession s1 = Some t \<and> mClosed t)"
proof -
  let ?s = "sample_service (Some (sample_session 0 NONE))"
  obtain s1 where r: "service_apply (SessionOp Close) ?s = Returns s1"
    by (auto simp: sample_service_def)
  then have "\<exists>t. mSession s1 = Some t \<and> mClosed t"
    by (auto simp: sample_service_def on_session_def Session_close_def Let_def)
  moreover have "service_run [HalMessage (\<lambda>_. sample_clock 0) (FINGERPRINT_ERROR 5),
       HalMessage (\<lambda>_. sample_clock 0) (FINGERPRINT_AUTHENTICATED no_finger no_hat)] s1 = Returns s1"
    using closed_session_silent [OF r, of "[(\<lambda>_. sample_clock 0, FINGERPRINT_ERROR 5),
        (\<lambda>_. sample_clock 0, FINGERPRINT_AUTHENTICATED no_finger no_hat)]"]
    by simp
  ultimately show ?thesis by blast
qed

end
