(* ===== verification/Text_Parsing.thy ===== *)
theory Text_Parsing
  imports Prelude
begin

text \<open>
  What the C++ library does with text on the paths the services use it: \<open>stoi\<close>, \<open>stoul\<close> in base
  16, \<open>sscanf\<close> of integers separated by commas, \<open>getline\<close> and extraction of words. A conversion
  that throws is an \<^const>\<open>Aborts\<close>, since no caller catches it.
\<close>

section \<open>Digits\<close>

definition c_space :: "char \<Rightarrow> bool" where
  "c_space c = (let n = of_char c :: nat in n = 32 \<or> 9 \<le> n \<and> n \<le> 13)"

definition digit_val :: "char \<Rightarrow> nat option" where
  "digit_val c =
     (let n = of_char c :: nat
      in if 48 \<le> n \<and> n \<le> 57 then Some (n - 48)
         else if 97 \<le> n \<and> n \<le> 122 then Some (n - 87)
         else if 65 \<le> n \<and> n \<le> 90 then Some (n - 55)
         else None)"

definition is_digit :: "nat \<Rightarrow> char \<Rightarrow> bool" where
  "is_digit b c = (case digit_val c of None \<Rightarrow> False | Some d \<Rightarrow> d < b)"

definition number :: "nat \<Rightarrow> string \<Rightarrow> nat" where
  "number b cs = foldl (\<lambda>a c. a * b + the (digit_val c)) 0 cs"

text \<open>The subject of \<open>strtol\<close> and \<open>strtoul\<close>: its sign, its magnitude and what follows it.\<close>

definition sign_split :: "string \<Rightarrow> bool \<times> string" where
  "sign_split s =
     (case s of [] \<Rightarrow> (False, [])
      | c # cs \<Rightarrow> if c = CHR ''-'' then (True, cs) else if c = CHR ''+'' then (False, cs) else (False, s))"

definition skip_0x :: "nat \<Rightarrow> string \<Rightarrow> string" where
  "skip_0x b s =
     (case s of z # x # d # cs \<Rightarrow>
        if b = 16 \<and> z = CHR ''0'' \<and> (x = CHR ''x'' \<or> x = CHR ''X'') \<and> is_digit 16 d then d # cs else s
      | _ \<Rightarrow> s)"

definition strto :: "nat \<Rightarrow> string \<Rightarrow> (bool \<times> nat \<times> string) option" where
  "strto b s =
     (let p = sign_split (dropWhile c_space s);
          body = skip_0x b (snd p);
          ds = takeWhile (is_digit b) body
      in if ds = [] then None else Some (fst p, number b ds, dropWhile (is_digit b) body))"

definition signed_value :: "bool \<Rightarrow> nat \<Rightarrow> int" where
  "signed_value neg n = (if neg then - int n else int n)"

section \<open>Conversions\<close>

definition stoi :: "string \<Rightarrow> s32 outcome" where
  "stoi s =
     (case strto 10 s of
        None \<Rightarrow> Aborts
      | Some (neg, n, rest) \<Rightarrow>
          if - (2 ^ 31) \<le> signed_value neg n \<and> signed_value neg n < 2 ^ 31
          then Returns (word_of_int (signed_value neg n)) else Aborts)"

definition stoul16 :: "string \<Rightarrow> u64 outcome" where
  "stoul16 s =
     (case strto 16 s of
        None \<Rightarrow> Aborts
      | Some (neg, n, rest) \<Rightarrow> if n < 2 ^ 64 then Returns (word_of_int (signed_value neg n)) else Aborts)"

text \<open>\<open>sscanf\<close> with \<open>n\<close> fields \<open>%d\<close> and commas between them; \<open>None\<close> is its \<open>EOF\<close>.\<close>

fun scan_ints :: "nat \<Rightarrow> string \<Rightarrow> int list" where
  "scan_ints 0 s = []"
| "scan_ints (Suc n) s =
     (case strto 10 s of
        None \<Rightarrow> []
      | Some (neg, v, rest) \<Rightarrow> signed_value neg v #
          (case rest of [] \<Rightarrow> [] | c # cs \<Rightarrow> if c = CHR '','' then scan_ints n cs else []))"

definition sscanf_ints :: "nat \<Rightarrow> string \<Rightarrow> int list option" where
  "sscanf_ints n s = (if dropWhile c_space s = [] then None else Some (scan_ints n s))"

section \<open>Lines and words\<close>

abbreviation newline :: char where
  "newline \<equiv> CHR 0x0A"

abbreviation nul :: char where
  "nul \<equiv> CHR 0x00"

definition first_line :: "string \<Rightarrow> string" where
  "first_line s = takeWhile (\<lambda>c. c \<noteq> newline) s"

fun lines_from :: "string \<Rightarrow> string \<Rightarrow> string list" where
  "lines_from l [] = (if l = [] then [] else [l])"
| "lines_from l (c # cs) = (if c = newline then l # lines_from [] cs else lines_from (l @ [c]) cs)"

definition file_lines :: "string \<Rightarrow> string list" where
  "file_lines s = lines_from [] s"

fun words_from :: "string \<Rightarrow> string \<Rightarrow> string list" where
  "words_from w [] = (if w = [] then [] else [w])"
| "words_from w (c # cs) =
     (if c_space c then (if w = [] then words_from [] cs else w # words_from [] cs)
      else words_from (w @ [c]) cs)"

definition file_words :: "string \<Rightarrow> string list" where
  "file_words s = words_from [] s"

definition starts_with :: "string \<Rightarrow> string \<Rightarrow> bool" where
  "starts_with p s = (take (length p) s = p)"

section \<open>Printed numbers parse back\<close>

definition stops :: "nat \<Rightarrow> string \<Rightarrow> bool" where
  "stops b rest = (case rest of [] \<Rightarrow> True | c # cs \<Rightarrow> \<not> is_digit b c)"

lemma digit_char_props:
  assumes "d < 10"
  shows "digit_val (digit_char d) = Some d" and "\<not> c_space (digit_char d)"
    and "digit_char d \<noteq> CHR ''-''" and "digit_char d \<noteq> CHR ''+''"
proof -
  have d: "of_char (digit_char d) = 48 + d"
    using assms by (simp add: digit_char_def)
  then show "digit_val (digit_char d) = Some d" "\<not> c_space (digit_char d)"
    using assms by (simp_all add: digit_val_def c_space_def Let_def)
  have "of_char (digit_char d) \<noteq> (of_char (CHR ''-'') :: nat)"
      "of_char (digit_char d) \<noteq> (of_char (CHR ''+'') :: nat)"
    using d by simp_all
  then show "digit_char d \<noteq> CHR ''-''" "digit_char d \<noteq> CHR ''+''"
    by metis+
qed

lemma decimal_nat_digits: "c \<in> set (decimal_nat n) \<Longrightarrow> \<exists>d<10. c = digit_char d"
proof (induction n rule: decimal_nat.induct)
  case (1 n)
  show ?case
  proof (cases "n < 10")
    case True
    with 1(2) show ?thesis by (auto simp: decimal_nat.simps)
  next
    case False
    with 1 show ?thesis by (auto simp: decimal_nat.simps [of n] intro: exI [of _ "n mod 10"])
  qed
qed

lemma decimal_nat_is_digit: "c \<in> set (decimal_nat n) \<Longrightarrow> is_digit 10 c"
  using decimal_nat_digits digit_char_props(1) by (fastforce simp: is_digit_def)

lemma number_decimal_nat [simp]: "number 10 (decimal_nat n) = n"
proof (induction n rule: decimal_nat.induct)
  case (1 n)
  then show ?case
    by (cases "n < 10") (simp_all add: decimal_nat.simps [of n] number_def digit_char_props)
qed

lemma decimal_nat_nonempty [simp]: "decimal_nat n \<noteq> []"
  by (simp add: decimal_nat.simps [of n])

lemma decimal_nat_prefix:
  assumes "stops 10 rest"
  shows "takeWhile (is_digit 10) (decimal_nat n @ rest) = decimal_nat n"
    and "dropWhile (is_digit 10) (decimal_nat n @ rest) = rest"
  using assms decimal_nat_is_digit by (auto simp: stops_def split: list.splits)

lemma decimal_nat_head:
  obtains c cs where "decimal_nat n = c # cs" "\<not> c_space c" "c \<noteq> CHR ''-''" "c \<noteq> CHR ''+''"
proof -
  obtain c cs where c: "decimal_nat n = c # cs"
    by (cases "decimal_nat n") auto
  then obtain d where "d < 10" "c = digit_char d"
    using decimal_nat_digits [of c n] by auto
  with c digit_char_props that show ?thesis by metis
qed

lemma strto_decimal:
  assumes "stops 10 rest"
  shows "strto 10 (decimal i @ rest) = Some (i < 0, nat \<bar>i\<bar>, rest)"
proof -
  obtain c cs where c: "decimal_nat (nat i) = c # cs" "\<not> c_space c" "c \<noteq> CHR ''-''" "c \<noteq> CHR ''+''"
    by (rule decimal_nat_head)
  have sign: "sign_split (dropWhile c_space (decimal i @ rest)) = (i < 0, decimal_nat (nat \<bar>i\<bar>) @ rest)"
    using c by (auto simp: decimal_def sign_split_def c_space_def)
  have "skip_0x 10 s = s" for s
    by (auto simp: skip_0x_def split: list.split)
  then show ?thesis
    using assms by (simp add: strto_def sign decimal_nat_prefix)
qed

text \<open>Every 32-bit integer the services print is read back by \<open>stoi\<close>, whatever non-digit follows.\<close>

lemma stoi_decimal:
  assumes "stops 10 rest"
  shows "stoi (decimal (sint (w :: s32)) @ rest) = Returns w"
  using assms sint_bounds32 [of w] by (auto simp: stoi_def strto_decimal signed_value_def)

lemma stoi_empty [simp]: "stoi [] = Aborts"
  by (simp add: stoi_def strto_def sign_split_def skip_0x_def)

lemma stops_Cons: "stops b (c # cs) = (\<not> is_digit b c)"
  by (simp add: stops_def)

lemma stops_newline [simp]: "stops 10 (newline # cs)"
  by (simp add: stops_def is_digit_def digit_val_def)

lemma stops_comma [simp]: "stops 10 (CHR '','' # cs)"
  by (simp add: stops_def is_digit_def digit_val_def)

lemma scan_decimal_last:
  "stops 10 rest \<Longrightarrow> (\<forall>c cs. rest = c # cs \<longrightarrow> c \<noteq> CHR '','') \<Longrightarrow>
     scan_ints (Suc n) (decimal i @ rest) = [i]"
  by (auto simp: strto_decimal signed_value_def split: list.split)

lemma scan_decimal_comma:
  "scan_ints (Suc n) (decimal i @ CHR '','' # rest) = i # scan_ints n rest"
  by (simp add: strto_decimal signed_value_def)

lemma sscanf_decimal: "sscanf_ints n (decimal i @ rest) = Some (scan_ints n (decimal i @ rest))"
proof -
  obtain c cs where "decimal_nat (nat i) = c # cs" "\<not> c_space c"
    by (rule decimal_nat_head)
  then have "dropWhile c_space (decimal i @ rest) \<noteq> []"
    by (auto simp: decimal_def c_space_def)
  then show ?thesis by (simp add: sscanf_ints_def)
qed

end
