(* ===== verification/Charging.thy ===== *)
theory Charging
  imports Text_Parsing
begin

text \<open>
  The charging-limit service: \<open>charging/charging-control.cpp\<close> and \<open>charging/charging-control.h\<close>. The
  health HAL reports a battery status; while it is charging, detached threads read the temperature
  of the phone's shell every half second and write the current limit it allows. The file system is a
  function from paths to contents, and every write is recorded.
\<close>

section \<open>Tables\<close>

definition CHG_VOLT_TBL :: "s32 list" where
  "CHG_VOLT_TBL = [9000, 8500, 8000, 7500, 7000, 6500, 6000, 5500, 5000, 4500, 4000, 3500,
     3000, 2500, 2400, 2000, 1600, 1500, 1200, 1000, 500, 0]"

definition ppsTempThresholds :: "s32 list" where
  "ppsTempThresholds = [35000, 37000, 39000, 41000, 43000, 48000]"

definition ppsVoltLimit :: "nat list" where
  "ppsVoltLimit = [4, 6, 10, 12, 15, 21]"

definition qcTempThresholds :: "s32 list" where
  "qcTempThresholds = [35000, 37000, 39000, 41000, 48000]"

definition qcVoltLimit :: "nat list" where
  "qcVoltLimit = [8, 12, 15, 16, 21]"

definition wlsTempThresholds :: "s32 list" where
  "wlsTempThresholds = [35000, 41000, 48000]"

definition wlsVoltLimit :: "nat list" where
  "wlsVoltLimit = [15, 19, 21]"

section \<open>Files\<close>

type_synonym files = "string \<Rightarrow> string option"

definition read_line :: "files \<Rightarrow> string \<Rightarrow> string" where
  "read_line fs file = (case fs file of None \<Rightarrow> '''' | Some text \<Rightarrow> first_line text)"

text \<open>The \<open>errno\<close> of a failed \<open>open\<close> or \<open>write\<close>, once neither is interrupted any more.\<close>

record write_env =
  open_errno :: "s32 option"
  write_errno :: "s32 option"

definition write_value :: "write_env \<Rightarrow> string \<Rightarrow> string \<Rightarrow> s32 \<times> (string \<times> string) list" where
  "write_value e file val =
     (case open_errno e of
        Some err \<Rightarrow> (- err, [])
      | None \<Rightarrow> (case write_errno e of
                  Some err \<Rightarrow> (- err, [])
                | None \<Rightarrow> (0, [(file, val @ [nul])])))"

definition write_value_int :: "write_env \<Rightarrow> string \<Rightarrow> s32 \<Rightarrow> s32 \<times> (string \<times> string) list" where
  "write_value_int e file val = write_value e file (decimal (sint val))"

definition USB_CHG_ONLINE :: string where
  "USB_CHG_ONLINE = ''/sys/class/power_supply/usb/online''"

definition USB_CHG_TYPE :: string where
  "USB_CHG_TYPE = ''/sys/class/power_supply/usb/usb_type''"

definition BATTERY_SCENARIO_FCC :: string where
  "BATTERY_SCENARIO_FCC = ''/sys/class/qcom-battery/scenario_fcc''"

definition WLS_CHG_ONLINE :: string where
  "WLS_CHG_ONLINE = ''/sys/class/power_supply/wireless/online''"

definition THERMAL_SYSFS :: string where
  "THERMAL_SYSFS = ''/sys/class/thermal/''"

definition TZ_DIR_NAME :: string where
  "TZ_DIR_NAME = ''thermal_zone''"

definition MAX_PATH :: nat where
  "MAX_PATH = 256"

definition snprintf :: "string \<Rightarrow> string" where
  "snprintf s = take (MAX_PATH - 1) s"

section \<open>Temperature\<close>

text \<open>\<open>tdir\<close>: the names \<open>readdir\<close> yields, if the directory can be opened.\<close>

fun find_tz :: "files \<Rightarrow> string \<Rightarrow> string list \<Rightarrow> string option" where
  "find_tz fs sensor_name [] = None"
| "find_tz fs sensor_name (d # ds) =
     (if \<not> starts_with TZ_DIR_NAME d then find_tz fs sensor_name ds
      else let buf = read_line fs (snprintf (THERMAL_SYSFS @ d @ ''/'' @ ''type''))
           in if buf = '''' then find_tz fs sensor_name ds
              else if starts_with sensor_name buf then Some d
              else find_tz fs sensor_name ds)"

definition get_tzn :: "files \<Rightarrow> string list option \<Rightarrow> string \<Rightarrow> s32" where
  "get_tzn fs tdir sensor_name =
     (case tdir of
        None \<Rightarrow> - 1
      | Some names \<Rightarrow>
          (case find_tz fs sensor_name names of
             None \<Rightarrow> - 1
           | Some d \<Rightarrow>
               (case strto 10 (drop (length TZ_DIR_NAME) d) of
                  None \<Rightarrow> 0
                | Some (neg, n, rest) \<Rightarrow> word_of_int (signed_value neg n))))"

definition temp_path :: "s32 \<Rightarrow> string" where
  "temp_path tzn = snprintf (THERMAL_SYSFS @ ''thermal_zone'' @ decimal (sint tzn) @ ''/temp'')"

record ChargeStatus =
  mStatus :: s32
  usbChgActive :: bool
  usingPps :: bool
  wlsChgActive :: bool
  enableChgLimit :: bool

text \<open>The first sensor if there is one and it reads positive, else the second, which must read.\<close>

definition sensor_or :: "files \<Rightarrow> string list option \<Rightarrow> string \<Rightarrow> string \<Rightarrow> s32 outcome" where
  "sensor_or fs tdir shell fallback =
     (let tzn = get_tzn fs tdir shell;
          second = stoi (read_line fs (temp_path (get_tzn fs tdir fallback)))
      in if 0 \<le> sint tzn
         then and_then (stoi (read_line fs (temp_path tzn)))
                (\<lambda>temp. if 0 < sint temp then Returns temp else second)
         else second)"

definition get_charge_temp :: "files \<Rightarrow> string list option \<Rightarrow> ChargeStatus \<Rightarrow> s32 outcome" where
  "get_charge_temp fs tdir c =
     (if usbChgActive c then sensor_or fs tdir ''shell_front'' ''battery''
      else if wlsChgActive c then sensor_or fs tdir ''shell_back'' ''wls-therm''
      else Returns 0)"

definition get_charge_tempThresholds :: "ChargeStatus \<Rightarrow> s32 list" where
  "get_charge_tempThresholds c =
     (if usbChgActive c then if usingPps c then ppsTempThresholds else qcTempThresholds
      else if wlsChgActive c then wlsTempThresholds else [])"

definition get_charge_voltLimits :: "ChargeStatus \<Rightarrow> nat list" where
  "get_charge_voltLimits c =
     (if usbChgActive c then if usingPps c then ppsVoltLimit else qcVoltLimit
      else if wlsChgActive c then wlsVoltLimit else [])"

section \<open>The limit\<close>

text \<open>The loop over the thresholds; reading past the end of the limits is undefined.\<close>

fun limit_index :: "s32 \<Rightarrow> s32 list \<Rightarrow> nat list \<Rightarrow> nat \<Rightarrow> nat \<Rightarrow> nat outcome" where
  "limit_index temp [] limits i volt_limit_index = Returns volt_limit_index"
| "limit_index temp (t # ts) limits i volt_limit_index =
     (if sint t \<le> sint temp
      then if i < length limits then limit_index temp ts limits (Suc i) (limits ! i) else Undefined_behaviour
      else Returns volt_limit_index)"

text \<open>
  One pass of \<open>limitCharge\<close>. Each call reads the members when it is made: \<open>c\<close>, \<open>c1\<close> and \<open>c2\<close> are the
  members at the temperature, the thresholds and the limits.
\<close>

definition limit_pass ::
  "files \<Rightarrow> string list option \<Rightarrow> write_env \<Rightarrow> ChargeStatus \<Rightarrow> ChargeStatus \<Rightarrow> ChargeStatus
   \<Rightarrow> (string \<times> string) list outcome" where
  "limit_pass fs tdir e c c1 c2 =
     and_then (stoi (read_line fs BATTERY_SCENARIO_FCC)) (\<lambda>last_volt_limit.
     and_then (get_charge_temp fs tdir c) (\<lambda>current_temp.
     and_then (limit_index current_temp (get_charge_tempThresholds c1) (get_charge_voltLimits c2) 0 0) (\<lambda>volt_limit_index.
       if volt_limit_index < length CHG_VOLT_TBL
       then let current_volt_limit = CHG_VOLT_TBL ! volt_limit_index
            in if current_volt_limit \<noteq> last_volt_limit
               then Returns (snd (write_value_int e BATTERY_SCENARIO_FCC current_volt_limit))
               else Returns []
       else Undefined_behaviour)))"

section \<open>The listener and its threads\<close>

text \<open>\<open>limiters\<close> counts the detached threads that are in \<open>limitCharge\<close>.\<close>

record charging =
  status :: ChargeStatus
  limiters :: nat
  writes :: "(string \<times> string) list"

text \<open>The substring test of \<open>find\<close>.\<close>

fun contains :: "string \<Rightarrow> string \<Rightarrow> bool" where
  "contains p [] = (p = [])"
| "contains p (c # cs) = (starts_with p (c # cs) \<or> contains p cs)"

text \<open>\<open>CHARGING\<close> is the value of the battery status of that name.\<close>

definition healthInfoChanged :: "s32 \<Rightarrow> files \<Rightarrow> s32 \<Rightarrow> charging \<Rightarrow> charging outcome" where
  "healthInfoChanged CHARGING fs batteryStatus s =
     (if batteryStatus \<noteq> mStatus (status s)
      then and_then (stoi (read_line fs USB_CHG_ONLINE)) (\<lambda>usb.
           and_then (stoi (read_line fs WLS_CHG_ONLINE)) (\<lambda>wls.
             let c = (status s)\<lparr>mStatus := batteryStatus, usbChgActive := (usb \<noteq> 0), wlsChgActive := (wls \<noteq> 0)\<rparr>
             in if batteryStatus = CHARGING
                then Returns (s\<lparr>status := c\<lparr>usingPps := (if usbChgActive c then contains ''[PD_PPS]'' (read_line fs USB_CHG_TYPE)
                                                       else False),
                                         enableChgLimit := True\<rparr>,
                               limiters := limiters s + 1\<rparr>)
                else Returns (s\<lparr>status := c\<lparr>enableChgLimit := False, usingPps := False\<rparr>\<rparr>)))
      else Returns s)"

text \<open>
  A thread in \<open>limitCharge\<close> between two sleeps: it ends when the limit has been switched off, else it
  makes one pass and sleeps again.
\<close>

definition limiter_wakes :: "files \<Rightarrow> string list option \<Rightarrow> write_env \<Rightarrow> charging \<Rightarrow> charging outcome" where
  "limiter_wakes fs tdir e s =
     (if limiters s = 0 then Returns s
      else if \<not> enableChgLimit (status s) then Returns (s\<lparr>limiters := limiters s - 1\<rparr>)
      else and_then (limit_pass fs tdir e (status s) (status s) (status s))
             (\<lambda>ws. Returns (s\<lparr>writes := writes s @ ws\<rparr>)))"

end
