(* ===== verification/Vibrator.thy ===== *)
theory Vibrator
  imports Prelude Complex_Main
begin

text \<open>
  The vibrator service, \<open>vibrator/Vibrator.cpp\<close>: requests of the framework become calls of the AAC
  vibration library declared in \<open>vibrator/aac_vibra_function.h\<close>, whose functions are a table over
  its state \<open>'v\<close>. The codes of effects and strengths belong to the interface and are an argument.
\<close>

section \<open>The interface\<close>

record effect_codes =
  CLICK :: s32
  DOUBLE_CLICK :: s32
  TICK :: s32
  THUD :: s32
  POP :: s32
  HEAVY_CLICK :: s32
  LIGHT :: s32
  MEDIUM :: s32
  STRONG :: s32
  CAP_ON_CALLBACK :: s32
  CAP_PERFORM_CALLBACK :: s32
  CAP_AMPLITUDE_CONTROL :: s32

text \<open>The interface numbers the effects consecutively and the strengths apart.\<close>

definition codes_ok :: "effect_codes \<Rightarrow> bool" where
  "codes_ok c \<longleftrightarrow> CLICK c = 0 \<and> DOUBLE_CLICK c = 1 \<and> TICK c = 2 \<and> THUD c = 3 \<and> POP c = 4 \<and> HEAVY_CLICK c = 5
     \<and> distinct [LIGHT c, MEDIUM c, STRONG c]"

record 'v aac_library =
  aac_vibra_init :: "'v \<Rightarrow> s32 \<times> 'v"
  aac_vibra_looper_start :: "'v \<Rightarrow> 'v"
  aac_vibra_looper_stopPerformHe :: "'v \<Rightarrow> bool \<times> 'v"
  aac_vibra_off :: "'v \<Rightarrow> s32 \<times> 'v"
  aac_vibra_looper_on :: "u32 \<Rightarrow> 'v \<Rightarrow> s32 \<times> 'v"
  aac_vibra_setAmplitude :: "u8 \<Rightarrow> 'v \<Rightarrow> s32 \<times> 'v"
  aac_vibra_looper_prebaked_effect :: "u32 \<Rightarrow> s32 \<Rightarrow> 'v \<Rightarrow> s32 \<times> 'v"

section \<open>State\<close>

datatype vibrationMode = MODE_NONE | MODE_TIMEOUT | MODE_PREBAKED | MODE_STREAM

datatype vibra_call = InitCall | LooperStart | StopPerformHe | Off | LooperOn u32 | SetAmplitude u8 | Prebaked u32 s32

datatype vibra_status = VOk | ServiceSpecific | Unsupported

text \<open>
  \<open>completions\<close>: what the detached threads that will call \<open>onComplete\<close> have captured, a duration in
  milliseconds each.
\<close>

record 'v vibrator =
  sLastMode :: vibrationMode
  lib :: 'v
  lib_calls :: "vibra_call list"
  completions :: "s32 list"

definition lib_call :: "vibra_call \<Rightarrow> ('v \<Rightarrow> 'r \<times> 'v) \<Rightarrow> 'v vibrator \<Rightarrow> 'r \<times> 'v vibrator" where
  "lib_call c f s = (case f (lib s) of (r, v) \<Rightarrow> (r, s\<lparr>lib := v, lib_calls := lib_calls s @ [c]\<rparr>))"

section \<open>Requests\<close>

definition RICHTAP_LIGHT_STRENGTH :: s32 where
  "RICHTAP_LIGHT_STRENGTH = 82"

definition RICHTAP_MEDIUM_STRENGTH :: s32 where
  "RICHTAP_MEDIUM_STRENGTH = 91"

definition RICHTAP_STRONG_STRENGTH :: s32 where
  "RICHTAP_STRONG_STRENGTH = 100"

definition Vibrator_new :: "'v aac_library \<Rightarrow> 'v vibrator \<Rightarrow> 'v vibrator" where
  "Vibrator_new a s =
     (let r = lib_call InitCall (aac_vibra_init a) s
      in if fst r \<noteq> 0 then snd r
         else snd (lib_call LooperStart (\<lambda>v. ((), aac_vibra_looper_start a v)) (snd r)))"

definition getCapabilities :: "effect_codes \<Rightarrow> s32" where
  "getCapabilities c = or (or (CAP_ON_CALLBACK c) (CAP_PERFORM_CALLBACK c)) (CAP_AMPLITUDE_CONTROL c)"

definition vibrator_off :: "'v aac_library \<Rightarrow> 'v vibrator \<Rightarrow> vibra_status \<times> 'v vibrator" where
  "vibrator_off a s =
     (let s = snd (lib_call StopPerformHe (aac_vibra_looper_stopPerformHe a) s);
          r = lib_call Off (aac_vibra_off a) s
      in (if fst r \<noteq> 0 then ServiceSpecific else VOk, snd r))"

text \<open>\<open>cb\<close>: whether the framework gave a callback.\<close>

definition vibrator_on :: "'v aac_library \<Rightarrow> s32 \<Rightarrow> bool \<Rightarrow> 'v vibrator \<Rightarrow> vibra_status \<times> 'v vibrator" where
  "vibrator_on a timeoutMs cb s =
     (let r = lib_call (LooperOn timeoutMs) (aac_vibra_looper_on a timeoutMs) s; ret = fst r; s = snd r
      in if sint ret < 0 then (ServiceSpecific, s)
         else let s = (if cb then s\<lparr>completions := completions s @ [ret]\<rparr> else s)
              in (VOk, s\<lparr>sLastMode := MODE_TIMEOUT\<rparr>))"

text \<open>Such a thread multiplies in \<open>int\<close>, which must not overflow, and sleeps for the result.\<close>

definition completion_sleep :: "s32 \<Rightarrow> u32 outcome" where
  "completion_sleep ret =
     (if sint ret * 1000 < - (2 ^ 31) \<or> 2 ^ 31 \<le> sint ret * 1000 then Undefined_behaviour
      else Returns (ret * 1000))"

definition mapEffectToPrebakedId :: "effect_codes \<Rightarrow> s32 \<Rightarrow> u32 option" where
  "mapEffectToPrebakedId c effect =
     (if effect = CLICK c \<or> effect = DOUBLE_CLICK c \<or> effect = TICK c then Some (effect + 0x1000)
      else if effect = THUD c \<or> effect = POP c \<or> effect = HEAVY_CLICK c then Some (effect + 0x3002)
      else None)"

definition strength_of :: "effect_codes \<Rightarrow> s32 \<Rightarrow> s32 option" where
  "strength_of c es =
     (if es = LIGHT c then Some RICHTAP_LIGHT_STRENGTH
      else if es = MEDIUM c then Some RICHTAP_MEDIUM_STRENGTH
      else if es = STRONG c then Some RICHTAP_STRONG_STRENGTH
      else None)"

text \<open>\<open>remap\<close>: the build option \<open>USE_RICHTAP_EFFECT_REMAP\<close>. The value returned is the duration.\<close>

definition vibrator_perform ::
  "'v aac_library \<Rightarrow> effect_codes \<Rightarrow> bool \<Rightarrow> s32 \<Rightarrow> s32 \<Rightarrow> bool \<Rightarrow> 'v vibrator
   \<Rightarrow> (vibra_status \<times> s32 option) \<times> 'v vibrator" where
  "vibrator_perform a c remap effect es cb s =
     (let effect = (if effect = TICK c \<or> effect = CLICK c then THUD c else effect)
      in if sint effect < sint (CLICK c) \<or> sint (HEAVY_CLICK c) < sint effect then ((Unsupported, None), s)
         else (case strength_of c es of
                 None \<Rightarrow> ((Unsupported, None), s)
               | Some strength \<Rightarrow>
                   let s = (if sLastMode s = MODE_STREAM
                            then snd (lib_call (SetAmplitude 0xFF) (aac_vibra_setAmplitude a 0xFF) s) else s)
                   in (case (if remap then mapEffectToPrebakedId c effect else Some effect) of
                         None \<Rightarrow> ((Unsupported, None), s)
                       | Some prebaked_id \<Rightarrow>
                           let r = lib_call (Prebaked prebaked_id strength)
                                     (aac_vibra_looper_prebaked_effect a prebaked_id strength) s;
                               ret = fst r; s = snd r
                           in if sint ret < 0 then ((ServiceSpecific, None), s)
                              else let s = (if cb then s\<lparr>completions := completions s @ [ret]\<rparr> else s)
                                   in ((VOk, Some ret), s\<lparr>sLastMode := MODE_PREBAKED\<rparr>))))"

definition getSupportedEffects :: "effect_codes \<Rightarrow> s32 list" where
  "getSupportedEffects c = [CLICK c, DOUBLE_CLICK c, TICK c, THUD c, POP c, HEAVY_CLICK c]"

text \<open>
  \<open>float_mul\<close> is the multiplication of \<open>float\<close>; the conversion to \<open>uint8_t\<close> truncates and is
  undefined out of range.
\<close>

definition vibrator_setAmplitude ::
  "'v aac_library \<Rightarrow> (real \<Rightarrow> real \<Rightarrow> real) \<Rightarrow> real \<Rightarrow> 'v vibrator \<Rightarrow> (vibra_status \<times> 'v vibrator) outcome" where
  "vibrator_setAmplitude a float_mul amplitude s =
     (let x = float_mul amplitude 0xff
      in if x \<le> - 1 \<or> 256 \<le> x then Undefined_behaviour
         else let tmp = word_of_int (if x < 0 then 0 else floor x) :: u8;
                  r = lib_call (SetAmplitude tmp) (aac_vibra_setAmplitude a tmp) s
              in Returns (if fst r \<noteq> 0 then (ServiceSpecific, snd r)
                          else (VOk, (snd r)\<lparr>sLastMode := MODE_STREAM\<rparr>)))"

text \<open>The remaining requests make no call; only one of them is not refused.\<close>

datatype other_request =
    SetExternalControl bool | GetCompositionDelayMax | GetCompositionSizeMax | GetSupportedPrimitives
  | GetPrimitiveDuration | Compose | GetSupportedAlwaysOnEffects | AlwaysOnEnable | AlwaysOnDisable
  | GetResonantFrequency | GetQFactor | GetFrequencyResolution | GetFrequencyMinimum | GetBandwidthAmplitudeMap
  | GetPwlePrimitiveDurationMax | GetPwleCompositionSizeMax | GetSupportedBraking | ComposePwle

definition vibrator_other :: "other_request \<Rightarrow> 'v vibrator \<Rightarrow> vibra_status \<times> 'v vibrator" where
  "vibrator_other r s = (case r of GetSupportedPrimitives \<Rightarrow> (VOk, s) | _ \<Rightarrow> (Unsupported, s))"

section \<open>What performing does\<close>

text \<open>The id the library gets for an effect.\<close>

definition played_id :: "effect_codes \<Rightarrow> bool \<Rightarrow> s32 \<Rightarrow> u32" where
  "played_id c remap effect =
     (let e = (if effect = TICK c \<or> effect = CLICK c then THUD c else effect)
      in if \<not> remap then e else if e = DOUBLE_CLICK c then e + 0x1000 else e + 0x3002)"

lemma between_0_5: "0 \<le> sint (e :: s32) \<and> sint e \<le> 5 \<longleftrightarrow> e \<in> {0, 1, 2, 3, 4, 5}"
proof -
  have "sint e \<in> {0, 1, 2, 3, 4, 5} \<longleftrightarrow> e \<in> {0, 1, 2, 3, 4, 5}"
    by (simp add: word_eq_sint_iff)
  moreover have "0 \<le> sint e \<and> sint e \<le> 5 \<longleftrightarrow> sint e \<in> {0, 1, 2, 3, 4, 5}"
    by auto
  ultimately show ?thesis by blast
qed

text \<open>One call with the id, after the reset of the amplitude.\<close>

definition play :: "'v aac_library \<Rightarrow> u32 \<Rightarrow> s32 \<Rightarrow> bool \<Rightarrow> 'v vibrator \<Rightarrow> (vibra_status \<times> s32 option) \<times> 'v vibrator" where
  "play a prebaked_id strength cb s =
     (let s = (if sLastMode s = MODE_STREAM then snd (lib_call (SetAmplitude 0xFF) (aac_vibra_setAmplitude a 0xFF) s) else s);
          r = lib_call (Prebaked prebaked_id strength) (aac_vibra_looper_prebaked_effect a prebaked_id strength) s;
          ret = fst r; s = snd r
      in if sint ret < 0 then ((ServiceSpecific, None), s)
         else let s = (if cb then s\<lparr>completions := completions s @ [ret]\<rparr> else s)
              in ((VOk, Some ret), s\<lparr>sLastMode := MODE_PREBAKED\<rparr>))"

lemma lib_call_calls [simp]: "lib_calls (snd (lib_call c f s)) = lib_calls s @ [c]"
  by (simp add: lib_call_def case_prod_beta)

lemma play_calls: "lib_calls (snd (play a i k cb s))
    = lib_calls s @ (if sLastMode s = MODE_STREAM then [SetAmplitude 0xFF] else []) @ [Prebaked i k]"
  by (simp add: play_def Let_def)

lemma play_supported: "fst (fst (play a i k cb s)) \<noteq> Unsupported"
  by (simp add: play_def Let_def)

lemma perform_plays:
  assumes "codes_ok c" and "effect \<in> set (getSupportedEffects c)" and "strength_of c es = Some strength"
  shows "vibrator_perform a c remap effect es cb s = play a (played_id c remap effect) strength cb s"
proof -
  have codes: "CLICK c = 0" "DOUBLE_CLICK c = 1" "TICK c = 2" "THUD c = 3" "POP c = 4" "HEAVY_CLICK c = 5"
    using assms(1) by (simp_all add: codes_ok_def)
  then consider "effect = 0" | "effect = 1" | "effect = 2" | "effect = 3" | "effect = 4" | "effect = 5"
    using assms(2) by (auto simp: getSupportedEffects_def)
  then show ?thesis
    by cases (cases remap; simp only: vibrator_perform_def play_def; simp add: codes assms(3) mapEffectToPrebakedId_def
        played_id_def cong del: if_weak_cong)+
qed

lemma perform_calls:
  assumes "codes_ok c"
  shows "(if effect \<in> set (getSupportedEffects c) \<and> strength_of c es \<noteq> None
      then fst (fst (vibrator_perform a c remap effect es cb s)) \<noteq> Unsupported
        \<and> lib_calls (snd (vibrator_perform a c remap effect es cb s)) = lib_calls s
            @ (if sLastMode s = MODE_STREAM then [SetAmplitude 0xFF] else [])
            @ [Prebaked (played_id c remap effect) (the (strength_of c es))]
      else vibrator_perform a c remap effect es cb s = ((Unsupported, None), s))"
proof -
  have codes: "CLICK c = 0" "DOUBLE_CLICK c = 1" "TICK c = 2" "THUD c = 3" "POP c = 4" "HEAVY_CLICK c = 5"
    using assms by (simp_all add: codes_ok_def)
  show ?thesis
  proof (cases "effect \<in> {0, 1, 2, 3, 4, 5} \<and> strength_of c es \<noteq> None")
    case True
    then obtain strength where k: "strength_of c es = Some strength" by blast
    have "effect \<in> set (getSupportedEffects c)"
      using True codes by (simp add: getSupportedEffects_def)
    then show ?thesis
      using perform_plays [OF assms _ k, of effect a remap cb s] True k
      by (simp add: play_calls play_supported)
  next
    case False
    then have "effect \<notin> {0, 1, 2, 3, 4, 5} \<or> strength_of c es = None"
      by blast
    moreover have "sint effect < 0 \<or> 5 < sint effect" if "effect \<notin> {0, 1, 2, 3, 4, 5}"
      using that between_0_5 [of effect] by linarith
    ultimately show ?thesis
      using codes False
      by (auto simp: vibrator_perform_def getSupportedEffects_def Let_def)
  qed
qed

text \<open>
  Exactly the advertised effects are played, in either build: an effect of the supported list with
  a valid strength makes one prebaked call with its id and strength, after an amplitude reset if and
  only if the last mode was a stream; anything else makes no call and changes nothing.
\<close>

theorem perform_plays_supported:
  assumes "codes_ok c"
  shows "(if effect \<in> set (getSupportedEffects c) \<and> strength_of c es \<noteq> None
      then fst (fst (vibrator_perform a c remap effect es cb s)) \<noteq> Unsupported
        \<and> lib_calls (snd (vibrator_perform a c remap effect es cb s)) = lib_calls s
            @ (if sLastMode s = MODE_STREAM then [SetAmplitude 0xFF] else [])
            @ [Prebaked (played_id c remap effect) (the (strength_of c es))]
      else vibrator_perform a c remap effect es cb s = ((Unsupported, None), s))"
  by (rule perform_calls [OF assms])

definition sample_codes :: effect_codes where
  "sample_codes = \<lparr>CLICK = 0, DOUBLE_CLICK = 1, TICK = 2, THUD = 3, POP = 4, HEAVY_CLICK = 5, LIGHT = 0,
     MEDIUM = 1, STRONG = 2, CAP_ON_CALLBACK = 1, CAP_PERFORM_CALLBACK = 2, CAP_AMPLITUDE_CONTROL = 4\<rparr>"

definition quiet_library :: "unit aac_library" where
  "quiet_library = \<lparr>aac_vibra_init = (\<lambda>v. (0, v)), aac_vibra_looper_start = (\<lambda>v. v),
     aac_vibra_looper_stopPerformHe = (\<lambda>v. (False, v)), aac_vibra_off = (\<lambda>v. (0, v)),
     aac_vibra_looper_on = (\<lambda>_ v. (20, v)), aac_vibra_setAmplitude = (\<lambda>_ v. (0, v)),
     aac_vibra_looper_prebaked_effect = (\<lambda>_ _ v. (30, v))\<rparr>"

definition still :: "unit vibrator" where
  "still = \<lparr>sLastMode = MODE_STREAM, lib = (), lib_calls = [], completions = []\<rparr>"

theorem perform_plays_supported_witness:
  "lib_calls (snd (vibrator_perform quiet_library sample_codes True 0 2 True still)) = [SetAmplitude 0xFF, Prebaked 0x3005 100]"
proof -
  have "codes_ok sample_codes"
    by (simp add: codes_ok_def sample_codes_def)
  from perform_plays_supported [OF this, of 0 2 quiet_library True True still] show ?thesis
    by (simp add: getSupportedEffects_def sample_codes_def strength_of_def still_def played_id_def
        RICHTAP_STRONG_STRENGTH_def)
qed

text \<open>
  The amplitude of a stream does not reach a prebaked effect that follows it directly, but it does
  when a timed vibration lies between: \<open>on\<close> clears the memory of the stream without resetting the
  amplitude.
\<close>

theorem amplitude_survives_on:
  assumes "codes_ok c" and "effect \<in> set (getSupportedEffects c)" and "strength_of c es = Some strength"
    and "vibrator_setAmplitude a float_mul amplitude s = Returns (VOk, s1)"
    and "vibrator_on a ms cb s1 = (VOk, s2)"
  shows "\<exists>tmp. lib_calls (snd (vibrator_perform a c remap effect es cb s1))
      = lib_calls s @ [SetAmplitude tmp, SetAmplitude 0xFF, Prebaked (played_id c remap effect) strength]
    \<and> lib_calls (snd (vibrator_perform a c remap effect es cb s2))
      = lib_calls s @ [SetAmplitude tmp, LooperOn ms, Prebaked (played_id c remap effect) strength]"
proof -
  have calls: "lib_calls (snd (vibrator_perform a c remap effect es cb t)) = lib_calls t
      @ (if sLastMode t = MODE_STREAM then [SetAmplitude 0xFF] else []) @ [Prebaked (played_id c remap effect) strength]"
    for t :: "'a vibrator"
    using perform_calls [OF assms(1), of effect es a remap cb t] assms(2,3) by simp
  obtain tmp where "sLastMode s1 = MODE_STREAM" "lib_calls s1 = lib_calls s @ [SetAmplitude tmp]"
    using assms(4) by (auto simp: vibrator_setAmplitude_def lib_call_def case_prod_beta Let_def split: if_splits)
  moreover have "sLastMode s2 = MODE_TIMEOUT" "lib_calls s2 = lib_calls s1 @ [LooperOn ms]"
    using assms(5) by (auto simp: vibrator_on_def lib_call_def case_prod_beta Let_def split: if_splits)
  ultimately show ?thesis by (auto simp: calls)
qed

theorem amplitude_survives_on_witness:
  "\<exists>s1 s2. vibrator_setAmplitude quiet_library (\<lambda>x y. x * y) 0 still = Returns (VOk, s1)
     \<and> vibrator_on quiet_library 50 False s1 = (VOk, s2)
     \<and> lib_calls (snd (vibrator_perform quiet_library sample_codes False 1 2 False s2))
        = [SetAmplitude 0, LooperOn 50, Prebaked 1 100]"
proof -
  obtain s1 where s1: "vibrator_setAmplitude quiet_library (\<lambda>x y. x * y) 0 still = Returns (VOk, s1)"
      "lib_calls s1 = [SetAmplitude 0]"
    by (simp add: vibrator_setAmplitude_def quiet_library_def lib_call_def still_def Let_def)
  obtain s2 where s2: "vibrator_on quiet_library 50 False s1 = (VOk, s2)" "lib_calls s2 = [SetAmplitude 0, LooperOn 50]"
    using s1(2) by (simp add: vibrator_on_def quiet_library_def lib_call_def Let_def)
  have c: "codes_ok sample_codes" "1 \<in> set (getSupportedEffects sample_codes)"
      "strength_of sample_codes 2 = Some 100" "played_id sample_codes False 1 = 1"
    by (simp_all add: codes_ok_def sample_codes_def getSupportedEffects_def strength_of_def
        RICHTAP_STRONG_STRENGTH_def played_id_def)
  from amplitude_survives_on [OF c(1-3) s1(1) s2(1), of False]
  obtain tmp where t: "lib_calls (snd (vibrator_perform quiet_library sample_codes False 1 2 False s2))
      = lib_calls still @ [SetAmplitude tmp, LooperOn 50, Prebaked (played_id sample_codes False 1) 100]"
      "lib_calls (snd (vibrator_perform quiet_library sample_codes False 1 2 False s1))
      = lib_calls still @ [SetAmplitude tmp, SetAmplitude 0xFF, Prebaked (played_id sample_codes False 1) 100]"
    by blast
  have "lib_calls (snd (vibrator_perform quiet_library sample_codes False 1 2 False s1))
      = lib_calls s1 @ (if sLastMode s1 = MODE_STREAM then [SetAmplitude 0xFF] else []) @ [Prebaked 1 100]"
    using perform_calls [OF c(1), of 1 2 quiet_library False False s1] c by simp
  then have "tmp = 0"
    using t(2) s1(2) by (auto simp: still_def split: if_splits)
  then show ?thesis
    using s1(1) s2(1) t(1) c(4) by (auto simp: still_def)
qed

end
