(* ===== verification/Sensor_Handle.thy ===== *)
theory Sensor_Handle
  imports Prelude
begin

text \<open>
  Sensor handles across sub-HALs: the functions of \<open>sensors/HalProxy.cpp\<close> and
  \<open>sensors/HalProxyCallback.cpp\<close> that put the index of a sub-HAL into the first byte of a handle and
  take it out again. The mask of that byte comes from a header of the platform and is an argument;
  the comments of the source say that it selects the first byte.
\<close>

section \<open>The functions\<close>

definition kBitsAfterSubHalIndex :: nat where
  "kBitsAfterSubHalIndex = 24"

definition setSubHalIndex :: "s32 \<Rightarrow> nat \<Rightarrow> s32" where
  "setSubHalIndex sensorHandle subHalIndex =
     or sensorHandle (push_bit kBitsAfterSubHalIndex (word_of_nat subHalIndex))"

text \<open>The shift is arithmetic and the conversion to \<open>size_t\<close> wraps: a negative handle has a huge index.\<close>

definition extractSubHalIndex :: "s32 \<Rightarrow> u64" where
  "extractSubHalIndex sensorHandle = word_of_int (sint sensorHandle div 2 ^ kBitsAfterSubHalIndex)"

definition clearSubHalIndex :: "s32 \<Rightarrow> s32 \<Rightarrow> s32" where
  "clearSubHalIndex kMask sensorHandle = and sensorHandle (not kMask)"

definition subHalIndexIsClear :: "s32 \<Rightarrow> s32 \<Rightarrow> bool" where
  "subHalIndexIsClear kMask sensorHandle = (and sensorHandle kMask = 0)"

section \<open>The interface\<close>

text \<open>
  What the proxy relies on: an index below the bound can be put into a clear handle and both come
  back, and every handle with such an index is made of them.
\<close>

locale handle_codec =
  fixes put :: "'h \<Rightarrow> nat \<Rightarrow> 'h" and idx :: "'h \<Rightarrow> nat" and strip :: "'h \<Rightarrow> 'h"
    and clear :: "'h \<Rightarrow> bool" and bound :: nat
  assumes idx_put: "clear h \<Longrightarrow> i < bound \<Longrightarrow> idx (put h i) = i"
    and strip_put: "clear h \<Longrightarrow> i < bound \<Longrightarrow> strip (put h i) = h"
    and clear_strip: "clear (strip h)"
    and put_strip: "idx h < bound \<Longrightarrow> put (strip h) (idx h) = h"
begin

lemma put_inj:
  assumes "clear h" and "clear h'" and "i < bound" and "j < bound"
  shows "put h i = put h' j \<longleftrightarrow> h = h' \<and> i = j"
  using assms idx_put strip_put by metis

lemma handle_cases:
  assumes "idx h < bound"
  obtains l where "clear l" "h = put l (idx h)"
  using assms clear_strip put_strip by metis

lemma strip_idx_eq: "idx h < bound \<Longrightarrow> idx h' < bound \<Longrightarrow> idx h = idx h' \<Longrightarrow> strip h = strip h' \<Longrightarrow> h = h'"
  using put_strip by metis

end

section \<open>The code provides it\<close>

definition first_byte :: s32 where
  "first_byte = push_bit 24 255"

lemma first_byte_mask: "first_byte = push_bit 24 (mask 8)"
  by (simp add: first_byte_def mask_eq_exp_minus_1)

lemma clear_is_take_bit: "clearSubHalIndex first_byte h = take_bit 24 h"
  by (rule bit_word_eqI) (auto simp: clearSubHalIndex_def first_byte_mask bit_simps)

lemma bit_lt_32: "bit (h :: s32) n \<Longrightarrow> n < 32"
  using bit_imp_le_length [of h n] by simp

lemma is_clear_iff: "subHalIndexIsClear first_byte h \<longleftrightarrow> take_bit 24 h = h"
proof -
  have "bit (and h first_byte) n \<longleftrightarrow> bit h n \<and> 24 \<le> n" for n
    using bit_lt_32 [of h n] by (auto simp: bit_simps first_byte_mask)
  moreover have "bit (take_bit 24 h) n \<longleftrightarrow> bit h n \<and> \<not> 24 \<le> n" for n
    by (auto simp: bit_simps)
  ultimately show ?thesis
    unfolding subHalIndexIsClear_def bit_eq_iff by auto
qed

text \<open>The index as a number; a handle of the first 128 sub-HALs is one with a clear sign bit.\<close>

definition subHalIndex :: "s32 \<Rightarrow> nat" where
  "subHalIndex h = unat (extractSubHalIndex h)"

lemma sint_uint32: "sint (h :: s32) = uint h - (if bit h 31 then 2 ^ 32 else 0)"
proof -
  have "take_bit 32 (uint h) = uint h"
    using uint_lt2p [of h] by (simp add: take_bit_int_eq_self)
  then show ?thesis
    by (simp add: sint_uint signed_take_bit_eq_take_bit_minus bit_uint_iff)
qed

lemma nonneg_uint: "0 \<le> sint (h :: s32) \<Longrightarrow> sint h = uint h"
  using uint_lt2p [of h] by (auto simp: sint_uint32 split: if_splits)

lemma int_index: "int (subHalIndex h) = (sint h div 2 ^ 24) mod 2 ^ 64"
  by (simp add: subHalIndex_def extractSubHalIndex_def kBitsAfterSubHalIndex_def uint_word_of_int)

lemma index_nonneg:
  assumes "0 \<le> sint h"
  shows "subHalIndex h = unat (drop_bit 24 h)"
proof -
  have "uint h div 2 ^ 24 < 2 ^ 64" "0 \<le> uint h div 2 ^ 24"
    using uint_lt2p [of h] by (simp_all add: div_less_iff_less_mult pos_imp_zdiv_nonneg_iff)
  then have "int (subHalIndex h) = uint h div 2 ^ 24"
    unfolding int_index nonneg_uint [OF assms] by (rule mod_pos_pos_trivial [rotated])
  also have "\<dots> = int (unat (drop_bit 24 h))"
    by (subst unat_drop_bit_eq) (simp add: drop_bit_eq_div zdiv_int)
  finally show ?thesis by linarith
qed

lemma index_neg:
  assumes "sint h < 0"
  shows "2 ^ 64 - 128 \<le> subHalIndex h"
proof -
  let ?q = "sint h div 2 ^ 24"
  have q: "- 128 \<le> ?q" "?q < 0"
    using assms sint_bounds32 [of h] by auto
  have "?q mod 2 ^ 64 = (?q + 2 ^ 64) mod 2 ^ 64"
    by simp
  also have "\<dots> = ?q + 2 ^ 64"
    using q by (intro mod_pos_pos_trivial) simp_all
  finally have "int (subHalIndex h) = ?q + 2 ^ 64"
    unfolding int_index .
  then have "18446744073709551488 \<le> int (subHalIndex h)"
    using q by simp
  then show ?thesis by simp
qed

lemma index_small_iff: "subHalIndex h < 128 \<longleftrightarrow> 0 \<le> sint h"
proof (cases "0 \<le> sint h")
  case True
  then have "uint h < 2 ^ 31"
    using nonneg_uint [OF True] sint_bounds32 [of h] by simp
  then have "unat h < 2 ^ 31"
    unfolding unat_eq_nat_uint by (subst nat_less_iff) simp_all
  then have "unat h div 2 ^ 24 < 128"
    by simp
  then have "unat (drop_bit 24 h) < 128"
    by (subst unat_drop_bit_eq) (simp add: drop_bit_eq_div)
  then show ?thesis using True by (simp add: index_nonneg)
next
  case False
  then show ?thesis using index_neg [of h] by simp
qed

lemma bit_put: "bit (setSubHalIndex h i) n \<longleftrightarrow> bit h n \<or> 24 \<le> n \<and> n < 32 \<and> bit i (n - 24)"
  by (auto simp: setSubHalIndex_def kBitsAfterSubHalIndex_def bit_simps)

lemma bit_small: "bit (i :: nat) n \<Longrightarrow> i < 2 ^ m \<Longrightarrow> n < m"
  by (metis bit_take_bit_iff take_bit_nat_eq_self)

lemma sint_nonneg_iff: "0 \<le> sint (h :: s32) \<longleftrightarrow> \<not> bit h 31"
  using bit_last_iff [of h] by (simp add: not_less)

lemma clear_bit: "subHalIndexIsClear first_byte h \<Longrightarrow> bit h n \<Longrightarrow> n < 24"
  unfolding is_clear_iff by (metis bit_take_bit_iff)

lemma put_nonneg: "subHalIndexIsClear first_byte h \<Longrightarrow> i < 128 \<Longrightarrow> 0 \<le> sint (setSubHalIndex h i)"
  using clear_bit [of h 31] bit_small [of i 7 7] by (auto simp: sint_nonneg_iff bit_put)

lemma index_put:
  assumes "subHalIndexIsClear first_byte h" and "i < 128"
  shows "subHalIndex (setSubHalIndex h i) = i"
proof -
  have "bit (unat (drop_bit 24 (setSubHalIndex h i))) n = bit i n" for n
    using clear_bit [OF assms(1), of "24 + n"] bit_small [of i n 7] assms(2)
    by (auto simp: bit_unsigned_iff bit_drop_bit_eq bit_put)
  then have "unat (drop_bit 24 (setSubHalIndex h i)) = i"
    by (intro bit_eqI)
  then show ?thesis
    by (simp add: index_nonneg put_nonneg assms)
qed

interpretation hc: handle_codec setSubHalIndex subHalIndex "clearSubHalIndex first_byte"
    "subHalIndexIsClear first_byte" 128
proof
  fix h :: s32 and i :: nat
  assume c: "subHalIndexIsClear first_byte h" "i < 128"
  then show "subHalIndex (setSubHalIndex h i) = i"
    by (rule index_put)
  show "clearSubHalIndex first_byte (setSubHalIndex h i) = h"
    unfolding clear_is_take_bit
    by (rule bit_word_eqI) (use clear_bit [OF c(1)] in \<open>auto simp: bit_take_bit_iff bit_put\<close>)
next
  fix h :: s32
  show "subHalIndexIsClear first_byte (clearSubHalIndex first_byte h)"
    by (simp add: is_clear_iff clear_is_take_bit)
  assume "subHalIndex h < 128"
  then have "0 \<le> sint h"
    by (simp add: index_small_iff)
  then show "setSubHalIndex (clearSubHalIndex first_byte h) (subHalIndex h) = h"
    unfolding clear_is_take_bit
    by (intro bit_word_eqI)
      (auto simp: bit_put bit_take_bit_iff index_nonneg bit_unsigned_iff bit_drop_bit_eq,
        metis le_add_diff_inverse not_less)
qed

end
