(* ===== verification/Sensor_Types.thy ===== *)
theory Sensor_Types
  imports Text_Parsing Complex_Main
begin

text \<open>
  The data of the sensors HAL as the sources under \<open>sensors/\<close> use it: results, operation modes,
  sensor descriptions and events. The numeric values of the flag bits belong to the platform and are
  an argument (\<open>flag_bits\<close>); sensor types are compared only for equality, so their numbers play no role.
\<close>

datatype Result = OK | PERMISSION_DENIED | NO_MEMORY | BAD_VALUE | INVALID_OPERATION

datatype OperationMode = NORMAL | DATA_INJECTION

datatype SensorType = META_DATA | ADDITIONAL_INFO | PICK_UP_GESTURE
  | DEVICE_PRIVATE nat \<comment> \<open>\<open>DEVICE_PRIVATE_BASE\<close> plus an offset\<close>
  | SENSOR_TYPE s32

record flag_bits =
  WAKE_UP :: u32
  ONE_SHOT_MODE :: u32
  DATA_INJECTION_BIT :: u32
  MASK_DIRECT_REPORT :: u32
  MASK_DIRECT_CHANNEL :: u32

text \<open>What the platform documents of the bits: each is set, and none is part of another.\<close>

definition flags_ok :: "flag_bits \<Rightarrow> bool" where
  "flags_ok fb \<longleftrightarrow> WAKE_UP fb \<noteq> 0 \<and> DATA_INJECTION_BIT fb \<noteq> 0
     \<and> and (WAKE_UP fb) (DATA_INJECTION_BIT fb) = 0
     \<and> and (ONE_SHOT_MODE fb) (DATA_INJECTION_BIT fb) = 0
     \<and> and (WAKE_UP fb) (MASK_DIRECT_REPORT fb) = 0 \<and> and (WAKE_UP fb) (MASK_DIRECT_CHANNEL fb) = 0"

definition platform_flags :: flag_bits where
  "platform_flags = \<lparr>WAKE_UP = 1, ONE_SHOT_MODE = 4, DATA_INJECTION_BIT = 16,
     MASK_DIRECT_REPORT = 896, MASK_DIRECT_CHANNEL = 3072\<rparr>"

lemma platform_flags_ok: "flags_ok platform_flags"
  by (simp add: flags_ok_def platform_flags_def)

record SensorInfo =
  si_sensorHandle :: s32
  si_name :: string
  si_vendor :: string
  si_version :: s32
  si_type :: SensorType
  si_typeAsString :: string
  si_maxRange :: real
  si_resolution :: real
  si_power :: real
  si_minDelay :: s32
  si_fifoReservedEventCount :: u32
  si_fifoMaxEventCount :: u32
  si_requiredPermission :: string
  si_maxDelay :: s32
  si_flags :: u32

datatype MetaDataEventType = META_DATA_FLUSH_COMPLETE | META_OTHER s32

text \<open>The payload union, by the member last written.\<close>

datatype event_payload = Data "real list" | Vec3 real real real | Meta MetaDataEventType

record Event =
  ev_timestamp :: s64
  ev_sensorHandle :: s32
  ev_sensorType :: SensorType
  ev_u :: event_payload

text \<open>The conversion of an integer to \<open>float\<close>: 24 significant bits, ties to even.\<close>

fun excess_bits :: "nat \<Rightarrow> nat" where
  "excess_bits m = (if m < 2 ^ 24 then 0 else Suc (excess_bits (m div 2)))"

declare excess_bits.simps [simp del]

definition round24 :: "int \<Rightarrow> int" where
  "round24 i =
     (let m = nat \<bar>i\<bar>; k = excess_bits m; q = m div 2 ^ k; r = m mod 2 ^ k;
          up = 2 ^ k < 2 * r \<or> 2 * r = 2 ^ k \<and> odd q
      in sgn i * int ((q + (if up then 1 else 0)) * 2 ^ k))"

definition to_float :: "int \<Rightarrow> real" where
  "to_float i = real_of_int (round24 i)"

lemma to_float_exact: "\<bar>i\<bar> < 2 ^ 24 \<Longrightarrow> to_float i = real_of_int i"
proof -
  assume a: "\<bar>i\<bar> < 2 ^ 24"
  then have "nat \<bar>i\<bar> < 2 ^ 24" by simp
  then have "excess_bits (nat \<bar>i\<bar>) = 0" by (simp add: excess_bits.simps)
  then show ?thesis by (simp add: to_float_def round24_def sgn_mult_abs)
qed

end
