(* ===== verification/Sensor_Device.thy ===== *)
theory Sensor_Device
  imports Sensor_Types
begin

text \<open>
  One sensor of the sub-HAL: \<open>sensors/Sensor.cpp\<close> and \<open>sensors/Sensor.h\<close>. The classes \<open>Sensor\<close>,
  \<open>OneShotSensor\<close>, \<open>UdfpsSensor\<close> and \<open>SingleTapSensor\<close> share one record that carries the dynamic
  type; virtual calls dispatch on it. The sensor's thread is cut into the sections between two of
  its waits, each atomic because it runs under \<open>mRunMutex\<close>. Every operation returns the calls of the
  event callback it makes.
\<close>

section \<open>State\<close>

datatype sensor_kind = BaseSensor | OneShot | Udfps | SingleTap

datatype run_phase = AtLoop | InWait | InWaitFor s64 | InPoll | Done

text \<open>
  \<open>mRunAs\<close> is the class whose \<open>run\<close> the thread entered. The base constructor starts the thread, so
  the virtual call may be made before the derived constructor has run and then finds the base class.
\<close>

record Sensor =
  mIsEnabled :: bool
  mSamplingPeriodNs :: s64
  mLastSampleTimeNs :: s64
  mSensorInfo :: SensorInfo
  mStopThread :: bool
  mMode :: OperationMode
  mKind :: sensor_kind
  mRunAs :: sensor_kind
  mRunThread :: run_phase
  mWaitPipe :: bool
  pipe_bytes :: nat
  mScreenX :: s32
  mScreenY :: s32

type_synonym post = "Event list \<times> bool"

section \<open>Construction\<close>

text \<open>
  \<open>s0\<close> is the memory the object is built in: the members the constructor leaves alone keep its
  values, \<open>mStopThread\<close> among them.
\<close>

definition Sensor_new :: "s32 \<Rightarrow> Sensor \<Rightarrow> Sensor" where
  "Sensor_new sensorHandle s0 =
     s0\<lparr>mIsEnabled := False, mSamplingPeriodNs := 0, mLastSampleTimeNs := 0, mMode := NORMAL,
        mSensorInfo := (mSensorInfo s0)\<lparr>si_sensorHandle := sensorHandle,
          si_vendor := ''The LineageOS Project'', si_version := 1, si_maxDelay := 1000 * 1000,
          si_fifoReservedEventCount := 0, si_fifoMaxEventCount := 0, si_requiredPermission := '''',
          si_flags := 0\<rparr>,
        mKind := BaseSensor, mRunThread := AtLoop\<rparr>"

definition OneShotSensor_new :: "flag_bits \<Rightarrow> s32 \<Rightarrow> Sensor \<Rightarrow> Sensor" where
  "OneShotSensor_new fb sensorHandle s0 =
     (let s = Sensor_new sensorHandle s0; i = mSensorInfo s
      in s\<lparr>mKind := OneShot,
           mSensorInfo := i\<lparr>si_minDelay := - 1, si_maxDelay := 0,
             si_flags := or (si_flags i) (ONE_SHOT_MODE fb)\<rparr>\<rparr>)"

text \<open>The pipe and the polled file: whether \<open>pipe\<close> and \<open>open\<close> succeed.\<close>

definition open_files :: "bool \<Rightarrow> bool \<Rightarrow> Sensor \<Rightarrow> Sensor" where
  "open_files pipe_ok open_ok s =
     (let s = s\<lparr>mWaitPipe := pipe_ok, pipe_bytes := 0\<rparr>
      in if \<not> pipe_ok \<or> \<not> open_ok then s\<lparr>mStopThread := True\<rparr> else s)"

definition UdfpsSensor_new :: "flag_bits \<Rightarrow> s32 \<Rightarrow> bool \<Rightarrow> bool \<Rightarrow> Sensor \<Rightarrow> Sensor" where
  "UdfpsSensor_new fb sensorHandle pipe_ok open_ok s0 =
     (let s = OneShotSensor_new fb sensorHandle s0; i = mSensorInfo s
      in open_files pipe_ok open_ok
           (s\<lparr>mKind := Udfps,
              mSensorInfo := i\<lparr>si_name := ''UDFPS Sensor'', si_type := DEVICE_PRIVATE 1,
                si_typeAsString := ''org.lineageos.sensor.udfps'', si_maxRange := 2048,
                si_resolution := 1, si_power := 0, si_flags := or (si_flags i) (WAKE_UP fb)\<rparr>\<rparr>))"

definition SingleTapSensor_new :: "flag_bits \<Rightarrow> s32 \<Rightarrow> bool \<Rightarrow> bool \<Rightarrow> Sensor \<Rightarrow> Sensor" where
  "SingleTapSensor_new fb sensorHandle pipe_ok open_ok s0 =
     (let s = OneShotSensor_new fb sensorHandle s0; i = mSensorInfo s
      in open_files pipe_ok open_ok
           (s\<lparr>mKind := SingleTap,
              mSensorInfo := i\<lparr>si_name := ''Single Tap Sensor'', si_type := DEVICE_PRIVATE 2,
                si_typeAsString := ''org.lineageos.sensor.single_touch'', si_maxRange := 2048,
                si_resolution := 1, si_power := 0, si_flags := or (si_flags i) (WAKE_UP fb)\<rparr>\<rparr>))"

section \<open>Client calls\<close>

definition clamp :: "s32 \<Rightarrow> s32 \<Rightarrow> s32 \<Rightarrow> s32" where
  "clamp v lo hi = (if sint v < sint lo then lo else if sint hi < sint v then hi else v)"

definition Sensor_batch :: "s32 \<Rightarrow> Sensor \<Rightarrow> Sensor" where
  "Sensor_batch samplingPeriodNs s =
     (let p = clamp samplingPeriodNs (si_minDelay (mSensorInfo s) * 1000) (si_maxDelay (mSensorInfo s) * 1000)
      in if mSamplingPeriodNs s \<noteq> scast p then s\<lparr>mSamplingPeriodNs := scast p\<rparr> else s)"

definition OneShotSensor_batch :: "s32 \<Rightarrow> Sensor \<Rightarrow> Sensor" where
  "OneShotSensor_batch samplingPeriodNs s = s"

definition sensor_batch :: "s32 \<Rightarrow> Sensor \<Rightarrow> Sensor" where
  "sensor_batch samplingPeriodNs s = (if mKind s = BaseSensor then Sensor_batch samplingPeriodNs s else OneShotSensor_batch samplingPeriodNs s)"

definition UdfpsSensor_interruptPoll :: "Sensor \<Rightarrow> Sensor" where
  "UdfpsSensor_interruptPoll s = (if \<not> mWaitPipe s then s else s\<lparr>pipe_bytes := pipe_bytes s + 1\<rparr>)"

definition SingleTapSensor_interruptPoll :: "Sensor \<Rightarrow> Sensor" where
  "SingleTapSensor_interruptPoll s = (if \<not> mWaitPipe s then s else s\<lparr>pipe_bytes := pipe_bytes s + 1\<rparr>)"

definition Sensor_activate :: "bool \<Rightarrow> Sensor \<Rightarrow> Sensor" where
  "Sensor_activate enable s = (if mIsEnabled s \<noteq> enable then s\<lparr>mIsEnabled := enable\<rparr> else s)"

definition UdfpsSensor_activate :: "bool \<Rightarrow> Sensor \<Rightarrow> Sensor" where
  "UdfpsSensor_activate enable s =
     (if mIsEnabled s \<noteq> enable then UdfpsSensor_interruptPoll (s\<lparr>mIsEnabled := enable\<rparr>) else s)"

definition SingleTapSensor_activate :: "bool \<Rightarrow> Sensor \<Rightarrow> Sensor" where
  "SingleTapSensor_activate enable s =
     (if mIsEnabled s \<noteq> enable then SingleTapSensor_interruptPoll (s\<lparr>mIsEnabled := enable\<rparr>) else s)"

definition sensor_activate :: "bool \<Rightarrow> Sensor \<Rightarrow> Sensor" where
  "sensor_activate enable s =
     (case mKind s of Udfps \<Rightarrow> UdfpsSensor_activate enable s
      | SingleTap \<Rightarrow> SingleTapSensor_activate enable s
      | _ \<Rightarrow> Sensor_activate enable s)"

definition Sensor_setOperationMode :: "OperationMode \<Rightarrow> Sensor \<Rightarrow> Sensor" where
  "Sensor_setOperationMode mode s = (if mMode s \<noteq> mode then s\<lparr>mMode := mode\<rparr> else s)"

definition UdfpsSensor_setOperationMode :: "OperationMode \<Rightarrow> Sensor \<Rightarrow> Sensor" where
  "UdfpsSensor_setOperationMode mode s = UdfpsSensor_interruptPoll (Sensor_setOperationMode mode s)"

definition SingleTapSensor_setOperationMode :: "OperationMode \<Rightarrow> Sensor \<Rightarrow> Sensor" where
  "SingleTapSensor_setOperationMode mode s = SingleTapSensor_interruptPoll (Sensor_setOperationMode mode s)"

definition sensor_setOperationMode :: "OperationMode \<Rightarrow> Sensor \<Rightarrow> Sensor" where
  "sensor_setOperationMode mode s =
     (case mKind s of Udfps \<Rightarrow> UdfpsSensor_setOperationMode mode s
      | SingleTap \<Rightarrow> SingleTapSensor_setOperationMode mode s
      | _ \<Rightarrow> Sensor_setOperationMode mode s)"

definition isWakeUpSensor :: "flag_bits \<Rightarrow> Sensor \<Rightarrow> bool" where
  "isWakeUpSensor fb s = (and (si_flags (mSensorInfo s)) (WAKE_UP fb) \<noteq> 0)"

definition supportsDataInjection :: "flag_bits \<Rightarrow> Sensor \<Rightarrow> bool" where
  "supportsDataInjection fb s = (and (si_flags (mSensorInfo s)) (DATA_INJECTION_BIT fb) \<noteq> 0)"

text \<open>\<open>ev0\<close> is the uninitialised local event.\<close>

definition Sensor_flush :: "flag_bits \<Rightarrow> Event \<Rightarrow> Sensor \<Rightarrow> Result \<times> post list" where
  "Sensor_flush fb ev0 s =
     (if \<not> mIsEnabled s then (BAD_VALUE, [])
      else (OK, [([ev0\<lparr>ev_sensorHandle := si_sensorHandle (mSensorInfo s), ev_sensorType := META_DATA,
                      ev_u := Meta META_DATA_FLUSH_COMPLETE\<rparr>], isWakeUpSensor fb s)]))"

definition OneShotSensor_flush :: "Sensor \<Rightarrow> Result \<times> post list" where
  "OneShotSensor_flush s = (BAD_VALUE, [])"

lemma one_shot_simps [simp]: "OneShotSensor_batch samplingPeriodNs s = s" "OneShotSensor_flush s = (BAD_VALUE, [])"
  by (simp_all add: OneShotSensor_batch_def OneShotSensor_flush_def)

definition sensor_flush :: "flag_bits \<Rightarrow> Event \<Rightarrow> Sensor \<Rightarrow> Result \<times> post list" where
  "sensor_flush fb ev0 s = (if mKind s = BaseSensor then Sensor_flush fb ev0 s else OneShotSensor_flush s)"

definition injectEvent :: "flag_bits \<Rightarrow> Event \<Rightarrow> Sensor \<Rightarrow> Result \<times> post list" where
  "injectEvent fb event s =
     (if ev_sensorType event = ADDITIONAL_INFO then (OK, [])
      else if \<not> supportsDataInjection fb s then (INVALID_OPERATION, [])
      else if mMode s = DATA_INJECTION then (OK, [([event], isWakeUpSensor fb s)])
      else (BAD_VALUE, []))"

section \<open>Reading the touch controller\<close>

definition readBool :: "s32 \<Rightarrow> s32 \<times> char \<Rightarrow> bool" where
  "readBool seek_rc rd = (if seek_rc \<noteq> 0 then False else if fst rd \<noteq> 1 then False else snd rd \<noteq> CHR ''0'')"

text \<open>
  \<open>stack\<close> is what the 512 bytes of the uninitialised buffer hold behind the bytes read; a string ends
  at the first NUL. The coordinates are written as far as the conversion gets, whatever is returned.
\<close>

definition readFpState :: "s32 \<Rightarrow> s32 \<times> string \<Rightarrow> string \<Rightarrow> s32 \<times> s32 \<Rightarrow> bool \<times> s32 \<times> s32" where
  "readFpState seek_rc rd stack xy =
     (if seek_rc \<noteq> 0 then (False, xy)
      else if sint (fst rd) < 0 then (False, xy)
      else (case sscanf_ints 3 (takeWhile (\<lambda>c. c \<noteq> nul) (snd rd @ drop (length (snd rd)) stack)) of
              None \<Rightarrow> (False, xy)
            | Some vs \<Rightarrow>
                (0 < sint (if 3 \<le> length vs then word_of_int (vs ! 2) else 0 :: s32),
                 (if 1 \<le> length vs then word_of_int (vs ! 0) else fst xy),
                 (if 2 \<le> length vs then word_of_int (vs ! 1) else snd xy))))"

fun coordinate_lines :: "string list \<Rightarrow> u32 \<times> u32 \<Rightarrow> (u32 \<times> u32) outcome" where
  "coordinate_lines [] raw = Returns raw"
| "coordinate_lines (l # ls) raw =
     (if starts_with ''x:'' l
      then and_then (stoul16 (drop 2 l)) (\<lambda>v. coordinate_lines ls (ucast v, snd raw))
      else if starts_with ''y:'' l
      then and_then (stoul16 (drop 2 l)) (\<lambda>v. coordinate_lines ls (fst raw, ucast v))
      else coordinate_lines ls raw)"

definition readCoordinates :: "string option \<Rightarrow> (real \<times> real) outcome" where
  "readCoordinates file =
     (case file of
        None \<Rightarrow> Returns (0, 0)
      | Some text \<Rightarrow> and_then (coordinate_lines (file_lines text) (0, 0))
          (\<lambda>raw. Returns (to_float (uint (fst raw)), to_float (uint (snd raw)))))"

section \<open>The thread\<close>

text \<open>What a section observes: both clocks, the result of \<open>poll\<close> and what the files then read.\<close>

record run_env =
  realtime :: s64
  elapsedRealtimeNano :: s64
  poll_rc :: s32
  pipe_ready :: bool
  file_ready :: bool
  seek_rc :: s32
  read_state :: "s32 \<times> string"
  stack_bytes :: string
  read_char :: "s32 \<times> char"
  coordinate_file :: "string option"

definition sensor_event :: "run_env \<Rightarrow> event_payload \<Rightarrow> Sensor \<Rightarrow> Event" where
  "sensor_event e u s =
     \<lparr>ev_timestamp = elapsedRealtimeNano e, ev_sensorHandle = si_sensorHandle (mSensorInfo s),
      ev_sensorType = si_type (mSensorInfo s), ev_u = u\<rparr>"

definition Sensor_readEvents :: "run_env \<Rightarrow> Sensor \<Rightarrow> Event list" where
  "Sensor_readEvents e s = [sensor_event e (Vec3 0 0 0) s]"

definition UdfpsSensor_readEvents :: "run_env \<Rightarrow> Sensor \<Rightarrow> Event list" where
  "UdfpsSensor_readEvents e s = [sensor_event e (Data [to_float (sint (mScreenX s)), to_float (sint (mScreenY s))]) s]"

definition fillEventData :: "run_env \<Rightarrow> Event \<Rightarrow> Event outcome" where
  "fillEventData e event =
     and_then (readCoordinates (coordinate_file e)) (\<lambda>xy. Returns (event\<lparr>ev_u := Data [fst xy, snd xy]\<rparr>))"

text \<open>\<open>u0\<close>: the payload of the uninitialised local event, which \<open>fillEventData\<close> overwrites.\<close>

definition SingleTapSensor_readEvents :: "run_env \<Rightarrow> event_payload \<Rightarrow> Sensor \<Rightarrow> Event list outcome" where
  "SingleTapSensor_readEvents e u0 s = and_then (fillEventData e (sensor_event e u0 s)) (\<lambda>event. Returns [event])"

text \<open>\<open>readEvents\<close> is virtual too.\<close>

definition sensor_readEvents :: "run_env \<Rightarrow> Sensor \<Rightarrow> Event list outcome" where
  "sensor_readEvents e s =
     (case mKind s of Udfps \<Rightarrow> Returns (UdfpsSensor_readEvents e s)
      | SingleTap \<Rightarrow> SingleTapSensor_readEvents e (Data []) s
      | _ \<Rightarrow> Returns (Sensor_readEvents e s))"

definition idle :: "Sensor \<Rightarrow> bool" where
  "idle s = (\<not> mIsEnabled s \<or> mMode s = DATA_INJECTION)"

definition wait_over :: "Sensor \<Rightarrow> bool" where
  "wait_over s = (mIsEnabled s \<and> mMode s = NORMAL \<or> mStopThread s)"

text \<open>\<open>Sensor::run\<close> from the head of its loop to the next wait.\<close>

definition Sensor_run :: "flag_bits \<Rightarrow> run_env \<Rightarrow> Sensor \<Rightarrow> (Sensor \<times> post list) outcome" where
  "Sensor_run fb e s =
     (if mStopThread s then Returns (s\<lparr>mRunThread := Done\<rparr>, [])
      else if idle s then Returns (s\<lparr>mRunThread := InWait\<rparr>, [])
      else let now = realtime e;
               next_time = mLastSampleTimeNs s + mSamplingPeriodNs s
           in if sint next_time \<le> sint now
              then let s = s\<lparr>mLastSampleTimeNs := now\<rparr>;
                       next_time = mLastSampleTimeNs s + mSamplingPeriodNs s
                   in and_then (sensor_readEvents e s) (\<lambda>evs.
                        Returns (s\<lparr>mRunThread := InWaitFor (next_time - now)\<rparr>, [(evs, isWakeUpSensor fb s)]))
              else Returns (s\<lparr>mRunThread := InWaitFor (next_time - now)\<rparr>, []))"

text \<open>
  \<open>run\<close> of the two polling classes, each from the head of its loop to the next wait and from the
  return of \<open>poll\<close> to the next wait.
\<close>

definition UdfpsSensor_loop :: "Sensor \<Rightarrow> Sensor" where
  "UdfpsSensor_loop s =
     (if mStopThread s then s\<lparr>mRunThread := Done\<rparr>
      else if idle s then s\<lparr>mRunThread := InWait\<rparr>
      else s\<lparr>mRunThread := InPoll\<rparr>)"

definition UdfpsSensor_after_poll :: "flag_bits \<Rightarrow> run_env \<Rightarrow> Sensor \<Rightarrow> (Sensor \<times> post list) outcome" where
  "UdfpsSensor_after_poll fb e s =
     (if sint (poll_rc e) < 0 then Returns (UdfpsSensor_loop (s\<lparr>mStopThread := True\<rparr>), [])
      else let r = (if file_ready e then readFpState (seek_rc e) (read_state e) (stack_bytes e) (mScreenX s, mScreenY s)
                    else (False, mScreenX s, mScreenY s));
               s = s\<lparr>mScreenX := fst (snd r), mScreenY := snd (snd r)\<rparr>
      in if fst r
         then let s = s\<lparr>mIsEnabled := False\<rparr>
              in and_then (sensor_readEvents e s)
                   (\<lambda>evs. Returns (UdfpsSensor_loop s, [(evs, isWakeUpSensor fb s)]))
         else if pipe_ready e then Returns (UdfpsSensor_loop (s\<lparr>pipe_bytes := pipe_bytes s - 1\<rparr>), [])
         else Returns (UdfpsSensor_loop s, []))"

definition SingleTapSensor_loop :: "Sensor \<Rightarrow> Sensor" where
  "SingleTapSensor_loop s =
     (if mStopThread s then s\<lparr>mRunThread := Done\<rparr>
      else if idle s then s\<lparr>mRunThread := InWait\<rparr>
      else s\<lparr>mRunThread := InPoll\<rparr>)"

definition SingleTapSensor_after_poll :: "flag_bits \<Rightarrow> run_env \<Rightarrow> Sensor \<Rightarrow> (Sensor \<times> post list) outcome" where
  "SingleTapSensor_after_poll fb e s =
     (if sint (poll_rc e) < 0 then Returns (SingleTapSensor_loop (s\<lparr>mStopThread := True\<rparr>), [])
      else if file_ready e \<and> readBool (seek_rc e) (read_char e)
         then let s = s\<lparr>mIsEnabled := False\<rparr>
              in and_then (sensor_readEvents e s)
                   (\<lambda>evs. Returns (SingleTapSensor_loop s, [(evs, isWakeUpSensor fb s)]))
         else if pipe_ready e then Returns (SingleTapSensor_loop (s\<lparr>pipe_bytes := pipe_bytes s - 1\<rparr>), [])
         else Returns (SingleTapSensor_loop s, []))"

text \<open>\<open>run\<close> is virtual; only the two polling classes call \<open>poll\<close>.\<close>

definition loop_head :: "flag_bits \<Rightarrow> run_env \<Rightarrow> Sensor \<Rightarrow> (Sensor \<times> post list) outcome" where
  "loop_head fb e s =
     (case mRunAs s of Udfps \<Rightarrow> Returns (UdfpsSensor_loop s, [])
      | SingleTap \<Rightarrow> Returns (SingleTapSensor_loop s, [])
      | _ \<Rightarrow> Sensor_run fb e s)"

definition after_poll :: "flag_bits \<Rightarrow> run_env \<Rightarrow> Sensor \<Rightarrow> (Sensor \<times> post list) outcome" where
  "after_poll fb e s =
     (if mRunAs s = Udfps then UdfpsSensor_after_poll fb e s else SingleTapSensor_after_poll fb e s)"

definition sensor_resume :: "flag_bits \<Rightarrow> run_env \<Rightarrow> Sensor \<Rightarrow> (Sensor \<times> post list) outcome" where
  "sensor_resume fb e s =
     (case mRunThread s of
        Done \<Rightarrow> Returns (s, [])
      | AtLoop \<Rightarrow> loop_head fb e s
      | InWait \<Rightarrow> if wait_over s then loop_head fb e s else Returns (s, [])
      | InWaitFor d \<Rightarrow> loop_head fb e s
      | InPoll \<Rightarrow> after_poll fb e s)"

section \<open>Destruction\<close>

text \<open>
  The derived destructor interrupts \<open>poll\<close> first; only then does the base destructor stop the
  thread and join it. The thread may run sections between the two.
\<close>

definition UdfpsSensor_destroy :: "Sensor \<Rightarrow> Sensor" where
  "UdfpsSensor_destroy s = UdfpsSensor_interruptPoll s"

definition SingleTapSensor_destroy :: "Sensor \<Rightarrow> Sensor" where
  "SingleTapSensor_destroy s = SingleTapSensor_interruptPoll s"

definition derived_destroy :: "Sensor \<Rightarrow> Sensor" where
  "derived_destroy s =
     (case mKind s of Udfps \<Rightarrow> UdfpsSensor_destroy s | SingleTap \<Rightarrow> SingleTapSensor_destroy s | _ \<Rightarrow> s)"

definition Sensor_destroy :: "Sensor \<Rightarrow> Sensor" where
  "Sensor_destroy s = s\<lparr>mStopThread := True, mIsEnabled := False\<rparr>"

section \<open>The polling classes as one\<close>

text \<open>
  The two classes were written twice. The lemmas here describe both at once, for the proofs that do not
  care which of them a sensor is.
\<close>

definition polls :: "sensor_kind \<Rightarrow> bool" where
  "polls k = (k = Udfps \<or> k = SingleTap)"

lemma tap_as_udfps [simp]:
  "SingleTapSensor_interruptPoll = UdfpsSensor_interruptPoll" "SingleTapSensor_loop = UdfpsSensor_loop"
  "SingleTapSensor_activate = UdfpsSensor_activate" "SingleTapSensor_setOperationMode = UdfpsSensor_setOperationMode"
  "SingleTapSensor_destroy = UdfpsSensor_destroy"
  by (simp_all add: fun_eq_iff SingleTapSensor_interruptPoll_def UdfpsSensor_interruptPoll_def SingleTapSensor_loop_def
      UdfpsSensor_loop_def SingleTapSensor_activate_def UdfpsSensor_activate_def SingleTapSensor_setOperationMode_def
      UdfpsSensor_setOperationMode_def SingleTapSensor_destroy_def UdfpsSensor_destroy_def)

lemma activate_polls:
  "sensor_activate enable s =
     (if mIsEnabled s \<noteq> enable
      then if polls (mKind s) then UdfpsSensor_interruptPoll (s\<lparr>mIsEnabled := enable\<rparr>) else s\<lparr>mIsEnabled := enable\<rparr>
      else s)"
  by (simp add: sensor_activate_def UdfpsSensor_activate_def Sensor_activate_def polls_def split: sensor_kind.split)

lemma setOperationMode_polls:
  "sensor_setOperationMode mode s =
     (if polls (mKind s) then UdfpsSensor_interruptPoll (Sensor_setOperationMode mode s)
      else Sensor_setOperationMode mode s)"
  by (simp add: sensor_setOperationMode_def UdfpsSensor_setOperationMode_def polls_def split: sensor_kind.split)

lemma destroy_polls: "derived_destroy s = (if polls (mKind s) then UdfpsSensor_interruptPoll s else s)"
  by (simp add: derived_destroy_def UdfpsSensor_destroy_def polls_def split: sensor_kind.split)

lemma loop_head_polls:
  "loop_head fb e s = (if polls (mRunAs s) then Returns (UdfpsSensor_loop s, []) else Sensor_run fb e s)"
  by (simp add: loop_head_def polls_def split: sensor_kind.split)

definition read_trigger :: "run_env \<Rightarrow> Sensor \<Rightarrow> bool \<times> Sensor" where
  "read_trigger e s =
     (if mRunAs s = Udfps
      then let r = readFpState (seek_rc e) (read_state e) (stack_bytes e) (mScreenX s, mScreenY s)
           in (fst r, s\<lparr>mScreenX := fst (snd r), mScreenY := snd (snd r)\<rparr>)
      else (readBool (seek_rc e) (read_char e), s))"

lemma after_poll_polls:
  "after_poll fb e s =
     (if sint (poll_rc e) < 0 then Returns (UdfpsSensor_loop (s\<lparr>mStopThread := True\<rparr>), [])
      else let r = (if file_ready e then read_trigger e s else (False, s))
           in if fst r
              then let s = (snd r)\<lparr>mIsEnabled := False\<rparr>
                   in and_then (sensor_readEvents e s)
                        (\<lambda>evs. Returns (UdfpsSensor_loop s, [(evs, isWakeUpSensor fb s)]))
              else if pipe_ready e then Returns (UdfpsSensor_loop ((snd r)\<lparr>pipe_bytes := pipe_bytes (snd r) - 1\<rparr>), [])
              else Returns (UdfpsSensor_loop (snd r), []))"
  by (cases s) (simp add: after_poll_def UdfpsSensor_after_poll_def SingleTapSensor_after_poll_def read_trigger_def Let_def)

end
