(* ===== verification/Sensor_Props.thy ===== *)
theory Sensor_Props
  imports Sensor_Device
begin

text \<open>
  What the sensors of the sub-HAL guarantee: the exact reading of the touch controller's state, at
  most one event per activation, what a polling section posts, and how destruction ends the thread.
\<close>

section \<open>Reading the state\<close>

definition fp_state_text :: "int \<Rightarrow> int \<Rightarrow> int \<Rightarrow> string" where
  "fp_state_text x y st = decimal x @ CHR '','' # decimal y @ CHR '','' # decimal st"

lemma decimal_no_nul: "c \<in> set (decimal i) \<Longrightarrow> c \<noteq> nul"
proof -
  assume "c \<in> set (decimal i)"
  then have "c = CHR ''-'' \<or> is_digit 10 c"
    using decimal_nat_is_digit by (auto simp: decimal_def split: if_splits)
  then show ?thesis
    by (auto simp: is_digit_def digit_val_def)
qed

lemma scan_fp_state:
  assumes "stops 10 rest" and "\<forall>c cs. rest = c # cs \<longrightarrow> c \<noteq> CHR '','' "
  shows "sscanf_ints 3 (fp_state_text x y st @ rest) = Some [x, y, st]"
proof -
  have "scan_ints 3 (fp_state_text x y st @ rest) = [x, y, st]"
    using scan_decimal_comma [of 2 x "decimal y @ CHR '','' # decimal st @ rest"]
      scan_decimal_comma [of 1 y "decimal st @ rest"] scan_decimal_last [OF assms, of 0 st]
    by (simp add: fp_state_text_def numeral_3_eq_3 numeral_2_eq_2 del: scan_ints.simps)
  then show ?thesis
    using sscanf_decimal [of 3 x "CHR '','' # decimal y @ CHR '','' # decimal st @ rest"]
    by (simp add: fp_state_text_def)
qed

lemma takeWhile_no_nul:
  "takeWhile (\<lambda>c. c \<noteq> nul) (fp_state_text x y st @ newline # rest)
   = fp_state_text x y st @ newline # takeWhile (\<lambda>c. c \<noteq> nul) rest"
proof -
  have "\<forall>c \<in> set (fp_state_text x y st). c \<noteq> nul"
    using decimal_no_nul by (auto simp: fp_state_text_def)
  then show ?thesis
    by (subst takeWhile_append2) auto
qed

text \<open>
  C35: A state line the touch driver ends with a newline is read exactly: the coordinates and whether
  the finger is down do not depend on what the uninitialised rest of the buffer holds. Without the
  newline they do: the same line is read as no finger or as a finger.
\<close>

theorem fp_state_exact:
  fixes x y st :: s32
  assumes "0 \<le> sint rc"
  shows "readFpState 0 (rc, fp_state_text (sint x) (sint y) (sint st) @ newline # rest) stack xy
      = (0 < sint st, x, y)
    \<and> readFpState 0 (rc, fp_state_text 5 6 0) ''XXXXX'' xy = (False, 5, 6)
    \<and> readFpState 0 (rc, fp_state_text 5 6 0) ''XXXXX1'' xy = (True, 5, 6)"
proof -
  have a: "sscanf_ints 3 (fp_state_text (sint x) (sint y) (sint st) @ newline # r)
      = Some [sint x, sint y, sint st]" for r
    by (rule scan_fp_state) simp_all
  have "fp_state_text 5 6 0 = ''5,6,0''"
    by (simp add: fp_state_text_def decimal_def decimal_nat.simps digit_char_def char_of_def bit_0)
  then show ?thesis
    using assms a
    by (simp add: readFpState_def takeWhile_no_nul sscanf_ints_def numeral_3_eq_3 strto_def sign_split_def
        skip_0x_def c_space_def is_digit_def digit_val_def number_def signed_value_def Let_def)
qed

theorem fp_state_exact_witness:
  "readFpState 0 (10, fp_state_text (sint (540 :: s32)) (sint (1900 :: s32)) (sint (1 :: s32)) @ [newline])
     ''garbage'' (0, 0) = (True, 540, 1900)"
  using fp_state_exact [of "10 :: s32" 540 1900 1 "[]" "''garbage''" "(0, 0)"] by simp

section \<open>One event per activation\<close>

datatype sensor_op = Activate bool | SetMode OperationMode | Inject Event | Section run_env

fun sensor_step :: "flag_bits \<Rightarrow> sensor_op \<Rightarrow> Sensor \<Rightarrow> (Sensor \<times> post list) outcome" where
  "sensor_step fb (Activate b) s = Returns (sensor_activate b s, [])"
| "sensor_step fb (SetMode m) s = Returns (sensor_setOperationMode m s, [])"
| "sensor_step fb (Inject ev) s = Returns (s, snd (injectEvent fb ev s))"
| "sensor_step fb (Section e) s = sensor_resume fb e s"

fun switches_on :: "sensor_op \<Rightarrow> Sensor \<Rightarrow> bool" where
  "switches_on (Activate b) s = (b \<and> \<not> mIsEnabled s)"
| "switches_on _ s = False"

text \<open>
  \<open>sensor_life fb s n p\<close>: a polling sensor, whose thread found its own \<open>run\<close>, can be in state \<open>s\<close>
  after \<open>n\<close> calls switched it on and \<open>p\<close> posts.
\<close>

inductive sensor_life :: "flag_bits \<Rightarrow> Sensor \<Rightarrow> nat \<Rightarrow> nat \<Rightarrow> bool" for fb where
  udfps: "mRunAs s0 = Udfps \<Longrightarrow> sensor_life fb (UdfpsSensor_new fb h pipe_ok open_ok s0) 0 0"
| single_tap: "mRunAs s0 = SingleTap \<Longrightarrow> sensor_life fb (SingleTapSensor_new fb h pipe_ok open_ok s0) 0 0"
| step: "sensor_life fb s n p \<Longrightarrow> sensor_step fb op s = Returns (s', posts) \<Longrightarrow>
    sensor_life fb s' (n + (if switches_on op s then 1 else 0)) (p + length posts)"

lemmas sensor_new_defs = UdfpsSensor_new_def SingleTapSensor_new_def OneShotSensor_new_def Sensor_new_def
  open_files_def

lemmas sensor_op_defs = activate_polls setOperationMode_polls Sensor_setOperationMode_def
  UdfpsSensor_interruptPoll_def

definition polling :: "flag_bits \<Rightarrow> Sensor \<Rightarrow> bool" where
  "polling fb s \<longleftrightarrow> polls (mKind s) \<and> polls (mRunAs s) \<and> \<not> supportsDataInjection fb s"

definition armed :: "Sensor \<Rightarrow> nat" where
  "armed s = (if mIsEnabled s \<or> mRunThread s = InPoll then 1 else 0)"

lemma poll_loop_frame [simp]:
  "mKind (UdfpsSensor_loop s) = mKind s" "mRunAs (UdfpsSensor_loop s) = mRunAs s" "mSensorInfo (UdfpsSensor_loop s) = mSensorInfo s"
  "mIsEnabled (UdfpsSensor_loop s) = mIsEnabled s"
  by (simp_all add: UdfpsSensor_loop_def)

lemma poll_loop_polls: "mRunThread (UdfpsSensor_loop s) = InPoll \<longleftrightarrow> \<not> mStopThread s \<and> \<not> idle s"
  by (simp add: UdfpsSensor_loop_def)

lemma read_trigger_frame [simp]:
  "mKind (snd (read_trigger e s)) = mKind s" "mRunAs (snd (read_trigger e s)) = mRunAs s"
  "mSensorInfo (snd (read_trigger e s)) = mSensorInfo s" "mIsEnabled (snd (read_trigger e s)) = mIsEnabled s"
  "mMode (snd (read_trigger e s)) = mMode s" "mStopThread (snd (read_trigger e s)) = mStopThread s"
  by (simp_all add: read_trigger_def Let_def)

text \<open>What one section of a polling thread does.\<close>

lemma polling_section:
  assumes "polls (mRunAs s)" and "sensor_resume fb e s = Returns (s', posts)"
  shows "mKind s' = mKind s \<and> mRunAs s' = mRunAs s \<and> mSensorInfo s' = mSensorInfo s
    \<and> length posts + armed s' \<le> armed s"
  using assms
  by (cases "mRunThread s")
    (auto simp: sensor_resume_def loop_head_polls after_poll_polls armed_def idle_def poll_loop_polls Let_def
      split: if_splits prod.splits)

lemma polling_step:
  assumes "polling fb s" and "sensor_step fb op s = Returns (s', posts)"
  shows "polling fb s' \<and> length posts + armed s' \<le> armed s + (if switches_on op s then 1 else 0)"
proof (cases op)
  case (Section e)
  then show ?thesis
    using assms polling_section [of s fb e s' posts] by (auto simp: polling_def supportsDataInjection_def)
qed (use assms in \<open>auto simp: polling_def supportsDataInjection_def sensor_op_defs injectEvent_def armed_def Let_def
    split: if_splits\<close>)

lemma new_polling:
  assumes "flags_ok fb"
  shows "mRunAs s0 = Udfps \<Longrightarrow> polling fb (UdfpsSensor_new fb h pipe_ok open_ok s0)"
    and "mRunAs s0 = SingleTap \<Longrightarrow> polling fb (SingleTapSensor_new fb h pipe_ok open_ok s0)"
  using assms
  by (auto simp: polling_def polls_def sensor_new_defs supportsDataInjection_def flags_ok_def Let_def
      bit.conj_disj_distrib2)

lemma life_armed:
  assumes "flags_ok fb" and "sensor_life fb s n p"
  shows "polling fb s \<and> p + armed s \<le> n"
  using assms(2)
proof (induction rule: sensor_life.induct)
  case (step s n p op s' posts)
  then show ?case using polling_step [of fb s op s' posts] by auto
qed (use new_polling [OF assms(1)] in \<open>auto simp: armed_def sensor_new_defs Let_def\<close>)

text \<open>
  C18: A polling sensor posts at most one batch of events per activation: in every state its life can
  reach, over any interleaving of client calls and sections of its thread, the posts so far are no
  more than the calls that switched it on, and strictly fewer while it is switched on.
\<close>

theorem one_post_per_activation:
  assumes "flags_ok fb" and "sensor_life fb s n p"
  shows "p \<le> n \<and> (mIsEnabled s \<longrightarrow> p < n)"
  using life_armed [OF assms] by (auto simp: armed_def)

definition blank_sensor :: "sensor_kind \<Rightarrow> Sensor" where
  "blank_sensor k =
     \<lparr>mIsEnabled = False, mSamplingPeriodNs = 0, mLastSampleTimeNs = 0,
      mSensorInfo = \<lparr>si_sensorHandle = 0, si_name = '''', si_vendor = '''', si_version = 0,
        si_type = SENSOR_TYPE 0, si_typeAsString = '''', si_maxRange = 0, si_resolution = 0, si_power = 0,
        si_minDelay = 0, si_fifoReservedEventCount = 0, si_fifoMaxEventCount = 0,
        si_requiredPermission = '''', si_maxDelay = 0, si_flags = 0\<rparr>,
      mStopThread = False, mMode = NORMAL, mKind = BaseSensor, mRunAs = k, mRunThread = AtLoop,
      mWaitPipe = False, pipe_bytes = 0, mScreenX = 0, mScreenY = 0\<rparr>"

text \<open>A section in which \<open>poll\<close> finds the file ready and the controller reports a finger.\<close>

definition touch_env :: run_env where
  "touch_env = \<lparr>realtime = 0, elapsedRealtimeNano = 7, poll_rc = 1, pipe_ready = True, file_ready = True,
     seek_rc = 0, read_state = (10, ''540,1900,1''), stack_bytes = '''', read_char = (1, CHR ''1''),
     coordinate_file = None\<rparr>"

theorem one_post_per_activation_witness:
  "\<exists>s p. sensor_life platform_flags s 1 p \<and> mIsEnabled s \<and> p < 1"
proof -
  let ?s = "UdfpsSensor_new platform_flags 1 True True (blank_sensor Udfps)"
  have "sensor_life platform_flags ?s 0 0"
    by (rule sensor_life.udfps) (simp add: blank_sensor_def)
  then have "sensor_life platform_flags (sensor_activate True ?s)
      (0 + (if switches_on (Activate True) ?s then 1 else 0)) (0 + length ([] :: post list))"
    by (rule sensor_life.step) simp
  moreover have "switches_on (Activate True) ?s" "mIsEnabled (sensor_activate True ?s)"
    by (simp_all add: sensor_new_defs sensor_op_defs Let_def)
  ultimately have "sensor_life platform_flags (sensor_activate True ?s) 1 0"
    by simp
  with one_post_per_activation [OF platform_flags_ok this] show ?thesis
    using \<open>mIsEnabled (sensor_activate True ?s)\<close> by blast
qed

text \<open>What any section of any sensor posts: one event of that sensor, with its wakeup flag.\<close>

lemma readEvents_sensor:
  "sensor_readEvents e s = Returns evs \<Longrightarrow> \<exists>ev. evs = [ev] \<and> ev_sensorHandle ev = si_sensorHandle (mSensorInfo s)"
  by (auto simp: sensor_readEvents_def UdfpsSensor_readEvents_def SingleTapSensor_readEvents_def fillEventData_def
      Sensor_readEvents_def sensor_event_def split: sensor_kind.splits)

lemma section_post:
  assumes "sensor_resume fb e s = Returns (s', posts)" and "(evs, w) \<in> set posts"
  shows "w = isWakeUpSensor fb s \<and> (\<exists>ev. evs = [ev] \<and> ev_sensorHandle ev = si_sensorHandle (mSensorInfo s))"
  using assms
  by (cases "mRunThread s")
    (auto simp: sensor_resume_def loop_head_polls Sensor_run_def after_poll_polls isWakeUpSensor_def Let_def
      dest!: readEvents_sensor split: if_splits)

text \<open>
  Whether a section of a polling thread posts depends on what it polled and read alone, not on
  whether the sensor is still enabled: an event that arrives together with the deactivation is
  posted although \<open>activate(false)\<close> has returned, and so is one that arrives in data injection mode.
\<close>

theorem poll_posts_after_deactivation:
  assumes "mRunThread s = InPoll" and "mRunAs s = Udfps" and "mKind s = Udfps"
    and "0 \<le> sint (poll_rc e)"
    and "file_ready e" and "fst (readFpState (seek_rc e) (read_state e) (stack_bytes e) (mScreenX s, mScreenY s))"
  shows "\<exists>s' ev. sensor_resume fb e (sensor_setOperationMode DATA_INJECTION (sensor_activate False s))
      = Returns (s', [([ev], isWakeUpSensor fb s)]) \<and> \<not> mIsEnabled s'
    \<and> ev_sensorHandle ev = si_sensorHandle (mSensorInfo s)"
  using assms
  by (auto simp: sensor_resume_def after_poll_polls read_trigger_def sensor_op_defs polls_def sensor_readEvents_def
      UdfpsSensor_readEvents_def sensor_event_def isWakeUpSensor_def Let_def)

theorem poll_posts_after_deactivation_witness:
  "\<exists>s' ev w. sensor_resume platform_flags touch_env
     (sensor_setOperationMode DATA_INJECTION (sensor_activate False
        ((blank_sensor Udfps)\<lparr>mKind := Udfps, mIsEnabled := True, mRunThread := InPoll\<rparr>)))
     = Returns (s', [([ev], w)]) \<and> \<not> mIsEnabled s'"
proof -
  have "sscanf_ints 3 ''540,1900,1'' = Some [540, 1900, 1]"
    by (simp add: sscanf_ints_def numeral_3_eq_3 strto_def sign_split_def
        skip_0x_def c_space_def is_digit_def digit_val_def number_def signed_value_def Let_def)
  then have "fst (readFpState 0 (10, ''540,1900,1'') '''' xy)" for xy
    by (simp add: readFpState_def)
  then show ?thesis
    using poll_posts_after_deactivation
      [of "(blank_sensor Udfps)\<lparr>mKind := Udfps, mIsEnabled := True, mRunThread := InPoll\<rparr>" touch_env
        platform_flags]
    by (fastforce simp: blank_sensor_def touch_env_def)
qed

section \<open>Destruction\<close>

text \<open>
  Destroying a polling sensor ends its thread only when no section runs between the two
  destructors: then the byte in the pipe makes \<open>poll\<close> return, and the next section ends. A section
  that consumes that byte in between goes back into \<open>poll\<close>, with the pipe empty: the base
  destructor stops nothing that sleeps there, and its \<open>join\<close> waits for the next touch.
\<close>

theorem destroy_polling_sensor:
  assumes "mRunThread s = InPoll" and "polls (mRunAs s)" and "polls (mKind s)" and "mWaitPipe s"
    and "\<not> file_ready e" and "0 \<le> sint (poll_rc e)" and "pipe_ready e"
  shows "0 < pipe_bytes (Sensor_destroy (derived_destroy s))
    \<and> (\<exists>s'. sensor_resume fb e (Sensor_destroy (derived_destroy s)) = Returns (s', []) \<and> mRunThread s' = Done)
    \<and> (pipe_bytes s = 0 \<longrightarrow> mIsEnabled s \<longrightarrow> mMode s = NORMAL \<longrightarrow> \<not> mStopThread s \<longrightarrow>
        (\<exists>s'. sensor_resume fb e (derived_destroy s) = Returns (s', [])
          \<and> mRunThread (Sensor_destroy s') = InPoll \<and> pipe_bytes (Sensor_destroy s') = 0))"
  using assms
  by (auto simp: Sensor_destroy_def destroy_polls UdfpsSensor_interruptPoll_def sensor_resume_def after_poll_polls
      UdfpsSensor_loop_def idle_def)

definition interrupted_env :: run_env where
  "interrupted_env = touch_env\<lparr>file_ready := False\<rparr>"

theorem destroy_polling_sensor_witness:
  "let s = (blank_sensor Udfps)\<lparr>mKind := Udfps, mIsEnabled := True, mRunThread := InPoll, mWaitPipe := True\<rparr>
   in (\<exists>s'. sensor_resume platform_flags interrupted_env (Sensor_destroy (derived_destroy s)) = Returns (s', [])
         \<and> mRunThread s' = Done)
    \<and> (\<exists>s'. sensor_resume platform_flags interrupted_env (derived_destroy s) = Returns (s', [])
         \<and> mRunThread (Sensor_destroy s') = InPoll \<and> pipe_bytes (Sensor_destroy s') = 0)"
  using destroy_polling_sensor
    [of "(blank_sensor Udfps)\<lparr>mKind := Udfps, mIsEnabled := True, mRunThread := InPoll, mWaitPipe := True\<rparr>"
      interrupted_env platform_flags]
  by (simp add: blank_sensor_def interrupted_env_def touch_env_def polls_def)

end
