(* ===== verification/Sub_Hal.thy ===== *)
theory Sub_Hal
  imports Sensor_Props "HOL-Library.RBT"
begin

text \<open>
  The sub-HAL of the device: \<open>sensors/SensorsSubHal.cpp\<close> and \<open>sensors/SensorsSubHal.h\<close>. Its
  \<open>std::map\<close> from handles to sensors is a red-black tree over the signed value of the handle, so that
  iteration follows the key order. The locale \<open>sub_hal\<close> states what a proxy relies on.
\<close>

section \<open>State\<close>

record SensorsSubHal =
  shSensors :: "(int, Sensor) rbt"
  shCallback :: bool
  shCurrentOperationMode :: OperationMode
  mNextHandle :: s32

text \<open>\<open>build\<close> is the constructor of the sensor class, \<open>make_shared\<close> in the code.\<close>

definition AddSensor :: "(s32 \<Rightarrow> Sensor) \<Rightarrow> SensorsSubHal \<Rightarrow> SensorsSubHal" where
  "AddSensor build h =
     (let sensor = build (mNextHandle h)
      in h\<lparr>mNextHandle := mNextHandle h + 1,
           shSensors := RBT.insert (sint (si_sensorHandle (mSensorInfo sensor))) sensor (shSensors h)\<rparr>)"

text \<open>For each of the two sensors: whether its pipe and file open, and the memory it is built in.\<close>

definition SensorsSubHal_new :: "flag_bits \<Rightarrow> bool \<times> bool \<times> Sensor \<Rightarrow> bool \<times> bool \<times> Sensor \<Rightarrow> SensorsSubHal" where
  "SensorsSubHal_new fb u t =
     AddSensor (\<lambda>h. SingleTapSensor_new fb h (fst t) (fst (snd t)) (snd (snd t)))
       (AddSensor (\<lambda>h. UdfpsSensor_new fb h (fst u) (fst (snd u)) (snd (snd u)))
         \<lparr>shSensors = RBT.empty, shCallback = False, shCurrentOperationMode = NORMAL, mNextHandle = 1\<rparr>)"

section \<open>Operations\<close>

definition SensorsSubHal_getSensorsList :: "SensorsSubHal \<Rightarrow> SensorInfo list" where
  "SensorsSubHal_getSensorsList h = map (\<lambda>e. mSensorInfo (snd e)) (RBT.entries (shSensors h))"

definition SensorsSubHal_setOperationMode :: "OperationMode \<Rightarrow> SensorsSubHal \<Rightarrow> Result \<times> SensorsSubHal" where
  "SensorsSubHal_setOperationMode mode h =
     (OK, h\<lparr>shSensors := RBT.map (\<lambda>_. sensor_setOperationMode mode) (shSensors h),
            shCurrentOperationMode := mode\<rparr>)"

definition SensorsSubHal_getOperationMode :: "SensorsSubHal \<Rightarrow> OperationMode" where
  "SensorsSubHal_getOperationMode h = shCurrentOperationMode h"

text \<open>The sensor behind the handle changes in place; \<open>BAD_VALUE\<close> when there is none.\<close>

definition with_sensor ::
  "s32 \<Rightarrow> (Sensor \<Rightarrow> Sensor) \<Rightarrow> SensorsSubHal \<Rightarrow> Result \<times> SensorsSubHal" where
  "with_sensor sensorHandle f h =
     (case RBT.lookup (shSensors h) (sint sensorHandle) of
        Some sensor \<Rightarrow> (OK, h\<lparr>shSensors := RBT.insert (sint sensorHandle) (f sensor) (shSensors h)\<rparr>)
      | None \<Rightarrow> (BAD_VALUE, h))"

definition SensorsSubHal_activate :: "s32 \<Rightarrow> bool \<Rightarrow> SensorsSubHal \<Rightarrow> Result \<times> SensorsSubHal" where
  "SensorsSubHal_activate sensorHandle enabled = with_sensor sensorHandle (sensor_activate enabled)"

text \<open>The period narrows from 64 to 32 bits on its way to \<open>Sensor::batch\<close>.\<close>

definition SensorsSubHal_batch :: "s32 \<Rightarrow> s64 \<Rightarrow> s64 \<Rightarrow> SensorsSubHal \<Rightarrow> Result \<times> SensorsSubHal" where
  "SensorsSubHal_batch sensorHandle samplingPeriodNs maxReportLatencyNs =
     with_sensor sensorHandle (sensor_batch (ucast samplingPeriodNs))"

definition SensorsSubHal_flush :: "flag_bits \<Rightarrow> Event \<Rightarrow> s32 \<Rightarrow> SensorsSubHal \<Rightarrow> Result \<times> post list" where
  "SensorsSubHal_flush fb ev0 sensorHandle h =
     (case RBT.lookup (shSensors h) (sint sensorHandle) of
        Some sensor \<Rightarrow> sensor_flush fb ev0 sensor
      | None \<Rightarrow> (BAD_VALUE, []))"

definition SensorsSubHal_injectSensorData :: "flag_bits \<Rightarrow> Event \<Rightarrow> SensorsSubHal \<Rightarrow> Result \<times> post list" where
  "SensorsSubHal_injectSensorData fb event h =
     (case RBT.lookup (shSensors h) (sint (ev_sensorHandle event)) of
        Some sensor \<Rightarrow> injectEvent fb event sensor
      | None \<Rightarrow> (BAD_VALUE, []))"

definition SensorsSubHal_registerDirectChannel :: "SensorsSubHal \<Rightarrow> Result \<times> s32" where
  "SensorsSubHal_registerDirectChannel h = (INVALID_OPERATION, - 1)"

definition SensorsSubHal_unregisterDirectChannel :: "s32 \<Rightarrow> SensorsSubHal \<Rightarrow> Result" where
  "SensorsSubHal_unregisterDirectChannel channelHandle h = INVALID_OPERATION"

definition SensorsSubHal_configDirectReport :: "s32 \<Rightarrow> s32 \<Rightarrow> SensorsSubHal \<Rightarrow> Result \<times> s32" where
  "SensorsSubHal_configDirectReport sensorHandle channelHandle h = (INVALID_OPERATION, 0)"

definition SensorsSubHal_initialize :: "SensorsSubHal \<Rightarrow> Result \<times> SensorsSubHal" where
  "SensorsSubHal_initialize h =
     (OK, snd (SensorsSubHal_setOperationMode NORMAL (h\<lparr>shCallback := True\<rparr>)))"

text \<open>
  The calls of the proxy's callback: the wakelock is created, locked when \<open>wakeup\<close> says so, and
  goes with the events. Before \<open>initialize\<close> the callback is a null pointer.
\<close>

definition SensorsSubHal_postEvents :: "post \<Rightarrow> SensorsSubHal \<Rightarrow> post outcome" where
  "SensorsSubHal_postEvents p h = (if shCallback h then Returns p else Undefined_behaviour)"

section \<open>What a proxy relies on\<close>

text \<open>
  A sub-HAL has a mode: a request that succeeds sets it, one that fails leaves it, and a mode just
  left can be returned to.
\<close>

locale sub_hal =
  fixes set_mode :: "OperationMode \<Rightarrow> 's \<Rightarrow> Result \<times> 's" and mode_of :: "'s \<Rightarrow> OperationMode"
  assumes ok_sets: "set_mode m s = (OK, s') \<Longrightarrow> mode_of s' = m"
    and fail_keeps: "set_mode m s = (r, s') \<Longrightarrow> r \<noteq> OK \<Longrightarrow> mode_of s' = mode_of s"
    and undo: "set_mode m s = (OK, s') \<Longrightarrow> \<exists>s''. set_mode (mode_of s) s' = (OK, s'')"
begin

lemma undo_mode: "set_mode m s = (OK, s') \<Longrightarrow> mode_of (snd (set_mode (mode_of s) s')) = mode_of s"
  using undo [of m s s'] ok_sets by fastforce

lemma mode_after: "mode_of (snd (set_mode m s)) = (if fst (set_mode m s) = OK then m else mode_of s)"
proof (cases "set_mode m s")
  case (Pair r s')
  then show ?thesis using ok_sets fail_keeps by (cases "r = OK") auto
qed

end

interpretation sh: sub_hal SensorsSubHal_setOperationMode shCurrentOperationMode
  by unfold_locales (auto simp: SensorsSubHal_setOperationMode_def)

section \<open>The modes of the sensors\<close>

text \<open>Every sensor of the sub-HAL is in its mode.\<close>

definition modes_agree :: "SensorsSubHal \<Rightarrow> bool" where
  "modes_agree h \<longleftrightarrow> (\<forall>k sensor. RBT.lookup (shSensors h) k = Some sensor \<longrightarrow> mMode sensor = shCurrentOperationMode h)"

lemma sensor_mode_simps [simp]:
  "mMode (sensor_setOperationMode m s) = m"
  "mMode (sensor_activate b s) = mMode s"
  "mMode (sensor_batch p s) = mMode s"
  by (auto simp: sensor_op_defs sensor_batch_def Sensor_batch_def Let_def)

lemma modes_agree_set: "modes_agree (snd (SensorsSubHal_setOperationMode m h))"
  by (auto simp: modes_agree_def SensorsSubHal_setOperationMode_def)

lemma modes_agree_with_sensor:
  assumes "modes_agree h" and "\<And>s. mMode (f s) = mMode s"
  shows "modes_agree (snd (with_sensor sensorHandle f h))"
  using assms by (auto simp: modes_agree_def with_sensor_def split: option.split)

lemma modes_agree_new: "modes_agree (SensorsSubHal_new fb u t)"
  by (auto simp: modes_agree_def SensorsSubHal_new_def AddSensor_def sensor_new_defs Let_def split: if_splits)

text \<open>
  The requests of the interface. The last six answer and may post events, but have no effect on the
  object: their models do not return one.
\<close>

datatype sub_hal_op =
    SetOperationMode OperationMode | ActivateSensor s32 bool | BatchSensor s32 s64 s64 | Initialize
  | GetSensorsList | FlushSensor s32 | InjectSensorData Event
  | RegisterDirectChannel | UnregisterDirectChannel s32 | ConfigDirectReport s32 s32

fun sub_hal_apply :: "sub_hal_op \<Rightarrow> SensorsSubHal \<Rightarrow> SensorsSubHal" where
  "sub_hal_apply (SetOperationMode m) h = snd (SensorsSubHal_setOperationMode m h)"
| "sub_hal_apply (ActivateSensor sensorHandle b) h = snd (SensorsSubHal_activate sensorHandle b h)"
| "sub_hal_apply (BatchSensor sensorHandle p l) h = snd (SensorsSubHal_batch sensorHandle p l h)"
| "sub_hal_apply Initialize h = snd (SensorsSubHal_initialize h)"
| "sub_hal_apply _ h = h"

text \<open>What a request posts.\<close>

fun sub_hal_posts :: "flag_bits \<Rightarrow> Event \<Rightarrow> sub_hal_op \<Rightarrow> SensorsSubHal \<Rightarrow> post list" where
  "sub_hal_posts fb ev0 (FlushSensor sensorHandle) h = snd (SensorsSubHal_flush fb ev0 sensorHandle h)"
| "sub_hal_posts fb ev0 (InjectSensorData ev) h = snd (SensorsSubHal_injectSensorData fb ev h)"
| "sub_hal_posts fb ev0 _ h = []"

text \<open>Its result; the list of sensors and the direct channels come with theirs.\<close>

fun sub_hal_result :: "flag_bits \<Rightarrow> Event \<Rightarrow> sub_hal_op \<Rightarrow> SensorsSubHal \<Rightarrow> Result" where
  "sub_hal_result fb ev0 (SetOperationMode m) h = fst (SensorsSubHal_setOperationMode m h)"
| "sub_hal_result fb ev0 (ActivateSensor sensorHandle b) h = fst (SensorsSubHal_activate sensorHandle b h)"
| "sub_hal_result fb ev0 (BatchSensor sensorHandle p l) h = fst (SensorsSubHal_batch sensorHandle p l h)"
| "sub_hal_result fb ev0 Initialize h = fst (SensorsSubHal_initialize h)"
| "sub_hal_result fb ev0 GetSensorsList h = OK"
| "sub_hal_result fb ev0 (FlushSensor sensorHandle) h = fst (SensorsSubHal_flush fb ev0 sensorHandle h)"
| "sub_hal_result fb ev0 (InjectSensorData ev) h = fst (SensorsSubHal_injectSensorData fb ev h)"
| "sub_hal_result fb ev0 RegisterDirectChannel h = fst (SensorsSubHal_registerDirectChannel h)"
| "sub_hal_result fb ev0 (UnregisterDirectChannel channel) h = SensorsSubHal_unregisterDirectChannel channel h"
| "sub_hal_result fb ev0 (ConfigDirectReport sensorHandle channel) h = fst (SensorsSubHal_configDirectReport sensorHandle channel h)"

lemma modes_agree_apply: "modes_agree h \<Longrightarrow> modes_agree (sub_hal_apply x h)"
  by (cases x) (auto intro: modes_agree_set modes_agree_with_sensor
      simp: SensorsSubHal_activate_def SensorsSubHal_batch_def SensorsSubHal_initialize_def)

text \<open>The handles never change and are those of the constructor: 1 and 2.\<close>

lemma handles_apply: "RBT.lookup (shSensors (sub_hal_apply x h)) k = None \<longleftrightarrow> RBT.lookup (shSensors h) k = None"
  by (cases x) (auto simp: SensorsSubHal_activate_def SensorsSubHal_batch_def SensorsSubHal_initialize_def
      with_sensor_def SensorsSubHal_setOperationMode_def split: option.split)

lemma handles_new: "RBT.lookup (shSensors (SensorsSubHal_new fb u t)) k = None \<longleftrightarrow> k \<noteq> 1 \<and> k \<noteq> 2"
  by (auto simp: SensorsSubHal_new_def AddSensor_def sensor_new_defs Let_def)

text \<open>
  The sub-HAL always has exactly the sensors with handles 1 and 2, and after any sequence of
  requests each of them is in the operation mode the sub-HAL reports; a request for another handle
  changes nothing and fails.
\<close>

theorem sub_hal_modes:
  fixes h :: SensorsSubHal and ops :: "sub_hal_op list" and fb :: flag_bits
    and u t :: "bool \<times> bool \<times> Sensor"
  defines "h \<equiv> fold sub_hal_apply ops (SensorsSubHal_new fb u t)"
  shows "(RBT.lookup (shSensors h) (sint k) = None \<longleftrightarrow> k \<noteq> 1 \<and> k \<noteq> 2)
    \<and> (RBT.lookup (shSensors h) (sint k) = Some sensor \<longrightarrow> mMode sensor = shCurrentOperationMode h)
    \<and> (k \<noteq> 1 \<and> k \<noteq> 2 \<longrightarrow> SensorsSubHal_activate k b h = (BAD_VALUE, h))"
proof -
  have "modes_agree (fold sub_hal_apply ops g)" if "modes_agree g" for g
    using that by (induction ops arbitrary: g) (simp_all add: modes_agree_apply)
  then have m: "modes_agree h"
    unfolding h_def using modes_agree_new by blast
  have "RBT.lookup (shSensors (fold sub_hal_apply ops g)) i = None \<longleftrightarrow> RBT.lookup (shSensors g) i = None" for g i
    by (induction ops arbitrary: g) (simp_all add: handles_apply)
  then have n: "RBT.lookup (shSensors h) (sint k) = None \<longleftrightarrow> sint k \<noteq> 1 \<and> sint k \<noteq> 2"
    unfolding h_def handles_new by (simp add: handles_new)
  have "sint k = 1 \<longleftrightarrow> k = (1 :: s32)" "sint k = 2 \<longleftrightarrow> k = (2 :: s32)"
    by (simp_all add: word_eq_sint_iff)
  with m n show ?thesis
    by (auto simp: modes_agree_def SensorsSubHal_activate_def with_sensor_def)
qed

theorem sub_hal_modes_witness:
  "SensorsSubHal_activate 3 True (fold sub_hal_apply [SetOperationMode DATA_INJECTION]
      (SensorsSubHal_new platform_flags (True, True, blank_sensor Udfps) (True, True, blank_sensor SingleTap)))
   = (BAD_VALUE, fold sub_hal_apply [SetOperationMode DATA_INJECTION]
      (SensorsSubHal_new platform_flags (True, True, blank_sensor Udfps) (True, True, blank_sensor SingleTap)))"
  using sub_hal_modes [of "[SetOperationMode DATA_INJECTION]" platform_flags "(True, True, blank_sensor Udfps)"
      "(True, True, blank_sensor SingleTap)" 3 undefined True]
  by simp

section \<open>The narrowed period\<close>

text \<open>
  \<open>batch\<close> never leaves a period outside the sensor's bounds, but it narrows the request to 32
  bits first: two requests that differ by a multiple of 2^32 ns have the same effect, so a period of
  about 4.3 s is taken for the shortest one instead of the longest.
\<close>

theorem batch_narrows:
  assumes "mKind s = BaseSensor"
    and "0 \<le> sint (si_minDelay (mSensorInfo s))" and "sint (si_minDelay (mSensorInfo s)) \<le> sint (si_maxDelay (mSensorInfo s))"
    and "sint (si_maxDelay (mSensorInfo s)) * 1000 < 2 ^ 31"
  shows "sint (mSamplingPeriodNs (sensor_batch p s)) \<in>
      {sint (si_minDelay (mSensorInfo s)) * 1000 .. sint (si_maxDelay (mSensorInfo s)) * 1000}
    \<and> with_sensor sensorHandle (sensor_batch (ucast (q :: s64))) h
       = with_sensor sensorHandle (sensor_batch (ucast (q + 2 ^ 32))) h
    \<and> sint (mSamplingPeriodNs (sensor_batch (ucast (2 ^ 32 :: s64)) s)) = sint (si_minDelay (mSensorInfo s)) * 1000"
proof -
  let ?lo = "si_minDelay (mSensorInfo s)" and ?hi = "si_maxDelay (mSensorInfo s)"
  have lo: "sint (?lo * 1000) = sint ?lo * 1000"
    using assms(2-4) by (subst sint_mult_exact32) simp_all
  have hi: "sint (?hi * 1000) = sint ?hi * 1000"
    using assms(2-4) by (subst sint_mult_exact32) simp_all
  have set: "sint (mSamplingPeriodNs (sensor_batch p s)) = sint (clamp p (?lo * 1000) (?hi * 1000))" for p
    using assms(1) by (simp add: sensor_batch_def Sensor_batch_def Let_def)
  have "sint (mSamplingPeriodNs (sensor_batch p s)) \<in> {sint ?lo * 1000 .. sint ?hi * 1000}"
    using lo hi assms(3) by (simp add: set clamp_def)
  moreover have "sint (mSamplingPeriodNs (sensor_batch (ucast (2 ^ 32 :: s64)) s)) = sint ?lo * 1000"
    using ucast_narrows [of 0] lo hi assms(2,3) by (simp add: set clamp_def)
  ultimately show ?thesis
    using ucast_narrows by metis
qed

definition accelerometer :: Sensor where
  "accelerometer = (blank_sensor BaseSensor)
     \<lparr>mSensorInfo := (mSensorInfo (blank_sensor BaseSensor))\<lparr>si_minDelay := 5000, si_maxDelay := 1000000\<rparr>\<rparr>"

theorem batch_narrows_witness:
  "sint (mSamplingPeriodNs (sensor_batch (ucast (2 ^ 32 :: s64)) accelerometer)) = 5000000"
  using batch_narrows [of accelerometer] by (simp add: accelerometer_def blank_sensor_def)

end
