(* ===== verification/Hal_Proxy.thy ===== *)
theory Hal_Proxy
  imports Sensor_Handle Sub_Hal
begin

text \<open>
  The multi-HAL proxy of \<open>sensors/HalProxy.cpp\<close>: the list of sub-HALs, the sensors of all of them
  under handles that carry the index of their sub-HAL, and the requests that are passed on. A
  sub-HAL is a loaded library: its operations are a table (\<open>sub_hal_api\<close>) over a state \<open>'h\<close>.
  Constants the platform's headers define are an argument (\<open>hal_consts\<close>).
\<close>

section \<open>State\<close>

record hal_consts =
  kSensorHandleSubHalIndexMask :: s32
  kMaxSizePendingWriteEventsQueue :: nat
  kWakelockTimeoutNs :: int
  SENSOR_STRING_TYPE_PICK_UP_GESTURE :: string

datatype RateLevel = STOP | RATE_NORMAL | RATE_FAST | RATE_VERY_FAST

record 'h sub_hal_api =
  api_setOperationMode :: "OperationMode \<Rightarrow> 'h \<Rightarrow> Result \<times> 'h"
  api_activate :: "s32 \<Rightarrow> bool \<Rightarrow> 'h \<Rightarrow> Result \<times> 'h"
  api_batch :: "s32 \<Rightarrow> s64 \<Rightarrow> s64 \<Rightarrow> 'h \<Rightarrow> Result \<times> 'h"
  api_flush :: "s32 \<Rightarrow> 'h \<Rightarrow> Result \<times> 'h"
  api_injectSensorData :: "Event \<Rightarrow> 'h \<Rightarrow> Result \<times> 'h"
  api_getSensorsList :: "'h \<Rightarrow> SensorInfo list option"
  api_initialize :: "nat \<Rightarrow> 'h \<Rightarrow> Result \<times> 'h"
  api_registerDirectChannel :: "'h \<Rightarrow> (Result \<times> s32) \<times> 'h"
  api_unregisterDirectChannel :: "s32 \<Rightarrow> 'h \<Rightarrow> Result \<times> 'h"
  api_configDirectReport :: "s32 \<Rightarrow> s32 \<Rightarrow> RateLevel \<Rightarrow> 'h \<Rightarrow> (Result \<times> s32) \<times> 'h"

datatype proxy_effect =
    AcquireWakeLock | ReleaseWakeLock
  | EventsWritten "Event list" | EventsLost "Event list"
  | DynamicSensorsConnected "SensorInfo list" | DynamicSensorsDisconnected "s32 list"

text \<open>
  The pending-writes thread is either waiting for work or, its lock released, in \<open>writeBlocking\<close>
  with events of the front batch, at most the capacity of the event queue it has read.
\<close>

datatype writer = WriterWaits | WriterWrites nat | WriterGone

text \<open>The wakelock thread waits for a reference, or reads the acknowledgements for so many nanoseconds.\<close>

datatype waker = WakerWaits | WakerReads int | WakerGone

text \<open>
  The maps are red-black trees over the signed handle. \<open>mDirectChannelSubHal\<close> is the index of the
  sub-HAL the pointer in the code points to. Times are nanoseconds since boot.
\<close>

record 'h HalProxy =
  mSubHalList :: "'h list"
  pSensors :: "(int, SensorInfo) rbt"
  mDynamicSensors :: "(int, SensorInfo) rbt"
  mCurrentOperationMode :: OperationMode
  mDirectChannelSubHal :: "nat option"
  mThreadsRun :: bool
  mWakelockRefCount :: nat
  mWakelockTimeoutStartTime :: int
  mWakelockTimeoutResetTime :: int
  mPendingWriteEventsQueue :: "(Event list \<times> nat) list"
  mSizePendingWriteEventsQueue :: nat
  mMostEventsObservedPendingWriteEventsQueue :: nat
  mPendingWritesThread :: writer
  mWakelockThread :: waker
  proxy_effects :: "proxy_effect list"

definition pemit :: "proxy_effect \<Rightarrow> 'h HalProxy \<Rightarrow> 'h HalProxy" where
  "pemit e p = p\<lparr>proxy_effects := proxy_effects p @ [e]\<rparr>"

lemma pemit_simps [simp]:
  "proxy_effects (pemit e p) = proxy_effects p @ [e]" "mSubHalList (pemit e p) = mSubHalList p"
  "pSensors (pemit e p) = pSensors p" "mDynamicSensors (pemit e p) = mDynamicSensors p"
  "mWakelockRefCount (pemit e p) = mWakelockRefCount p" "mThreadsRun (pemit e p) = mThreadsRun p"
  "mPendingWriteEventsQueue (pemit e p) = mPendingWriteEventsQueue p"
  "mSizePendingWriteEventsQueue (pemit e p) = mSizePendingWriteEventsQueue p"
  "mPendingWritesThread (pemit e p) = mPendingWritesThread p"
  "mWakelockTimeoutResetTime (pemit e p) = mWakelockTimeoutResetTime p"
  "mWakelockTimeoutStartTime (pemit e p) = mWakelockTimeoutStartTime p"
  "mCurrentOperationMode (pemit e p) = mCurrentOperationMode p"
  "mDirectChannelSubHal (pemit e p) = mDirectChannelSubHal p" "mWakelockThread (pemit e p) = mWakelockThread p"
  "mMostEventsObservedPendingWriteEventsQueue (pemit e p) = mMostEventsObservedPendingWriteEventsQueue p"
  by (simp_all add: pemit_def)

section \<open>Loading the sub-HALs\<close>

text \<open>
  What the dynamic linker finds behind a library handle: the version and the sub-HAL that
  \<open>sensorsHalGetSubHal\<close>, or else \<open>sensorsHalGetSubHal_2_1\<close>, returns.
\<close>

record ('l, 'h) linker =
  dlopen :: "string \<Rightarrow> 'l option"
  sensorsHalGetSubHal :: "'l \<Rightarrow> (u32 \<times> 'h) option"
  sensorsHalGetSubHal_2_1 :: "'l \<Rightarrow> (u32 \<times> 'h) option"
  SUB_HAL_2_0_VERSION :: u32
  SUB_HAL_2_1_VERSION :: u32

definition kSubHalShareObjectLocations :: "string list" where
  "kSubHalShareObjectLocations = ['''', ''/vendor/lib64/hw/'', ''/odm/lib64/hw/'']"

fun first_handle :: "('l, 'h) linker \<Rightarrow> string list \<Rightarrow> string \<Rightarrow> 'l option" where
  "first_handle lnk [] filename = None"
| "first_handle lnk (dir # dirs) filename =
     (case dlopen lnk (dir @ filename) of Some l \<Rightarrow> Some l | None \<Rightarrow> first_handle lnk dirs filename)"

definition getHandleForSubHalSharedObject :: "('l, 'h) linker \<Rightarrow> string \<Rightarrow> 'l option" where
  "getHandleForSubHalSharedObject lnk filename = first_handle lnk kSubHalShareObjectLocations filename"

definition load_sub_hal :: "('l, 'h) linker \<Rightarrow> string \<Rightarrow> 'h list" where
  "load_sub_hal lnk file =
     (case getHandleForSubHalSharedObject lnk file of
        None \<Rightarrow> []
      | Some l \<Rightarrow>
          (case sensorsHalGetSubHal lnk l of
             Some (version, h) \<Rightarrow> if version \<noteq> SUB_HAL_2_0_VERSION lnk then [] else [h]
           | None \<Rightarrow>
               (case sensorsHalGetSubHal_2_1 lnk l of
                  None \<Rightarrow> []
                | Some (version, h) \<Rightarrow> if version \<noteq> SUB_HAL_2_1_VERSION lnk then [] else [h])))"

text \<open>\<open>config\<close> is the content of the file, if it can be opened.\<close>

definition initializeSubHalListFromConfigFile ::
  "('l, 'h) linker \<Rightarrow> string option \<Rightarrow> 'h HalProxy \<Rightarrow> 'h HalProxy" where
  "initializeSubHalListFromConfigFile lnk config p =
     (case config of
        None \<Rightarrow> p
      | Some text \<Rightarrow> p\<lparr>mSubHalList := mSubHalList p @ concat (map (load_sub_hal lnk) (file_words text))\<rparr>)"

section \<open>The list of sensors\<close>

definition setDirectChannelFlags ::
  "flag_bits \<Rightarrow> nat \<Rightarrow> SensorInfo \<times> 'h HalProxy \<Rightarrow> SensorInfo \<times> 'h HalProxy" where
  "setDirectChannelFlags fb subHal sp =
     (let direct = or (MASK_DIRECT_REPORT fb) (MASK_DIRECT_CHANNEL fb); info = fst sp; p = snd sp;
          supports = (and (si_flags info) direct \<noteq> 0)
      in if mDirectChannelSubHal p = None \<and> supports
         then (info, p\<lparr>mDirectChannelSubHal := Some subHal\<rparr>)
         else if mDirectChannelSubHal p \<noteq> None \<and> mDirectChannelSubHal p \<noteq> Some subHal
         then (info\<lparr>si_flags := and (si_flags info) (not direct)\<rparr>, p)
         else (info, p))"

definition standardize_pickup :: "hal_consts \<Rightarrow> SensorInfo \<Rightarrow> SensorInfo" where
  "standardize_pickup hc info =
     (if si_typeAsString info = ''android.sensor.wrist_tilt_gesture''
      then info\<lparr>si_type := PICK_UP_GESTURE, si_typeAsString := SENSOR_STRING_TYPE_PICK_UP_GESTURE hc\<rparr>
      else info)"

definition add_sensor ::
  "flag_bits \<Rightarrow> hal_consts \<Rightarrow> nat \<Rightarrow> SensorInfo \<Rightarrow> 'h HalProxy \<Rightarrow> 'h HalProxy" where
  "add_sensor fb hc i info p =
     (if \<not> subHalIndexIsClear (kSensorHandleSubHalIndexMask hc) (si_sensorHandle info) then p
      else let info = info\<lparr>si_sensorHandle := setSubHalIndex (si_sensorHandle info) i\<rparr>;
               r = setDirectChannelFlags fb i (info, p);
               info = standardize_pickup hc (fst r)
           in (snd r)\<lparr>pSensors := RBT.insert (sint (si_sensorHandle info)) info (pSensors (snd r))\<rparr>)"

definition initializeSensorList ::
  "'h sub_hal_api \<Rightarrow> flag_bits \<Rightarrow> hal_consts \<Rightarrow> 'h HalProxy \<Rightarrow> 'h HalProxy" where
  "initializeSensorList api fb hc p =
     fold (\<lambda>i p. case api_getSensorsList api (mSubHalList p ! i) of
                   None \<Rightarrow> p
                 | Some infos \<Rightarrow> fold (add_sensor fb hc i) infos p)
       [0..<length (mSubHalList p)] p"

definition HalProxy_init :: "'h sub_hal_api \<Rightarrow> flag_bits \<Rightarrow> hal_consts \<Rightarrow> 'h HalProxy \<Rightarrow> 'h HalProxy" where
  "HalProxy_init api fb hc = initializeSensorList api fb hc"

text \<open>The members as their initialisers leave them; \<open>r0\<close> is the reset time before any reset.\<close>

definition HalProxy_members :: "'h list \<Rightarrow> int \<Rightarrow> int \<Rightarrow> 'h HalProxy" where
  "HalProxy_members hs s0 r0 =
     \<lparr>mSubHalList = hs, pSensors = RBT.empty, mDynamicSensors = RBT.empty, mCurrentOperationMode = NORMAL,
      mDirectChannelSubHal = None, mThreadsRun = False, mWakelockRefCount = 0,
      mWakelockTimeoutStartTime = s0, mWakelockTimeoutResetTime = r0, mPendingWriteEventsQueue = [],
      mSizePendingWriteEventsQueue = 0, mMostEventsObservedPendingWriteEventsQueue = 0,
      mPendingWritesThread = WriterGone, mWakelockThread = WakerGone, proxy_effects = []\<rparr>"

definition HalProxy_new ::
  "'h sub_hal_api \<Rightarrow> flag_bits \<Rightarrow> hal_consts \<Rightarrow> ('l, 'h) linker \<Rightarrow> string option \<Rightarrow> int \<Rightarrow> int \<Rightarrow> 'h HalProxy" where
  "HalProxy_new api fb hc lnk config s0 r0 =
     HalProxy_init api fb hc (initializeSubHalListFromConfigFile lnk config (HalProxy_members [] s0 r0))"

text \<open>The test constructors take the sub-HALs as lists.\<close>

definition HalProxy_from_lists ::
  "'h sub_hal_api \<Rightarrow> flag_bits \<Rightarrow> hal_consts \<Rightarrow> 'h list \<Rightarrow> 'h list \<Rightarrow> int \<Rightarrow> int \<Rightarrow> 'h HalProxy" where
  "HalProxy_from_lists api fb hc subHalList subHalListV2_1 s0 r0 =
     HalProxy_init api fb hc (HalProxy_members (subHalList @ subHalListV2_1) s0 r0)"

definition getSensorsList_2_1 :: "'h HalProxy \<Rightarrow> SensorInfo list" where
  "getSensorsList_2_1 p = map snd (RBT.entries (pSensors p))"

text \<open>The list for clients of the older interface, over the platform's conversion of a description.\<close>

definition HalProxy_getSensorsList :: "(SensorInfo \<Rightarrow> 'o) \<Rightarrow> 'h HalProxy \<Rightarrow> 'o list" where
  "HalProxy_getSensorsList convertToOldSensorInfo p = map (\<lambda>e. convertToOldSensorInfo (snd e)) (RBT.entries (pSensors p))"

section \<open>Requests passed on\<close>

definition isSubHalIndexValid :: "s32 \<Rightarrow> 'h HalProxy \<Rightarrow> bool" where
  "isSubHalIndexValid sensorHandle p = (unat (extractSubHalIndex sensorHandle) < length (mSubHalList p))"

text \<open>A call of the i-th sub-HAL.\<close>

definition call_sub_hal :: "nat \<Rightarrow> ('h \<Rightarrow> 'r \<times> 'h) \<Rightarrow> 'h HalProxy \<Rightarrow> 'r \<times> 'h HalProxy" where
  "call_sub_hal i f p =
     (case f (mSubHalList p ! i) of (r, h) \<Rightarrow> (r, p\<lparr>mSubHalList := (mSubHalList p)[i := h]\<rparr>))"

definition forward ::
  "hal_consts \<Rightarrow> s32 \<Rightarrow> (s32 \<Rightarrow> 'h \<Rightarrow> Result \<times> 'h) \<Rightarrow> 'h HalProxy \<Rightarrow> Result \<times> 'h HalProxy" where
  "forward hc sensorHandle f p =
     (if \<not> isSubHalIndexValid sensorHandle p then (BAD_VALUE, p)
      else call_sub_hal (unat (extractSubHalIndex sensorHandle))
             (f (clearSubHalIndex (kSensorHandleSubHalIndexMask hc) sensorHandle)) p)"

definition HalProxy_activate ::
  "'h sub_hal_api \<Rightarrow> hal_consts \<Rightarrow> s32 \<Rightarrow> bool \<Rightarrow> 'h HalProxy \<Rightarrow> Result \<times> 'h HalProxy" where
  "HalProxy_activate api hc sensorHandle enabled = forward hc sensorHandle (\<lambda>l. api_activate api l enabled)"

definition HalProxy_batch ::
  "'h sub_hal_api \<Rightarrow> hal_consts \<Rightarrow> s32 \<Rightarrow> s64 \<Rightarrow> s64 \<Rightarrow> 'h HalProxy \<Rightarrow> Result \<times> 'h HalProxy" where
  "HalProxy_batch api hc sensorHandle samplingPeriodNs maxReportLatencyNs =
     forward hc sensorHandle (\<lambda>l. api_batch api l samplingPeriodNs maxReportLatencyNs)"

definition HalProxy_flush :: "'h sub_hal_api \<Rightarrow> hal_consts \<Rightarrow> s32 \<Rightarrow> 'h HalProxy \<Rightarrow> Result \<times> 'h HalProxy" where
  "HalProxy_flush api hc sensorHandle = forward hc sensorHandle (api_flush api)"

text \<open>
  The platform's conversions between the event types of the interface versions are arguments; both types
  are \<open>Event\<close> here.
\<close>

record event_conversion =
  convertToOldEvent :: "Event \<Rightarrow> Event"
  convertToNewEvent :: "Event \<Rightarrow> Event"

definition HalProxy_injectSensorData ::
  "'h sub_hal_api \<Rightarrow> event_conversion \<Rightarrow> hal_consts \<Rightarrow> Event \<Rightarrow> 'h HalProxy \<Rightarrow> Result \<times> 'h HalProxy" where
  "HalProxy_injectSensorData api conv hc event p =
     (if mCurrentOperationMode p = NORMAL \<and> ev_sensorType event \<noteq> ADDITIONAL_INFO then (BAD_VALUE, p)
      else forward hc (ev_sensorHandle event)
             (\<lambda>l. api_injectSensorData api (convertToNewEvent conv (event\<lparr>ev_sensorHandle := l\<rparr>))) p)"

definition HalProxy_injectSensorData_2_1 ::
  "'h sub_hal_api \<Rightarrow> event_conversion \<Rightarrow> hal_consts \<Rightarrow> Event \<Rightarrow> 'h HalProxy \<Rightarrow> Result \<times> 'h HalProxy" where
  "HalProxy_injectSensorData_2_1 api conv hc event = HalProxy_injectSensorData api conv hc (convertToOldEvent conv event)"

fun disable_each ::
  "'h sub_hal_api \<Rightarrow> hal_consts \<Rightarrow> (int \<times> SensorInfo) list \<Rightarrow> 'h HalProxy \<Rightarrow> 'h HalProxy" where
  "disable_each api hc [] p = p"
| "disable_each api hc (e # es) p =
     disable_each api hc es (snd (HalProxy_activate api hc (word_of_int (fst e)) False p))"

definition disableAllSensors :: "'h sub_hal_api \<Rightarrow> hal_consts \<Rightarrow> 'h HalProxy \<Rightarrow> 'h HalProxy" where
  "disableAllSensors api hc p =
     (let p = disable_each api hc (RBT.entries (pSensors p)) p
      in disable_each api hc (RBT.entries (mDynamicSensors p)) p)"

section \<open>Operation mode\<close>

text \<open>The first loop: the sub-HALs from \<open>i\<close> on, up to the first that refuses, whose index is returned.\<close>

fun set_modes ::
  "'h sub_hal_api \<Rightarrow> OperationMode \<Rightarrow> nat \<Rightarrow> nat \<Rightarrow> 'h HalProxy \<Rightarrow> (Result \<times> nat) \<times> 'h HalProxy" where
  "set_modes api mode i 0 p = ((OK, i), p)"
| "set_modes api mode i (Suc n) p =
     (let r = call_sub_hal i (api_setOperationMode api mode) p
      in if fst r \<noteq> OK then ((fst r, i), snd r) else set_modes api mode (Suc i) n (snd r))"

definition HalProxy_setOperationMode ::
  "'h sub_hal_api \<Rightarrow> OperationMode \<Rightarrow> 'h HalProxy \<Rightarrow> Result \<times> 'h HalProxy" where
  "HalProxy_setOperationMode api mode p =
     (let r = set_modes api mode 0 (length (mSubHalList p)) p; result = fst (fst r); p' = snd r
      in if result \<noteq> OK
         then (result, fold (\<lambda>i p. snd (call_sub_hal i (api_setOperationMode api (mCurrentOperationMode p)) p))
                         [0..<snd (fst r)] p')
         else (result, p'\<lparr>mCurrentOperationMode := mode\<rparr>))"

section \<open>Direct channels\<close>

definition HalProxy_registerDirectChannel ::
  "'h sub_hal_api \<Rightarrow> 'h HalProxy \<Rightarrow> (Result \<times> s32) \<times> 'h HalProxy" where
  "HalProxy_registerDirectChannel api p =
     (case mDirectChannelSubHal p of
        None \<Rightarrow> ((INVALID_OPERATION, - 1), p)
      | Some i \<Rightarrow> call_sub_hal i (api_registerDirectChannel api) p)"

definition HalProxy_unregisterDirectChannel ::
  "'h sub_hal_api \<Rightarrow> s32 \<Rightarrow> 'h HalProxy \<Rightarrow> Result \<times> 'h HalProxy" where
  "HalProxy_unregisterDirectChannel api channelHandle p =
     (case mDirectChannelSubHal p of
        None \<Rightarrow> (INVALID_OPERATION, p)
      | Some i \<Rightarrow> call_sub_hal i (api_unregisterDirectChannel api channelHandle) p)"

definition HalProxy_configDirectReport ::
  "'h sub_hal_api \<Rightarrow> hal_consts \<Rightarrow> s32 \<Rightarrow> s32 \<Rightarrow> RateLevel \<Rightarrow> 'h HalProxy \<Rightarrow> (Result \<times> s32) \<times> 'h HalProxy" where
  "HalProxy_configDirectReport api hc sensorHandle channelHandle rate p =
     (case mDirectChannelSubHal p of
        None \<Rightarrow> ((INVALID_OPERATION, - 1), p)
      | Some i \<Rightarrow>
          if sensorHandle = - 1 \<and> rate \<noteq> STOP then ((BAD_VALUE, - 1), p)
          else let sensorHandle = (if sensorHandle \<noteq> - 1
                     then clearSubHalIndex (kSensorHandleSubHalIndexMask hc) sensorHandle else sensorHandle)
               in call_sub_hal i (api_configDirectReport api sensorHandle channelHandle rate) p)"

section \<open>Dynamic sensors\<close>

fun connect_each ::
  "hal_consts \<Rightarrow> nat \<Rightarrow> SensorInfo list \<Rightarrow> SensorInfo list \<Rightarrow> 'h HalProxy \<Rightarrow> SensorInfo list \<times> 'h HalProxy" where
  "connect_each hc i [] acc p = (acc, p)"
| "connect_each hc i (info # infos) acc p =
     (if \<not> subHalIndexIsClear (kSensorHandleSubHalIndexMask hc) (si_sensorHandle info)
      then connect_each hc i infos acc p
      else let info = info\<lparr>si_sensorHandle := setSubHalIndex (si_sensorHandle info) i\<rparr>
           in connect_each hc i infos (acc @ [info])
                (p\<lparr>mDynamicSensors := RBT.insert (sint (si_sensorHandle info)) info (mDynamicSensors p)\<rparr>))"

definition onDynamicSensorsConnected ::
  "hal_consts \<Rightarrow> SensorInfo list \<Rightarrow> nat \<Rightarrow> 'h HalProxy \<Rightarrow> 'h HalProxy" where
  "onDynamicSensorsConnected hc dynamicSensorsAdded i p =
     (let r = connect_each hc i dynamicSensorsAdded [] p
      in pemit (DynamicSensorsConnected (fst r)) (snd r))"

fun disconnect_each ::
  "hal_consts \<Rightarrow> nat \<Rightarrow> s32 list \<Rightarrow> s32 list \<Rightarrow> 'h HalProxy \<Rightarrow> s32 list \<times> 'h HalProxy" where
  "disconnect_each hc i [] acc p = (acc, p)"
| "disconnect_each hc i (l # ls) acc p =
     (if \<not> subHalIndexIsClear (kSensorHandleSubHalIndexMask hc) l then disconnect_each hc i ls acc p
      else let sensorHandle = setSubHalIndex l i
           in if RBT.lookup (mDynamicSensors p) (sint sensorHandle) \<noteq> None
              then disconnect_each hc i ls (acc @ [sensorHandle])
                     (p\<lparr>mDynamicSensors := RBT.delete (sint sensorHandle) (mDynamicSensors p)\<rparr>)
              else disconnect_each hc i ls acc p)"

definition onDynamicSensorsDisconnected ::
  "hal_consts \<Rightarrow> s32 list \<Rightarrow> nat \<Rightarrow> 'h HalProxy \<Rightarrow> 'h HalProxy" where
  "onDynamicSensorsDisconnected hc dynamicSensorHandlesRemoved i p =
     (let r = disconnect_each hc i dynamicSensorHandlesRemoved [] p
      in pemit (DynamicSensorsDisconnected (fst r)) (snd r))"

end
