(* ===== verification/Service_Main.thy ===== *)
theory Service_Main
  imports Fp_Service Charging Vibrator Hal_Proxy
begin

text \<open>
  The \<open>main\<close> functions of the four services: \<open>fingerprint/service.cpp\<close>, \<open>charging/service.cpp\<close>,
  \<open>sensors/service.cpp\<close> and \<open>vibrator/service.cpp\<close>. The service managers are arguments: whether they accept
  an object under a name, whether the health service is there, and whether joining the pool of threads
  ever returns.
\<close>

text \<open>What a process does, in order. It ends with its exit code, or serves for ever.\<close>

datatype 'o main_step =
    SetMaxThreads nat
  | ConfigureRpcThreadpool nat bool
  | Publish string 'o
  | RegisterCallback 'o
  | JoinThreadPool

type_synonym 'o process = "'o main_step list \<times> int option"

definition join_pool :: "bool \<Rightarrow> int \<Rightarrow> 'o main_step list \<Rightarrow> 'o process" where
  "join_pool pool_returns code steps = (steps @ [JoinThreadPool], if pool_returns then Some code else None)"

section \<open>The services\<close>

text \<open>\<open>descriptor\<close> is the name of the interface. A failed \<open>CHECK\<close> aborts.\<close>

definition publish_default ::
  "(string \<Rightarrow> 'o \<Rightarrow> bool) \<Rightarrow> string \<Rightarrow> 'o \<Rightarrow> bool \<Rightarrow> 'o process outcome" where
  "publish_default addService descriptor service pool_returns =
     (let instance_name = descriptor @ ''/default''
      in if \<not> addService instance_name service then Aborts
         else Returns (join_pool pool_returns 1 [SetMaxThreads 0, Publish instance_name service]))"

definition fingerprint_main ::
  "(string \<Rightarrow> 'd Fingerprint \<Rightarrow> bool) \<Rightarrow> string \<Rightarrow> bool \<Rightarrow> 'd hal_env \<Rightarrow> 'd \<Rightarrow> LockoutTracker
    \<Rightarrow> string option \<Rightarrow> s32 option \<Rightarrow> 'd Fingerprint process outcome" where
  "fingerprint_main addService descriptor pool_returns e d tracker typeProp maxProp =
     and_then (Fingerprint_new e d tracker typeProp maxProp)
       (\<lambda>fingerprint. publish_default addService descriptor fingerprint pool_returns)"

definition vibrator_main ::
  "(string \<Rightarrow> 'v vibrator \<Rightarrow> bool) \<Rightarrow> string \<Rightarrow> bool \<Rightarrow> 'v aac_library \<Rightarrow> 'v vibrator \<Rightarrow> 'v vibrator process outcome" where
  "vibrator_main addService descriptor pool_returns a s0 =
     publish_default addService descriptor (Vibrator_new a s0) pool_returns"

text \<open>The result of \<open>registerCallback\<close> is not looked at. \<open>listener\<close> is the listener as it is made.\<close>

definition charging_main :: "(string \<Rightarrow> bool) \<Rightarrow> string \<Rightarrow> bool \<Rightarrow> ChargeStatus \<Rightarrow> ChargeStatus process" where
  "charging_main waitForService descriptor pool_returns listener =
     (if \<not> waitForService (descriptor @ ''/default'') then ([], Some (- 1))
      else join_pool pool_returns 0 [RegisterCallback listener, SetMaxThreads 0])"

definition sensors_main ::
  "('h HalProxy \<Rightarrow> bool) \<Rightarrow> bool \<Rightarrow> 'h sub_hal_api \<Rightarrow> flag_bits \<Rightarrow> hal_consts \<Rightarrow> ('l, 'h) linker
    \<Rightarrow> string option \<Rightarrow> int \<Rightarrow> int \<Rightarrow> 'h HalProxy process" where
  "sensors_main registerAsService pool_returns api fb hc lnk conf s0 r0 =
     (let steps = [ConfigureRpcThreadpool 1 True];
          halProxy = HalProxy_new api fb hc lnk conf s0 r0
      in if \<not> registerAsService halProxy then (steps, Some (- 1))
         else join_pool pool_returns 1 (steps @ [Publish ''default'' halProxy]))"

section \<open>A fingerprint service without its HAL\<close>

text \<open>Every way in which opening the HAL fails and says so.\<close>

lemma openHal_fails_iff:
  "openHal e = Returns None \<longleftrightarrow>
     fst (hw_get_module_by_class e) \<noteq> 0 \<or> \<not> snd (hw_get_module_by_class e) \<or> \<not> has_open_method e
     \<or> fst (open_device e) \<noteq> 0 \<or> (snd (open_device e) \<noteq> None \<and> set_notify_result e \<noteq> 0)"
  by (auto simp: openHal_def split: option.split)

lemma run_without_device:
  assumes "mDevice s = None" and "mSession s = None"
  shows "service_run xs s = (if \<exists>u. CreateSession u \<in> set xs then Undefined_behaviour else Returns s)"
proof (induction xs)
  case (Cons x xs)
  have "service_apply x s = (if \<exists>u. x = CreateSession u then Undefined_behaviour else Returns s)"
    using assms by (cases x) (auto simp: Fingerprint_createSession_def Fingerprint_notify_def)
  then show ?case
    using Cons.IH by auto
qed simp

text \<open>
  C40: A fingerprint service without its HAL starts all the same: when any step of opening the HAL
  fails, the process publishes the service and serves; it answers every history of requests until the
  first request for a session, which follows the null device pointer.
\<close>

theorem served_without_hal:
  assumes "openHal e = Returns None" and "\<And>s. addService (descriptor @ ''/default'') s"
  shows "\<exists>s. fingerprint_main addService descriptor False e d tracker typeProp maxProp
      = Returns ([SetMaxThreads 0, Publish (descriptor @ ''/default'') s, JoinThreadPool], None)
    \<and> (\<forall>xs. service_run xs s = (if \<exists>u. CreateSession u \<in> set xs then Undefined_behaviour else Returns s))"
  using assms by (simp add: run_without_device fingerprint_main_def publish_default_def join_pool_def Fingerprint_new_def)

definition failing_hal :: "unit hal_env" where
  "failing_hal = \<lparr>hw_get_module_by_class = (0, True), has_open_method = True, open_device = (- 19, None), set_notify_result = 0\<rparr>"

theorem served_without_hal_witness:
  "\<exists>s. fingerprint_main (\<lambda>_ _. True) ''aidl.IFingerprint'' False failing_hal () (LockoutTracker_new 77 PERMANENT) None None
      = Returns ([SetMaxThreads 0, Publish ''aidl.IFingerprint/default'' s, JoinThreadPool], None)
    \<and> service_run [HalMessage (\<lambda>_. sample_clock 0) (FINGERPRINT_AUTHENTICATED no_finger no_hat), CreateSession 0] s = Undefined_behaviour"
proof -
  have "openHal failing_hal = Returns None"
    by (simp add: openHal_fails_iff failing_hal_def)
  from served_without_hal [OF this, of "\<lambda>_ _. True" "''aidl.IFingerprint''" "()" "LockoutTracker_new 77 PERMANENT" None None]
  show ?thesis
    by (auto simp del: service_run.simps)
qed

end
