(* ===== verification/Fp_Process.thy ===== *)
theory Fp_Process
  imports Fp_Service
begin

text \<open>
  The fingerprint process with the life time of its sessions: \<open>fingerprint/Fingerprint.cpp\<close>,
  \<open>fingerprint/Session.cpp\<close> and \<open>fingerprint/CancellationSignal.cpp\<close>. A session is a shared object; the service
  and the framework hold references to it, while cancellation signals, lockout threads and the cookie of the
  death recipient hold its plain address. A use of that address after the last reference has gone is
  undefined. \<open>Fingerprint::notify\<close>, which runs on threads of the HAL and takes neither a lock nor a reference, is
  cut at each of its four looks at the session; any number of its calls may be under way. The locale \<open>object_life\<close> states what outlives what.
\<close>

section \<open>State\<close>

text \<open>
  Sessions are numbered in the order they are made. \<open>former\<close> keeps those the service no longer refers to, with
  what their threads still know of them after they are gone; the one after them is the service's. \<open>held\<close>
  are the references of the framework, \<open>signals\<close> the sessions of the cancellation signals given out, and
  \<open>delivering\<close> the calls of \<open>notify\<close> under way.
\<close>

text \<open>
  Where a call of \<open>notify\<close> is: it has found a session (\<open>Nonnull\<close>); it has loaded the address of a session to ask it
  whether it is closed (\<open>Asks\<close>); the answer was no (\<open>Passed\<close>); it has loaded the address of a session to pass it the
  message (\<open>Enters\<close>).
\<close>

datatype notify_phase = Nonnull | Asks nat | Passed | Enters nat

record hal_call =
  phase :: notify_phase
  clock :: "nat \<Rightarrow> util"
  message :: fingerprint_msg

record 'd process =
  service :: "'d Fingerprint"
  former :: "Session list"
  held :: "nat list"
  signals :: "nat list"
  delivering :: "hal_call list"

definition process_new :: "'d Fingerprint \<Rightarrow> 'd process" where
  "process_new s = \<lparr>service = s, former = [], held = [], signals = [], delivering = []\<rparr>"

definition made :: "'d process \<Rightarrow> nat" where
  "made p = length (former p) + (case mSession (service p) of None \<Rightarrow> 0 | Some t \<Rightarrow> 1)"

definition object :: "nat \<Rightarrow> 'd process \<Rightarrow> Session option" where
  "object i p = (if i < length (former p) then Some (former p ! i)
     else if i = length (former p) then mSession (service p) else None)"

text \<open>A session lives while someone shares it: the service its own, the framework any.\<close>

definition alive :: "'d process \<Rightarrow> nat \<Rightarrow> bool" where
  "alive p i \<longleftrightarrow> i = length (former p) \<and> mSession (service p) \<noteq> None \<or> i \<in> set (held p)"

section \<open>Steps\<close>

text \<open>An operation on the object: all sessions share the device, the static list and the trace.\<close>

definition run_on :: "nat \<Rightarrow> ('d fp \<Rightarrow> 'd fp) \<Rightarrow> 'd process \<Rightarrow> 'd process" where
  "run_on i f p =
     (case object i p of
        None \<Rightarrow> p
      | Some t \<Rightarrow>
          if i < length (former p)
          then let s = service p;
                   r = f \<lparr>this = t, dev = fpDev s, enrollments = fpEnrollments s, effects = fpEffects s\<rparr>
               in p\<lparr>former := (former p)[i := this r],
                    service := s\<lparr>fpDev := dev r, fpEnrollments := enrollments r, fpEffects := effects r\<rparr>\<rparr>
          else p\<lparr>service := on_session f t (service p)\<rparr>)"

text \<open>The same through a plain address.\<close>

definition follow :: "nat \<Rightarrow> ('d fp \<Rightarrow> 'd fp) \<Rightarrow> 'd process \<Rightarrow> 'd process outcome" where
  "follow i f p = (if alive p i then Returns (run_on i f p) else Undefined_behaviour)"

text \<open>
  What the framework may call, which calls give out a signal, and which are undefined by themselves: a
  second \<open>close\<close>, and an enrollment with a token whose MAC is longer than 32 bytes.
\<close>

fun is_request :: "session_op \<Rightarrow> bool" where
  "is_request Cancel = False"
| "is_request ClientDeath = False"
| "is_request (Notify clk msg) = False"
| "is_request (TimerFires k) = False"
| "is_request (UdfpsThread e) = False"
| "is_request _ = True"

fun gives_signal :: "session_op \<Rightarrow> bool" where
  "gives_signal (Enroll stack hat) = True"
| "gives_signal (Authenticate i) = True"
| "gives_signal DetectInteraction = True"
| "gives_signal (EnrollWithContext stack hat) = True"
| "gives_signal (AuthenticateWithContext i) = True"
| "gives_signal DetectInteractionWithContext = True"
| "gives_signal _ = False"

fun misused :: "session_op \<Rightarrow> Session \<Rightarrow> bool" where
  "misused Close t = (\<not> mDeathRecipient t)"
| "misused (Enroll stack hat) t = (translate_to_hal hat stack = None)"
| "misused (EnrollWithContext stack hat) t = (translate_to_hal hat stack = None)"
| "misused _ t = False"

datatype process_act =
    Create s32 | Call nat session_op | Release nat | CancelThrough nat
  | TimerWakes nat nat | ClientDies nat | PollThread nat poll_env
  | HalCalls "nat \<Rightarrow> util" fingerprint_msg | HalGoesOn nat

text \<open>
  A step that is not enabled changes nothing: the framework calls only what it holds, a signal must have
  been given out, a lockout thread must be asleep, the death of a client is told only while its
  recipient exists, and the destructor of a session joins its UDFPS thread.
\<close>

definition on_object ::
  "nat \<Rightarrow> ('d fingerprint_device \<Rightarrow> Session \<Rightarrow> 'd process outcome) \<Rightarrow> 'd process \<Rightarrow> 'd process outcome" where
  "on_object i k p =
     (case (object i p, mDevice (service p)) of (Some t, Some fd) \<Rightarrow> k fd t | _ \<Rightarrow> Returns p)"

text \<open>\<open>createSession\<close>: the service shares the new session with the framework and lets the former one go.\<close>

definition share_session :: "s32 \<Rightarrow> 'd process \<Rightarrow> 'd process outcome" where [simp]:
  "share_session user p =
     and_then (Fingerprint_createSession user (service p)) (\<lambda>s.
       Returns (p\<lparr>service := s,
         former := former p @ (case mSession (service p) of None \<Rightarrow> [] | Some t \<Rightarrow> [t]),
         held := held p @ [made p]\<rparr>))"

text \<open>
  \<open>notify\<close> on a thread of the HAL: the test for a null pointer, the two loads of the session's address, its answer
  to \<open>isClosed\<close>, and its operation. There is no session to load before the first one is made.
\<close>

definition notify_tests :: "(nat \<Rightarrow> util) \<Rightarrow> fingerprint_msg \<Rightarrow> 'd process \<Rightarrow> 'd process outcome" where [simp]:
  "notify_tests clk msg p =
     (if mSession (service p) = None then Returns p
      else Returns (p\<lparr>delivering := delivering p @ [\<lparr>phase = Nonnull, clock = clk, message = msg\<rparr>]\<rparr>))"

definition moves_to :: "nat \<Rightarrow> notify_phase \<Rightarrow> 'd process \<Rightarrow> 'd process" where
  "moves_to j ph p = p\<lparr>delivering := (delivering p)[j := (delivering p ! j)\<lparr>phase := ph\<rparr>]\<rparr>"

definition ends :: "nat \<Rightarrow> 'd process \<Rightarrow> 'd process" where
  "ends j p = p\<lparr>delivering := take j (delivering p) @ drop (Suc j) (delivering p)\<rparr>"

definition notify_loads :: "nat \<Rightarrow> (nat \<Rightarrow> notify_phase) \<Rightarrow> 'd process \<Rightarrow> 'd process outcome" where
  "notify_loads j ph p =
     (if mSession (service p) = None then Undefined_behaviour else Returns (moves_to j (ph (length (former p))) p))"

definition notify_asks :: "nat \<Rightarrow> nat \<Rightarrow> 'd process \<Rightarrow> 'd process outcome" where
  "notify_asks j i p =
     (if \<not> alive p i then Undefined_behaviour
      else case object i p of
             Some t \<Rightarrow> Returns (if mClosed t then ends j p else moves_to j Passed p)
           | None \<Rightarrow> Undefined_behaviour)"

definition notify_delivers :: "nat \<Rightarrow> nat \<Rightarrow> 'd process \<Rightarrow> 'd process outcome" where
  "notify_delivers j i p =
     (case mDevice (service p) of
        None \<Rightarrow> Undefined_behaviour
      | Some fd \<Rightarrow>
          follow i (session_apply fd (Notify (clock (delivering p ! j)) (message (delivering p ! j)))) (ends j p))"

definition notify_goes_on :: "nat \<Rightarrow> 'd process \<Rightarrow> 'd process outcome" where
  "notify_goes_on j p =
     (if j < length (delivering p)
      then case phase (delivering p ! j) of
             Nonnull \<Rightarrow> notify_loads j Asks p
           | Asks i \<Rightarrow> notify_asks j i p
           | Passed \<Rightarrow> notify_loads j Enters p
           | Enters i \<Rightarrow> notify_delivers j i p
      else Returns p)"

fun process_step :: "process_act \<Rightarrow> 'd process \<Rightarrow> 'd process outcome" where
  "process_step (Create user) p = share_session user p"
| "process_step (Call i x) p = on_object i (\<lambda>fd t.
     if i \<notin> set (held p) \<or> \<not> is_request x then Returns p
     else if misused x t then Undefined_behaviour
     else let p = run_on i (session_apply fd x) p
          in Returns (if gives_signal x then p\<lparr>signals := signals p @ [i]\<rparr> else p)) p"
| "process_step (Release i) p = Returns (p\<lparr>held := remove1 i (held p)\<rparr>)"
| "process_step (CancelThrough i) p = on_object i (\<lambda>fd t.
     if i \<in> set (signals p) then follow i (session_apply fd Cancel) p else Returns p) p"
| "process_step (TimerWakes i k) p = on_object i (\<lambda>fd t.
     if k < length (lockoutTimers t) then follow i (session_apply fd (TimerFires k)) p else Returns p) p"
| "process_step (ClientDies i) p = on_object i (\<lambda>fd t.
     if mDeathRecipient t then follow i (session_apply fd ClientDeath) p else Returns p) p"
| "process_step (PollThread i e) p = on_object i (\<lambda>fd t.
     Returns (if alive p i then run_on i (session_apply fd (UdfpsThread e)) p else p)) p"
| "process_step (HalCalls clk msg) p = notify_tests clk msg p"
| "process_step (HalGoesOn j) p = notify_goes_on j p"

fun run_steps :: "('x \<Rightarrow> 'p \<Rightarrow> 'p outcome) \<Rightarrow> 'x list \<Rightarrow> 'p \<Rightarrow> 'p outcome" where
  "run_steps step [] p = Returns p"
| "run_steps step (x # xs) p = and_then (step x p) (run_steps step xs)"

lemma run_steps_append: "run_steps step (xs @ ys) p = and_then (run_steps step xs p) (run_steps step ys)"
proof (induction xs arbitrary: p)
  case (Cons x xs)
  then show ?case by (cases "step x p") simp_all
qed simp

abbreviation process_run :: "process_act list \<Rightarrow> 'd process \<Rightarrow> 'd process outcome" where
  "process_run \<equiv> run_steps process_step"

inductive process_life :: "'d process \<Rightarrow> bool" where
  started: "mSession s = None \<Longrightarrow> process_life (process_new s)"
| stepped: "process_life p \<Longrightarrow> process_step x p = Returns p' \<Longrightarrow> process_life p'"

section \<open>The invariant\<close>

text \<open>
  Only closed sessions are replaced, so the recipient of a former one is gone; references, signals and loaded
  addresses are of sessions that have been made; calls of \<open>notify\<close> go on only once there is a session; and
  sessions need a device.
\<close>

fun loaded :: "notify_phase \<Rightarrow> nat set" where
  "loaded (Asks i) = {i}"
| "loaded (Enters i) = {i}"
| "loaded _ = {}"

definition calls_below :: "nat \<Rightarrow> hal_call list \<Rightarrow> bool" where
  "calls_below n cs \<longleftrightarrow> (\<forall>c \<in> set cs. loaded (phase c) \<subseteq> {..<n})"

lemma calls_below_Nil [simp]: "calls_below n []"
  by (simp add: calls_below_def)

lemma calls_below_mono: "calls_below n cs \<Longrightarrow> n \<le> m \<Longrightarrow> calls_below m cs"
  by (fastforce simp: calls_below_def)

lemma calls_below_subset: "calls_below n cs \<Longrightarrow> set cs' \<subseteq> set cs \<Longrightarrow> calls_below n cs'"
  by (auto simp: calls_below_def)

lemma calls_below_insert: "calls_below n cs \<Longrightarrow> loaded (phase c) \<subseteq> {..<n} \<Longrightarrow> set cs' \<subseteq> insert c (set cs) \<Longrightarrow> calls_below n cs'"
  by (auto simp: calls_below_def)

definition process_ok :: "'d process \<Rightarrow> bool" where
  "process_ok p \<longleftrightarrow>
     (\<forall>t \<in> set (former p). mClosed t \<and> \<not> mDeathRecipient t)
     \<and> (\<forall>t. mSession (service p) = Some t \<longrightarrow> close_inv t)
     \<and> set (held p) \<subseteq> {..<made p} \<and> set (signals p) \<subseteq> {..<made p}
     \<and> (delivering p \<noteq> [] \<longrightarrow> mSession (service p) \<noteq> None)
     \<and> calls_below (made p) (delivering p)
     \<and> (mDevice (service p) = None \<longrightarrow> mSession (service p) = None \<and> former p = [])"

lemma on_session_session [simp]:
  "mSession (on_session f t s)
     = Some (this (f \<lparr>this = t, dev = fpDev s, enrollments = fpEnrollments s, effects = fpEffects s\<rparr>))"
  by (simp add: on_session_def Let_def)

lemma run_on_frame [simp]:
  "held (run_on i f p) = held p" "signals (run_on i f p) = signals p" "delivering (run_on i f p) = delivering p"
  "length (former (run_on i f p)) = length (former p)" "made (run_on i f p) = made p"
  "mDevice (service (run_on i f p)) = mDevice (service p)"
  "mSession (service (run_on i f p)) = None \<longleftrightarrow> mSession (service p) = None"
  by (auto simp: run_on_def made_def object_def Let_def split: option.splits)

lemma object_made: "object i p = None \<longleftrightarrow> made p \<le> i"
  by (auto simp: object_def made_def split: option.splits)

lemma closed_stays:
  assumes "mClosed (this s)" and "\<not> mDeathRecipient (this s)"
  shows "mClosed (this (session_apply fd x s)) \<and> \<not> mDeathRecipient (this (session_apply fd x s))"
proof (cases "x = Close \<or> x = ClientDeath")
  case True
  then show ?thesis using assms by (auto simp: op_effects)
next
  case False
  then show ?thesis using assms close_frame [of x fd s] by simp
qed

lemma process_ok_run_on:
  assumes "process_ok p"
  shows "process_ok (run_on i (session_apply fd x) p)"
proof -
  let ?q = "run_on i (session_apply fd x) p" and ?gone = "{t. mClosed t \<and> \<not> mDeathRecipient t}"
  let ?r = "session_apply fd x \<lparr>this = former p ! i, dev = fpDev (service p), enrollments = fpEnrollments (service p),
    effects = fpEffects (service p)\<rparr>"
  have old: "set (former p) \<subseteq> ?gone"
    using assms by (auto simp: process_ok_def)
  have "set (former ?q) \<subseteq> ?gone"
  proof (cases "i < length (former p)")
    case True
    then have "former p ! i \<in> ?gone"
      using old nth_mem by blast
    then have "this ?r \<in> ?gone"
      by (simp add: closed_stays)
    moreover have "former ?q = (former p)[i := this ?r]"
      using True by (simp add: run_on_def object_def Let_def)
    ultimately show ?thesis
      using old by (simp only: set_update_subsetI)
  next
    case False
    then show ?thesis using old by (simp add: run_on_def split: option.split)
  qed
  moreover have "close_inv t" if "mSession (service (run_on i (session_apply fd x) p)) = Some t" for t
    using assms that
    by (auto simp: process_ok_def run_on_def object_def Let_def close_inv_apply split: option.splits if_splits)
  moreover have "former (run_on i (session_apply fd x) p) = [] \<longleftrightarrow> former p = []"
    by (metis length_0_conv run_on_frame(4))
  ultimately show ?thesis
    using assms unfolding process_ok_def run_on_frame by blast
qed

lemma made_updates [simp]:
  "made (p\<lparr>signals := x\<rparr>) = made p" "made (p\<lparr>held := x\<rparr>) = made p" "made (p\<lparr>delivering := d\<rparr>) = made p"
  by (simp_all add: made_def)

lemma process_ok_signal: "process_ok p \<Longrightarrow> i < made p \<Longrightarrow> process_ok (p\<lparr>signals := signals p @ [i]\<rparr>)"
  by (simp add: process_ok_def)

lemma process_ok_calls:
  "process_ok p \<Longrightarrow> mSession (service p) \<noteq> None \<or> cs = [] \<Longrightarrow> calls_below (made p) cs \<Longrightarrow> process_ok (p\<lparr>delivering := cs\<rparr>)"
  by (auto simp: process_ok_def)

lemma call_parts [simp]:
  "alive (ends j p) = alive p" "object i (ends j p) = object i p" "made (ends j p) = made p"
  "service (ends j p) = service p" "former (ends j p) = former p" "held (ends j p) = held p"
  "alive (moves_to j ph p) = alive p" "object i (moves_to j ph p) = object i p" "made (moves_to j ph p) = made p"
  "service (moves_to j ph p) = service p" "former (moves_to j ph p) = former p" "held (moves_to j ph p) = held p"
  by (simp_all add: ends_def moves_to_def alive_def object_def fun_eq_iff)

lemma ends_subset: "set (delivering (ends j p)) \<subseteq> set (delivering p)"
  by (auto simp: ends_def dest: in_set_takeD in_set_dropD)

lemma process_ok_ends:
  assumes "process_ok p"
  shows "process_ok (ends j p)"
proof -
  have "calls_below (made p) (delivering (ends j p))"
    by (rule calls_below_subset [OF _ ends_subset]) (use assms in \<open>simp add: process_ok_def\<close>)
  then show ?thesis
    using assms unfolding ends_def by (intro process_ok_calls) (auto simp: process_ok_def)
qed

lemma process_ok_moves:
  assumes "process_ok p" and "mSession (service p) \<noteq> None" and "loaded ph \<subseteq> {..<made p}"
  shows "process_ok (moves_to j ph p)"
  unfolding moves_to_def
  by (rule process_ok_calls [OF assms(1) _ calls_below_insert [OF _ _ set_update_subset_insert]])
    (use assms in \<open>simp_all add: process_ok_def\<close>)

lemma create_session_ok:
  assumes "Fingerprint_createSession user s = Returns s'"
  shows "mDevice s' = mDevice s \<and> mDevice s \<noteq> None \<and> mSession s' = Some (Session_members user (fpLockoutTracker s))
    \<and> (\<forall>t. mSession s = Some t \<longrightarrow> mClosed t)"
  using assms
  by (auto simp: Fingerprint_createSession_def Session_new_def Session_linkToDeath_def split: option.splits if_splits)

lemma close_inv_members: "close_inv (Session_members user tracker)"
  by (simp add: close_inv_def Session_members_def)

lemma goes_on_ok:
  assumes "process_ok p" and "notify_goes_on j p = Returns p'"
  shows "process_ok p'"
proof (cases "j < length (delivering p)")
  case True
  have n: "length (former p) < made p" if "mSession (service p) \<noteq> None"
    using that by (auto simp: made_def)
  have some: "mSession (service p) \<noteq> None"
    using assms(1) True by (auto simp: process_ok_def)
  show ?thesis
  proof (cases "phase (delivering p ! j)")
    case (Asks i)
    then show ?thesis
      using assms True some by (auto simp: notify_goes_on_def notify_asks_def split: option.splits if_splits
          intro: process_ok_ends process_ok_moves)
  next
    case (Enters i)
    then show ?thesis
      using assms True process_ok_run_on [OF process_ok_ends [OF assms(1), of j]]
      by (auto simp: notify_goes_on_def notify_delivers_def follow_def split: option.splits if_splits)
  qed (use assms True some n in \<open>auto simp: notify_goes_on_def notify_loads_def intro: process_ok_moves split: if_splits\<close>)
qed (use assms in \<open>simp add: notify_goes_on_def\<close>)

lemma process_ok_step:
  assumes "process_ok p" and "process_step x p = Returns p'"
  shows "process_ok p'"
proof (cases x)
  case (Create user)
  then obtain s where s: "Fingerprint_createSession user (service p) = Returns s"
    and p': "p' = p\<lparr>service := s, former := former p @ (case mSession (service p) of None \<Rightarrow> [] | Some t \<Rightarrow> [t]),
      held := held p @ [made p]\<rparr>"
    using assms(2) by auto
  have "calls_below (made p) (delivering p)"
    using assms(1) by (simp add: process_ok_def)
  from calls_below_mono [OF this, of "made p'"] have "calls_below (made p') (delivering p)"
    using p' create_session_ok [OF s] by (auto simp: made_def split: option.splits)
  then show ?thesis
    using assms(1) create_session_ok [OF s] close_inv_members p'
    by (auto simp: process_ok_def made_def close_inv_def split: option.splits)
next
  case (Call i y)
  then show ?thesis
    using assms process_ok_run_on [OF assms(1)] process_ok_signal [of "run_on i f p" i for f] object_made [of i p]
    by (force simp: on_object_def Let_def split: option.splits if_splits)
next
  case (Release i)
  have "set (remove1 i (held p)) \<subseteq> {..<made p}"
    using assms(1) by (intro subset_trans [OF set_remove1_subset]) (simp add: process_ok_def)
  then show ?thesis
    using assms Release by (auto simp: process_ok_def)
next
  case (HalCalls clk msg)
  have "process_ok (p\<lparr>delivering := delivering p @ [\<lparr>phase = Nonnull, clock = clk, message = msg\<rparr>]\<rparr>)"
    if "mSession (service p) \<noteq> None"
    by (rule process_ok_calls [OF assms(1)]) (use assms(1) that in \<open>auto simp: process_ok_def calls_below_def\<close>)
  then show ?thesis
    using assms HalCalls by (auto split: if_splits)
next
  case (HalGoesOn j)
  then show ?thesis
    using assms by (auto intro: goes_on_ok)
qed (use assms process_ok_run_on [OF assms(1)] in \<open>auto simp: on_object_def follow_def split: option.splits if_splits\<close>)

lemma process_ok_new: "mSession s = None \<Longrightarrow> process_ok (process_new s)"
  by (simp add: process_new_def process_ok_def)

lemma life_ok: "process_life p \<Longrightarrow> process_ok p"
  by (induction rule: process_life.induct) (blast intro: process_ok_new process_ok_step)+

section \<open>What is undefined\<close>

text \<open>A session nobody refers to any more: the service has replaced it and the framework has let it go.\<close>

definition gone :: "'d process \<Rightarrow> nat \<Rightarrow> bool" where
  "gone p i \<longleftrightarrow> i < length (former p) \<and> i \<notin> set (held p)"

lemma gone_alive: "process_ok p \<Longrightarrow> i < made p \<Longrightarrow> gone p i = (\<not> alive p i)"
  by (auto simp: gone_def alive_def made_def split: option.splits)

lemma object_some: "object i p = Some t \<Longrightarrow> i < made p"
  using object_made [of i p] by (auto simp: not_le [symmetric])

fun goes_wrong :: "process_act \<Rightarrow> 'd process \<Rightarrow> bool" where
  "goes_wrong (Create user) p = (mDevice (service p) = None)"
| "goes_wrong (Call i x) p =
     (i \<in> set (held p) \<and> is_request x \<and> (case object i p of None \<Rightarrow> False | Some t \<Rightarrow> misused x t))"
| "goes_wrong (CancelThrough i) p = (i \<in> set (signals p) \<and> gone p i)"
| "goes_wrong (TimerWakes i k) p =
     (gone p i \<and> (case object i p of None \<Rightarrow> False | Some t \<Rightarrow> k < length (lockoutTimers t)))"
| "goes_wrong (HalGoesOn j) p =
     (j < length (delivering p) \<and> (\<exists>i \<in> loaded (phase (delivering p ! j)). gone p i))"
| "goes_wrong _ p = False"

lemma recipient_alive:
  assumes "process_ok p" and "object i p = Some t" and "mDeathRecipient t"
  shows "alive p i"
  using assms by (auto simp: process_ok_def object_def alive_def split: if_splits)

lemma undefined_iff:
  assumes ok: "process_ok p"
  shows "process_step x p = Undefined_behaviour \<longleftrightarrow> goes_wrong x p"
proof -
  have device: "mDevice (service p) \<noteq> None" if "object i p = Some t" for i t
    using ok that by (auto simp: process_ok_def object_def split: if_splits)
  show ?thesis
  proof (cases x)
    case (Create user)
    then show ?thesis
      using ok by (auto simp: Fingerprint_createSession_def process_ok_def split: option.splits)
  next
    case (Call i y)
    then show ?thesis
      using device [of i] by (auto simp: on_object_def Let_def split: option.splits)
  next
    case (CancelThrough i)
    then show ?thesis
      using ok device [of i] object_some [of i p] gone_alive [OF ok, of i] object_made [of i p]
      by (auto simp: on_object_def follow_def process_ok_def split: option.splits)
  next
    case (TimerWakes i k)
    then show ?thesis
      using device [of i] object_some [of i p] gone_alive [OF ok, of i]
      by (auto simp: on_object_def follow_def split: option.splits)
  next
    case (ClientDies i)
    then show ?thesis
      using recipient_alive [OF ok, of i] by (auto simp: on_object_def follow_def split: option.splits)
  next
    case (HalGoesOn j)
    show ?thesis
    proof (cases "j < length (delivering p)")
      case True
      then have some: "mSession (service p) \<noteq> None" "mDevice (service p) \<noteq> None" "loaded (phase (delivering p ! j)) \<subseteq> {..<made p}"
        using ok by (auto simp: process_ok_def calls_below_def)
      then have "gone p i = (\<not> alive p i)" "object i p \<noteq> None" if "i \<in> loaded (phase (delivering p ! j))" for i
        using that gone_alive [OF ok, of i] object_made [of i p] by auto
      then show ?thesis
        using HalGoesOn True some
        by (cases "phase (delivering p ! j)")
          (auto simp: notify_goes_on_def notify_loads_def notify_asks_def notify_delivers_def follow_def split: option.splits)
    qed (use HalGoesOn in \<open>simp add: notify_goes_on_def\<close>)
  qed (auto simp: on_object_def split: option.splits)
qed

lemma gone_closed:
  "process_ok p \<Longrightarrow> gone p i \<Longrightarrow> \<exists>t. object i p = Some t \<and> mClosed t \<and> \<not> mDeathRecipient t"
  by (auto simp: gone_def object_def process_ok_def)

text \<open>
  C11: Which uses of a session by its address are undefined, exactly: in every life of the process, with any number of
  calls of \<open>notify\<close> under way, a step has no defined behaviour if and only if it asks for a session although there is no
  device, closes a session twice, enrolls with a MAC of more than 32 bytes, cancels through a signal whose session
  is gone, wakes a lockout thread whose session is gone, or is the next step of a call of \<open>notify\<close> that has loaded the
  address of a session that is gone by now. A session is gone only after it was closed, replaced and let go by
  the framework; requests, UDFPS threads and deaths of clients never find one gone. An operation, once it has begun
  on a session, is one step.
\<close>

theorem undefined_steps_exact:
  assumes "process_life p"
  shows "(process_step x p = Undefined_behaviour \<longleftrightarrow> goes_wrong x p)
    \<and> (gone p i \<longrightarrow> (\<exists>t. object i p = Some t \<and> mClosed t \<and> \<not> mDeathRecipient t))"
  using undefined_iff [OF life_ok [OF assms]] gone_closed [OF life_ok [OF assms]] by blast

theorem undefined_steps_exact_witness:
  "process_step (Create 0) (process_new ((sample_service None)\<lparr>mDevice := None\<rparr>)) = Undefined_behaviour"
  using undefined_steps_exact [OF process_life.started, of "(sample_service None)\<lparr>mDevice := None\<rparr>" "Create 0"]
  by (simp add: process_new_def sample_service_def)

end
