(* ===== verification/Fp_Process_Props.thy ===== *)
theory Fp_Process_Props
  imports Fp_Process
begin

text \<open>
  What happens to the sessions of the fingerprint process over time: objects that are gone stay as they
  were, the threads and messages that outlive a session, and the messages that still come to a closed one.
\<close>

section \<open>Objects that are gone\<close>

text \<open>
  What it takes for shared objects to have a life: only made ones are alive, none is made again, and nobody
  changes one that is gone.
\<close>

locale object_life =
  fixes step :: "'x \<Rightarrow> 'p \<Rightarrow> 'p outcome" and ok :: "'p \<Rightarrow> bool" and count :: "'p \<Rightarrow> nat"
    and lives :: "'p \<Rightarrow> nat \<Rightarrow> bool" and obj :: "nat \<Rightarrow> 'p \<Rightarrow> 'o option"
  assumes ok_step: "ok p \<Longrightarrow> step x p = Returns p' \<Longrightarrow> ok p'"
    and grows: "ok p \<Longrightarrow> step x p = Returns p' \<Longrightarrow> count p \<le> count p'"
    and frozen: "ok p \<Longrightarrow> step x p = Returns p' \<Longrightarrow> i < count p \<Longrightarrow> \<not> lives p i \<Longrightarrow> \<not> lives p' i \<and> obj i p' = obj i p"
begin

lemma frozen_run:
  "ok p \<Longrightarrow> i < count p \<Longrightarrow> \<not> lives p i \<Longrightarrow> run_steps step xs p = Returns p'
    \<Longrightarrow> ok p' \<and> i < count p' \<and> \<not> lives p' i \<and> obj i p' = obj i p"
proof (induction xs arbitrary: p)
  case (Cons x xs)
  then obtain q where q: "step x p = Returns q" "run_steps step xs q = Returns p'"
    by auto
  have "ok q" "i < count q" "\<not> lives q i \<and> obj i q = obj i p"
    using ok_step [OF Cons.prems(1) q(1)] grows [OF Cons.prems(1) q(1)] frozen [OF Cons.prems(1) q(1) Cons.prems(2,3)]
      Cons.prems(2) by auto
  then show ?case
    using Cons.IH [of q] q(2) by auto
qed simp

end

lemmas goes_on_defs = notify_goes_on_def notify_loads_def notify_asks_def notify_delivers_def follow_def

lemma object_run_on: "j \<noteq> i \<Longrightarrow> object j (run_on i f p) = object j p"
  by (auto simp: run_on_def object_def Let_def split: option.split)

lemma object_other: "alive p j \<Longrightarrow> \<not> alive p i \<Longrightarrow> object i (run_on j f p) = object i p"
  by (metis object_run_on)

lemma alive_run_on [simp]: "alive (run_on i f p) = alive p"
  by (auto simp: alive_def fun_eq_iff)

lemma object_updates [simp]:
  "object j (p\<lparr>signals := x\<rparr>) = object j p" "object j (p\<lparr>held := x\<rparr>) = object j p" "object j (p\<lparr>delivering := d\<rparr>) = object j p"
  "alive (p\<lparr>signals := x\<rparr>) = alive p" "alive (p\<lparr>delivering := d\<rparr>) = alive p"
  by (simp_all add: object_def alive_def fun_eq_iff)

lemma created:
  assumes "process_step (Create user) p = Returns p'"
  obtains s where "Fingerprint_createSession user (service p) = Returns s"
    and "p' = p\<lparr>service := s, former := former p @ (case mSession (service p) of None \<Rightarrow> [] | Some t \<Rightarrow> [t]),
      held := held p @ [made p]\<rparr>" and "length (former p') = made p" and "made p' = Suc (made p)"
proof -
  obtain s where s: "Fingerprint_createSession user (service p) = Returns s"
    using assms by auto
  then have "mSession s \<noteq> None"
    using create_session_ok by blast
  then show ?thesis
    using that [OF s] assms s by (auto simp: made_def split: option.splits)
qed

lemma create_frozen:
  assumes "process_step (Create user) p = Returns p'" and "i < made p" and "\<not> alive p i"
  shows "\<not> alive p' i \<and> object i p' = object i p"
  using created [OF assms(1)]
proof cases
  case (1 s)
  have i: "i < length (former p)"
    using assms(2,3) by (auto simp: made_def alive_def split: option.splits)
  moreover have "i < length (former p')" "former p' ! i = former p ! i"
    using i 1(2,3) assms(2) by (auto simp: nth_append)
  ultimately show ?thesis
    using assms(2,3) 1(2,3) by (auto simp: object_def alive_def)
qed

lemma step_grows: "process_ok p \<Longrightarrow> process_step x p = Returns p' \<Longrightarrow> made p \<le> made p'"
proof (cases x)
  case (Create user)
  then show "process_step x p = Returns p' \<Longrightarrow> made p \<le> made p'"
    using created [of user p p'] by (metis le_SucI order_refl)
next
  case (HalGoesOn j)
  then show "process_step x p = Returns p' \<Longrightarrow> made p \<le> made p'"
    by (auto simp: goes_on_defs split: notify_phase.splits option.splits if_splits)
qed (auto simp: on_object_def follow_def Let_def split: option.splits if_splits)

lemma step_frozen:
  assumes "process_ok p" and "process_step x p = Returns p'" and "i < made p" and "\<not> alive p i"
  shows "\<not> alive p' i \<and> object i p' = object i p"
proof (cases x)
  case (Create user)
  then show ?thesis
    using assms create_frozen by blast
next
  case (Call j y)
  have "j \<noteq> i" if "j \<in> set (held p)"
    using that assms(4) by (auto simp: alive_def)
  then show ?thesis
    using assms Call by (auto simp: on_object_def Let_def object_run_on split: option.splits if_splits)
next
  case (Release j)
  then show ?thesis
    using assms by (auto simp: alive_def dest: set_remove1_subset [THEN subsetD])
next
  case (HalCalls clk msg)
  then show ?thesis
    using assms by (auto split: option.splits if_splits)
next
  case (HalGoesOn j)
  then show ?thesis
    using assms by (auto simp: goes_on_defs object_other split: notify_phase.splits option.splits if_splits)
qed (use assms in \<open>auto simp: on_object_def follow_def object_other split: option.splits if_splits\<close>)

interpretation pl: object_life process_step process_ok made alive object
  by unfold_locales (rule process_ok_step step_grows step_frozen; assumption)+

section \<open>Threads that outlive their session\<close>

lemma close_step:
  assumes "process_ok p" and "mSession (service p) = Some t" and "\<not> mClosed t" and "length (former p) \<in> set (held p)"
  shows "\<exists>q t'. process_step (Call (length (former p)) Close) p = Returns q \<and> mSession (service q) = Some t' \<and> mClosed t'
    \<and> lockoutTimers t' = lockoutTimers t \<and> former q = former p \<and> held q = held p \<and> mDevice (service q) = mDevice (service p)
    \<and> delivering q = delivering p"
proof -
  let ?n = "length (former p)"
  obtain fd where fd: "mDevice (service p) = Some fd"
    using assms(1,2) by (auto simp: process_ok_def)
  let ?s = "\<lparr>this = t, dev = fpDev (service p), enrollments = fpEnrollments (service p), effects = fpEffects (service p)\<rparr>"
  have "mDeathRecipient t"
    using assms(1-3) by (simp add: process_ok_def close_inv_def)
  then have "process_step (Call ?n Close) p = Returns (run_on ?n (session_apply fd Close) p)"
    using assms(2,4) fd by (simp add: on_object_def object_def del: session_apply.simps)
  moreover have "mClosed (this (session_apply fd Close ?s))"
    by (simp add: op_effects)
  moreover have "lockoutTimers (this (session_apply fd Close ?s)) = lockoutTimers t"
    using lockout_frame [of Close fd ?s] by (simp add: lockout_part_def)
  ultimately show ?thesis
    using assms(2) fd by (auto simp: run_on_def object_def simp del: session_apply.simps)
qed

text \<open>The framework closes a session it holds once, opens the next one and lets the old one go: it is gone.\<close>

lemma let_go:
  assumes "process_ok p" and "mSession (service p) = Some t" and "\<not> mClosed t" and "count_list (held p) (length (former p)) = 1"
  obtains q t' where "process_run [Call (length (former p)) Close, Create user, Release (length (former p))] p = Returns q"
    and "process_ok q" and "length (former p) < made q" and "\<not> alive q (length (former p))"
    and "object (length (former p)) q = Some t'" and "lockoutTimers t' = lockoutTimers t" and "delivering q = delivering p"
proof -
  let ?n = "length (former p)"
  have "?n \<in> set (held p)"
    using assms(4) by (metis count_list_0_iff zero_neq_one)
  then obtain q1 t' where q1: "process_step (Call ?n Close) p = Returns q1" "mSession (service q1) = Some t'" "mClosed t'"
      "lockoutTimers t' = lockoutTimers t" "former q1 = former p" "held q1 = held p" "mDevice (service q1) = mDevice (service p)"
      "delivering q1 = delivering p"
    using close_step [OF assms(1-3)] by blast
  note ok1 = process_ok_step [OF assms(1) q1(1)]
  obtain q2 where q2: "process_step (Create user) q1 = Returns q2"
    using q1(2,3,7) assms(1,2) by (auto simp: Fingerprint_createSession_def process_ok_def split: option.splits)
  let ?q = "q2\<lparr>held := remove1 ?n (held q2)\<rparr>"
  have q2': "former q2 = former p @ [t']" "held q2 = held p @ [Suc ?n]" "delivering q2 = delivering p"
    by (rule created [OF q2], simp add: q1(2,5,6,8) made_def)+
  have ok3: "process_ok ?q"
    using process_ok_step [OF process_ok_step [OF ok1 q2], of "Release ?n" ?q] by simp
  have "?n \<notin> set (remove1 ?n (held q2))"
    using assms(4) unfolding count_list_0_iff [symmetric] q2'(2) by simp
  then have g: "gone ?q ?n" "object ?n ?q = Some t'"
    using q2' by (simp_all add: gone_def object_def)
  then have n: "?n < made ?q"
    by (simp add: gone_def made_def)
  moreover have "\<not> alive ?q ?n"
    using gone_alive [OF ok3 n] g(1) by blast
  moreover have "process_run [Call ?n Close, Create user, Release ?n] p = Returns ?q"
    using q1(1) q2 by (simp del: process_step.simps add: process_step.simps(3))
  ultimately show ?thesis
    using that [of ?q t'] ok3 g(2) q1(4) q2'(3) by simp
qed

text \<open>
  C38: A lockout thread outlives its session: when the current session, shared by the framework once, is open
  and has a lockout thread asleep, the framework may close it, open the next session and let the old one go;
  from then on, whatever else the process does, the thread finds the object gone when it wakes.
\<close>

theorem lockout_thread_outlives_session:
  assumes "process_life p" and "mSession (service p) = Some t" and "\<not> mClosed t" and "lockoutTimers t \<noteq> []"
    and "count_list (held p) (length (former p)) = 1"
  shows "\<exists>q. process_run [Call (length (former p)) Close, Create user, Release (length (former p))] p = Returns q
    \<and> (\<forall>xs p'. process_run xs q = Returns p' \<longrightarrow>
        process_step (TimerWakes (length (former p)) 0) p' = Undefined_behaviour)"
proof -
  let ?n = "length (former p)"
  obtain q t' where q: "process_run [Call ?n Close, Create user, Release ?n] p = Returns q" "process_ok q" "?n < made q"
      "\<not> alive q ?n" "object ?n q = Some t'" "lockoutTimers t' = lockoutTimers t"
    using let_go [OF life_ok [OF assms(1)] assms(2,3,5)] by metis
  have "process_step (TimerWakes ?n 0) p' = Undefined_behaviour" if "process_run xs q = Returns p'" for xs p'
  proof -
    have p': "process_ok p'" "?n < made p'" "\<not> alive p' ?n" "object ?n p' = Some t'"
      using pl.frozen_run [OF q(2-4) that] q(5) by auto
    then have "goes_wrong (TimerWakes ?n 0) p'"
      using gone_alive [OF p'(1,2)] q(6) assms(4) by simp
    then show ?thesis
      using undefined_iff [OF p'(1)] by blast
  qed
  then show ?thesis
    using q(1) by blast
qed

text \<open>
  C5: A message outlives its session: when a call of \<open>notify\<close> has loaded the address of the current session, which is
  open and shared by the framework once, then the framework may close the session, open the next one and let the
  old one go, each as its interface allows, and from then on, whatever else the process does, the next step of the call
  finds the object gone.
\<close>

theorem message_outlives_session:
  assumes "process_life p" and "mSession (service p) = Some t" and "\<not> mClosed t"
    and "count_list (held p) (length (former p)) = 1"
    and "j < length (delivering p)" and "phase (delivering p ! j) \<in> {Asks (length (former p)), Enters (length (former p))}"
  shows "\<exists>q. process_run [Call (length (former p)) Close, Create user, Release (length (former p))] p = Returns q
    \<and> process_step (HalGoesOn j) q = Undefined_behaviour
    \<and> (\<forall>xs p' m. process_run xs q = Returns p' \<longrightarrow> m < length (delivering p')
        \<longrightarrow> phase (delivering p' ! m) \<in> {Asks (length (former p)), Enters (length (former p))}
        \<longrightarrow> process_step (HalGoesOn m) p' = Undefined_behaviour)"
proof -
  let ?n = "length (former p)"
  obtain q where q: "process_run [Call ?n Close, Create user, Release ?n] p = Returns q" "process_ok q" "?n < made q"
      "\<not> alive q ?n" "delivering q = delivering p"
    using let_go [OF life_ok [OF assms(1)] assms(2-4)] by metis
  have wrong: "process_step (HalGoesOn m) p' = Undefined_behaviour"
    if "process_run xs q = Returns p'" "m < length (delivering p')" "phase (delivering p' ! m) \<in> {Asks ?n, Enters ?n}" for xs p' m
  proof -
    have p': "process_ok p'" "?n < made p'" "\<not> alive p' ?n"
      using pl.frozen_run [OF q(2-4) that(1)] by auto
    then have "goes_wrong (HalGoesOn m) p'"
      using gone_alive [OF p'(1,2)] that(2,3) by auto
    then show ?thesis
      using undefined_iff [OF p'(1)] by blast
  qed
  moreover have "process_step (HalGoesOn j) q = Undefined_behaviour"
    by (rule wrong [of "[]"]) (use assms(5,6) q(5) in simp_all)
  ultimately show ?thesis
    using q(1) by blast
qed

text \<open>A service that has counted four failures, and a fifth one.\<close>

definition four_failures :: "unit Fingerprint" where
  "four_failures = (sample_service None)\<lparr>fpLockoutTracker := \<lparr>mFailedCount = 4, mLockoutTimedStart = 0, mCurrentMode = NONE\<rparr>\<rparr>"

definition fifth_failure :: "process_act list" where
  "fifth_failure = [HalCalls (\<lambda>_. sample_clock 1) (FINGERPRINT_AUTHENTICATED no_finger no_hat),
     HalGoesOn 0, HalGoesOn 0, HalGoesOn 0, HalGoesOn 0]"

text \<open>An undisturbed call on an open session comes as far as its operation.\<close>

lemma call_enters:
  assumes "mSession (service p) = Some t" and "\<not> mClosed t"
  shows "process_run [HalCalls clk msg, HalGoesOn (length (delivering p)), HalGoesOn (length (delivering p)),
      HalGoesOn (length (delivering p))] p
    = Returns (p\<lparr>delivering := delivering p @ [\<lparr>phase = Enters (length (former p)), clock = clk, message = msg\<rparr>]\<rparr>)"
  using assms by (simp add: goes_on_defs moves_to_def alive_def object_def)

lemma run_one: "run_steps step [x] p = step x p"
  by (cases "step x p") simp_all

lemma life_run: "process_life p \<Longrightarrow> process_run xs p = Returns q \<Longrightarrow> process_life q"
  by (induction xs arbitrary: p) (auto intro: process_life.stepped)

lemma fifth_failure_locks:
  "\<exists>p t. process_run (Create 0 # fifth_failure) (process_new four_failures) = Returns p \<and> process_life p
    \<and> mSession (service p) = Some t \<and> \<not> mClosed t \<and> lockoutTimers t = [30000] \<and> former p = [] \<and> held p = [0]
    \<and> delivering p = [] \<and> mDevice (service p) = Some accepting_device"
proof -
  have c: "Fingerprint_createSession 0 four_failures = Returns (four_failures\<lparr>
      mSession := Some (Session_members 0 (fpLockoutTracker four_failures)),
      fpEffects := [DevSetActiveGroup 0 (group_path 0), LinkToDeath]\<rparr>)"
    by (simp add: four_failures_def sample_service_def Fingerprint_createSession_def on_session_def Session_new_def
        Session_linkToDeath_def accepting_device_def Let_def)
  define s0 where "s0 = four_failures\<lparr>mSession := Some (Session_members 0 (fpLockoutTracker four_failures)),
      fpEffects := [DevSetActiveGroup 0 (group_path 0), LinkToDeath]\<rparr>"
  let ?p = "\<lparr>service = s0, former = [], held = [0], signals = [], delivering = []\<rparr>"
  let ?msg = "FINGERPRINT_AUTHENTICATED no_finger no_hat"
  let ?call = "\<lparr>phase = Enters 0, clock = \<lambda>_. sample_clock 1, message = ?msg\<rparr>"
  have "mSession four_failures = None"
    by (simp add: four_failures_def sample_service_def)
  then have created: "process_step (Create 0) (process_new four_failures) = Returns ?p"
    by (simp add: c s0_def process_new_def made_def)
  have t: "mSession s0 = Some (Session_members 0 (fpLockoutTracker four_failures))"
      "\<not> mClosed (Session_members 0 (fpLockoutTracker four_failures))"
    by (simp_all add: s0_def Session_members_def)
  have calls: "process_run [HalCalls (\<lambda>_. sample_clock 1) ?msg, HalGoesOn 0, HalGoesOn 0, HalGoesOn 0] ?p
      = Returns (?p\<lparr>delivering := [?call]\<rparr>)"
    using call_enters [of ?p _ "\<lambda>_. sample_clock 1" ?msg] t by simp
  obtain p where p: "process_step (HalGoesOn 0) (?p\<lparr>delivering := [?call]\<rparr>) = Returns p"
      "\<exists>t. mSession (service p) = Some t \<and> \<not> mClosed t \<and> lockoutTimers t = [30000]" "former p = []" "held p = [0]"
      "delivering p = []" "mDevice (service p) = Some accepting_device"
    by (simp add: s0_def four_failures_def sample_service_def notify_goes_on_def notify_delivers_def follow_def ends_def alive_def
        object_def run_on_def Session_members_def on_session_def run_checkSensorLockout no_finger_def lockout_defs
        LockoutTracker_getLockoutTimeLeft_def LOCKOUT_TIMED_DURATION_def sample_clock_def Let_def case_prod_beta)
  have "process_run ([Create 0] @ [HalCalls (\<lambda>_. sample_clock 1) ?msg, HalGoesOn 0, HalGoesOn 0, HalGoesOn 0] @ [HalGoesOn 0])
      (process_new four_failures) = Returns p"
    by (simp only: run_steps_append run_one created calls p(1) and_then.simps)
  then have run: "process_run (Create 0 # fifth_failure) (process_new four_failures) = Returns p"
    by (simp only: fifth_failure_def append.simps)
  have "process_life (process_new four_failures)"
    by (rule process_life.started) (simp add: four_failures_def sample_service_def)
  then show ?thesis
    using p(2-) run life_run by blast
qed

theorem lockout_thread_outlives_session_witness:
  "\<exists>q. process_run ([Create 0] @ fifth_failure @ [Call 0 Close, Create 0, Release 0]) (process_new four_failures) = Returns q
    \<and> process_step (TimerWakes 0 0) q = Undefined_behaviour"
proof -
  obtain p t where p: "process_run (Create 0 # fifth_failure) (process_new four_failures) = Returns p" "process_life p"
      "mSession (service p) = Some t" "\<not> mClosed t" "lockoutTimers t \<noteq> []" "former p = []" "held p = [0]"
    using fifth_failure_locks by auto
  from lockout_thread_outlives_session [OF p(2-5), of 0] obtain q
    where q: "process_run [Call 0 Close, Create 0, Release 0] p = Returns q"
      "\<forall>xs p'. process_run xs q = Returns p' \<longrightarrow> process_step (TimerWakes 0 0) p' = Undefined_behaviour"
    using p(6,7) by auto
  have "process_run ((Create 0 # fifth_failure) @ [Call 0 Close, Create 0, Release 0]) (process_new four_failures) = Returns q"
    unfolding run_steps_append using p(1) q(1) by (simp only: and_then.simps)
  moreover have "process_step (TimerWakes 0 0) q = Undefined_behaviour"
    using spec [OF spec [OF q(2), of "[]"], of q] by (simp only: run_steps.simps(1))
  ultimately show ?thesis
    by (metis append_Cons append_Nil)
qed

theorem message_outlives_session_witness:
  "\<exists>p q. process_run (Create 0 # fifth_failure) (process_new four_failures) = Returns p
    \<and> process_run [HalCalls (\<lambda>_. sample_clock 1) (FINGERPRINT_ERROR 5), HalGoesOn 0, HalGoesOn 0, HalGoesOn 0,
        Call 0 Close, Create 0, Release 0] p = Returns q
    \<and> process_step (HalGoesOn 0) q = Undefined_behaviour"
proof -
  let ?call = "[HalCalls (\<lambda>_. sample_clock 1) (FINGERPRINT_ERROR 5), HalGoesOn 0, HalGoesOn 0, HalGoesOn 0]"
  obtain p t where p: "process_run (Create 0 # fifth_failure) (process_new four_failures) = Returns p" "process_life p"
      "mSession (service p) = Some t" "\<not> mClosed t" "former p = []" "held p = [0]" "delivering p = []"
    using fifth_failure_locks by auto
  let ?p = "p\<lparr>delivering := [\<lparr>phase = Enters 0, clock = \<lambda>_. sample_clock 1, message = FINGERPRINT_ERROR 5\<rparr>]\<rparr>"
  have c: "process_run ?call p = Returns ?p"
    using call_enters [OF p(3,4), of "\<lambda>_. sample_clock 1" "FINGERPRINT_ERROR 5"] p(5,7) by simp
  obtain q where q: "process_run [Call 0 Close, Create 0, Release 0] ?p = Returns q" "process_step (HalGoesOn 0) q = Undefined_behaviour"
    using message_outlives_session [OF life_run [OF p(2) c], of t 0 0] p(3-6) by auto
  have "process_run (?call @ [Call 0 Close, Create 0, Release 0]) p = Returns q"
    unfolding run_steps_append using c q(1) by (simp only: and_then.simps)
  then show ?thesis
    using p(1) q(2) by auto
qed

section \<open>The last messages\<close>

fun passed :: "notify_phase \<Rightarrow> bool" where
  "passed Passed = True"
| "passed (Enters i) = True"
| "passed _ = False"

fun delivers :: "process_act \<Rightarrow> 'd process \<Rightarrow> bool" where
  "delivers (HalGoesOn j) p = (j < length (delivering p) \<and> phase (delivering p ! j) \<in> range Enters)"
| "delivers _ p = False"

fun deliveries :: "process_act list \<Rightarrow> 'd process \<Rightarrow> nat" where
  "deliveries [] p = 0"
| "deliveries (x # xs) p = (if delivers x p then 1 else 0)
     + (case process_step x p of Returns q \<Rightarrow> deliveries xs q | _ \<Rightarrow> 0)"

fun creates :: "process_act \<Rightarrow> bool" where
  "creates (Create user) = True"
| "creates _ = False"

definition session_closed :: "'d process \<Rightarrow> bool" where
  "session_closed p \<longleftrightarrow> (\<exists>t. mSession (service p) = Some t \<and> mClosed t)"

lemma closed_run_on:
  assumes "process_ok p" and "session_closed p"
  shows "session_closed (run_on i (session_apply fd x) p)"
proof -
  obtain t where "mSession (service p) = Some t" "mClosed t" "\<not> mDeathRecipient t"
    using assms by (auto simp: session_closed_def process_ok_def close_inv_def)
  then show ?thesis
    by (auto simp: session_closed_def run_on_def object_def closed_stays Let_def simp del: session_apply.simps split: option.split)
qed

lemma closed_updates [simp]:
  "session_closed (p\<lparr>signals := x\<rparr>) = session_closed p" "session_closed (p\<lparr>held := x\<rparr>) = session_closed p"
  by (simp_all add: session_closed_def)

definition calls_passed :: "'d process \<Rightarrow> nat" where
  "calls_passed p = length (filter (\<lambda>c. passed (phase c)) (delivering p))"

lemma calls_passed_simps [simp]:
  "calls_passed (run_on i f p) = calls_passed p" "calls_passed (p\<lparr>signals := x\<rparr>) = calls_passed p"
  "calls_passed (p\<lparr>held := y\<rparr>) = calls_passed p"
  by (simp_all add: calls_passed_def)

lemma calls_passed_ends:
  "j < length (delivering p) \<Longrightarrow> calls_passed (ends j p) + (if passed (phase (delivering p ! j)) then 1 else 0) = calls_passed p"
  using filter_removed [of j "delivering p" "\<lambda>c. passed (phase c)"] by (simp add: calls_passed_def ends_def)

lemma calls_passed_moves:
  "j < length (delivering p) \<Longrightarrow> calls_passed (moves_to j ph p) + (if passed (phase (delivering p ! j)) then 1 else 0)
    = calls_passed p + (if passed ph then 1 else 0)"
  using filter_update [of j "delivering p" "\<lambda>c. passed (phase c)" "(delivering p ! j)\<lparr>phase := ph\<rparr>"]
  by (simp add: calls_passed_def moves_to_def)

lemma closed_parts [simp]:
  "session_closed (ends j p) = session_closed p" "session_closed (moves_to j ph p) = session_closed p"
  by (simp_all add: session_closed_def)

lemma closed_object: "process_ok p \<Longrightarrow> session_closed p \<Longrightarrow> object i p = Some t \<Longrightarrow> mClosed t"
  by (auto simp: process_ok_def session_closed_def object_def split: if_splits)

lemma closed_goes_on:
  assumes "process_ok p" and "session_closed p" and "notify_goes_on j p = Returns q" and "j < length (delivering p)"
  shows "session_closed q \<and> (if phase (delivering p ! j) \<in> range Enters then 1 else 0) + calls_passed q \<le> calls_passed p"
proof (cases "phase (delivering p ! j)")
  case Nonnull
  then show ?thesis
    using assms calls_passed_moves [OF assms(4), of "Asks (length (former p))"]
    by (auto simp: notify_goes_on_def notify_loads_def split: if_splits)
next
  case (Asks i)
  then show ?thesis
    using assms calls_passed_ends [OF assms(4)] closed_object [OF assms(1,2)]
    by (auto simp: notify_goes_on_def notify_asks_def split: option.splits if_splits)
next
  case Passed
  then show ?thesis
    using assms calls_passed_moves [OF assms(4), of "Enters (length (former p))"]
    by (auto simp: notify_goes_on_def notify_loads_def split: if_splits)
next
  case (Enters i)
  then obtain fd clk msg where q: "q = run_on i (session_apply fd (Notify clk msg)) (ends j p)"
    using assms(3,4) by (auto simp: notify_goes_on_def notify_delivers_def follow_def split: option.splits if_splits)
  have "session_closed q"
    unfolding q by (rule closed_run_on [OF process_ok_ends [OF assms(1)]]) (simp add: assms(2))
  then show ?thesis
    using q Enters calls_passed_ends [OF assms(4)] by simp
qed

lemma closed_step:
  assumes "process_ok p" and "session_closed p" and "\<not> creates x" and "process_step x p = Returns q"
  shows "session_closed q \<and> (if delivers x p then 1 else 0) + calls_passed q \<le> calls_passed p"
proof (cases x)
  case (HalGoesOn j)
  then show ?thesis
    using assms closed_goes_on [OF assms(1,2), of j q] by (cases "j < length (delivering p)") (auto simp: notify_goes_on_def)
next
  case (HalCalls clk msg)
  then show ?thesis
    using assms(2,4) by (auto simp: session_closed_def calls_passed_def split: if_splits)
qed (use assms closed_run_on [OF assms(1,2)] in
    \<open>auto simp: on_object_def follow_def Let_def split: option.splits if_splits\<close>)

lemma delivers_passed: "(if delivers x p then 1 else 0) \<le> calls_passed p"
proof (cases x)
  case (HalGoesOn j)
  then show ?thesis
    using calls_passed_ends [of j p] by (auto split: if_splits)
qed simp_all

lemma closed_deliveries:
  "process_ok p \<Longrightarrow> session_closed p \<Longrightarrow> \<forall>x \<in> set xs. \<not> creates x \<Longrightarrow> deliveries xs p \<le> calls_passed p"
proof (induction xs arbitrary: p)
  case (Cons x xs)
  show ?case
  proof (cases "process_step x p")
    case (Returns q)
    then show ?thesis
      using Cons.IH [of q] closed_step [OF Cons.prems(1,2), of x q] process_ok_step [OF Cons.prems(1) Returns] Cons.prems(3)
      by fastforce
  next
    case Aborts
    then show ?thesis
      using delivers_passed [of x p] by simp
  next
    case Undefined_behaviour
    then show ?thesis
      using delivers_passed [of x p] by simp
  qed
qed simp

text \<open>
  C20: After \<open>close\<close> only messages in flight arrive: once the current session of a process is closed and until the
  next one is made, whatever happens and however many threads the HAL calls \<open>notify\<close> from, at most as many messages are still delivered as calls of
  \<open>notify\<close> had already passed their test; all other calls, under way or new, are turned away.
\<close>

theorem last_message:
  assumes "process_life p" and "session_closed p" and "\<forall>x \<in> set xs. \<not> creates x"
  shows "deliveries xs p \<le> length (filter (\<lambda>c. passed (phase c)) (delivering p))"
  using closed_deliveries [OF life_ok [OF assms(1)] assms(2,3)] by (simp add: calls_passed_def)

text \<open>Two calls pass their test, the session is closed, a third call comes, and both messages still arrive.\<close>

theorem last_message_witness:
  "\<exists>(p :: unit process) q. process_life p \<and> session_closed q
    \<and> process_run [HalCalls (\<lambda>_. sample_clock 1) (FINGERPRINT_ERROR 5), HalGoesOn 0, HalGoesOn 0, HalGoesOn 0,
        HalCalls (\<lambda>_. sample_clock 2) (FINGERPRINT_ERROR 6), HalGoesOn 1, HalGoesOn 1, HalGoesOn 1, Call 0 Close] p = Returns q
    \<and> deliveries [HalCalls (\<lambda>_. sample_clock 3) (FINGERPRINT_ERROR 7), HalGoesOn 0, HalGoesOn 0, HalGoesOn 0, HalGoesOn 0] q \<le> 2"
proof -
  obtain p :: "unit process" and t where p: "process_life p" "mSession (service p) = Some t" "\<not> mClosed t" "former p = []"
      "held p = [0]" "delivering p = []"
    using fifth_failure_locks by metis
  let ?a = "\<lparr>phase = Enters 0, clock = \<lambda>_. sample_clock 1, message = FINGERPRINT_ERROR 5\<rparr>"
    and ?b = "\<lparr>phase = Enters 0, clock = \<lambda>_. sample_clock 2, message = FINGERPRINT_ERROR 6\<rparr>"
  let ?p = "p\<lparr>delivering := [?a, ?b]\<rparr>"
  have a: "process_run [HalCalls (\<lambda>_. sample_clock 1) (FINGERPRINT_ERROR 5), HalGoesOn 0, HalGoesOn 0, HalGoesOn 0] p
      = Returns (p\<lparr>delivering := [?a]\<rparr>)"
    using call_enters [OF p(2,3), of "\<lambda>_. sample_clock 1" "FINGERPRINT_ERROR 5"] p(4,6) by simp
  have b: "process_run [HalCalls (\<lambda>_. sample_clock 2) (FINGERPRINT_ERROR 6), HalGoesOn 1, HalGoesOn 1, HalGoesOn 1]
      (p\<lparr>delivering := [?a]\<rparr>) = Returns ?p"
    using call_enters [of "p\<lparr>delivering := [?a]\<rparr>" t "\<lambda>_. sample_clock 2" "FINGERPRINT_ERROR 6"] p(2-4) by simp
  note life = life_run [OF life_run [OF p(1) a] b]
  obtain q where q: "process_step (Call 0 Close) ?p = Returns q" "session_closed q" "delivering q = [?a, ?b]"
    using close_step [OF life_ok [OF life], of t] p(2-5) by (auto simp: session_closed_def)
  have "process_run (([HalCalls (\<lambda>_. sample_clock 1) (FINGERPRINT_ERROR 5), HalGoesOn 0, HalGoesOn 0, HalGoesOn 0]
      @ [HalCalls (\<lambda>_. sample_clock 2) (FINGERPRINT_ERROR 6), HalGoesOn 1, HalGoesOn 1, HalGoesOn 1]) @ [Call 0 Close]) p = Returns q"
    by (simp only: run_steps_append run_one a b q(1) and_then.simps)
  moreover have "deliveries [HalCalls (\<lambda>_. sample_clock 3) (FINGERPRINT_ERROR 7), HalGoesOn 0, HalGoesOn 0, HalGoesOn 0, HalGoesOn 0] q
      \<le> length (filter (\<lambda>c. passed (phase c)) (delivering q))"
    by (rule last_message [OF process_life.stepped [OF life q(1)] q(2)]) simp
  ultimately show ?thesis
    using p(1) q(2,3) by (intro exI [of _ p] exI [of _ q]) simp
qed

end
