(* ===== verification/Fp_Races.thy ===== *)
theory Fp_Races
  imports Fp_Session_Props
begin

text \<open>
  The lockout thread of a session against everything else: \<open>lockoutTimerExpired\<close> of \<open>fingerprint/Session.cpp\<close>
  takes no lock, so operations and messages may fall between its statements. Here it is cut at each of
  them, where \<open>Fp_Session\<close> takes it as one: first one thread against one failed attempt, then all lockout threads a
  session ever starts against all its operations.
\<close>

section \<open>The statements of the thread\<close>

text \<open>Where the thread is: what it has read, whether the tracker is reset and the framework still to be told.\<close>

datatype expiry = Awake | Read bool | Announces | Cleared | Stopped | Finished

fun expiry_step :: "expiry \<Rightarrow> 'd fp \<Rightarrow> expiry \<times> 'd fp" where
  "expiry_step Awake s = (Read (mIsLockoutTimerAborted (this s)), s)"
| "expiry_step (Read aborted) s =
     (if \<not> aborted
      then (Announces, s\<lparr>this := (this s)\<lparr>mLockoutTracker := LockoutTracker_reset False (mLockoutTracker (this s))\<rparr>\<rparr>)
      else (Cleared, s))"
| "expiry_step Announces s = (Cleared, s\<lparr>effects := effects s @ [OnLockoutCleared]\<rparr>)"
| "expiry_step Cleared s = (Stopped, s\<lparr>this := (this s)\<lparr>mIsLockoutTimerStarted := False\<rparr>\<rparr>)"
| "expiry_step Stopped s = (Finished, s\<lparr>this := (this s)\<lparr>mIsLockoutTimerAborted := False\<rparr>\<rparr>)"
| "expiry_step Finished s = (Finished, s)"

datatype race_act = Expires | Acts session_op

fun race_step :: "'d fingerprint_device \<Rightarrow> race_act \<Rightarrow> expiry \<times> 'd fp \<Rightarrow> expiry \<times> 'd fp" where
  "race_step fd Expires (e, s) = expiry_step e s"
| "race_step fd (Acts x) (e, s) = (e, session_apply fd x s)"

definition race_run :: "'d fingerprint_device \<Rightarrow> race_act list \<Rightarrow> expiry \<times> 'd fp \<Rightarrow> expiry \<times> 'd fp" where
  "race_run fd = fold (race_step fd)"

lemma race_run_simps [simp]:
  "race_run fd [] r = r"
  "race_run fd (x # xs) r = race_run fd xs (race_step fd x r)"
  "race_run fd (xs @ ys) r = race_run fd ys (race_run fd xs r)"
  by (simp_all add: race_run_def)

text \<open>Undisturbed, the statements are the operation.\<close>

lemma expiry_undisturbed:
  "race_run fd (replicate 5 Expires) (Awake, s) = (Finished, snd (run_state lockoutTimerExpired s))"
  by (simp add: numeral_eq_Suc lockoutTimerExpired_def clearLockout_def)

section \<open>A permanent lockout while the thread runs\<close>

text \<open>The twentieth failure makes the lockout permanent, whatever the mode was.\<close>

lemma twentieth_failure:
  fixes s :: "'d fp" and fd :: "'d fingerprint_device" and clk :: "nat \<Rightarrow> util"
  assumes "sint (mFailedCount (mLockoutTracker (this s))) = 19"
  defines "s' \<equiv> session_apply fd (Notify clk (FINGERPRINT_AUTHENTICATED no_finger no_hat)) s"
  shows "mCurrentMode (mLockoutTracker (this s')) = PERMANENT" and "mIsLockoutTimerAborted (this s')"
    and "sint (mFailedCount (mLockoutTracker (this s'))) = 20" and "lockoutTimers (this s') = lockoutTimers (this s)"
    and "effects s' = effects s @ [OnAuthenticationFailed, finger_cmd False, SetFodHbm False, OnLockoutPermanent]"
proof -
  have n: "sint (mFailedCount (mLockoutTracker (this s)) + 1) = 20"
    using assms(1) by (subst sint_add_exact32) auto
  then have g: "LockoutTracker_getMode (clk 1) (LockoutTracker_addFailedAttempt (clk 0) (mLockoutTracker (this s)))
      = (PERMANENT, (mLockoutTracker (this s))\<lparr>mFailedCount := mFailedCount (mLockoutTracker (this s)) + 1, mCurrentMode := PERMANENT\<rparr>)"
    by (simp add: lockout_defs Let_def)
  show "mCurrentMode (mLockoutTracker (this s')) = PERMANENT" "mIsLockoutTimerAborted (this s')"
    "sint (mFailedCount (mLockoutTracker (this s'))) = 20" "lockoutTimers (this s') = lockoutTimers (this s)"
    "effects s' = effects s @ [OnAuthenticationFailed, finger_cmd False, SetFodHbm False, OnLockoutPermanent]"
    using g n by (simp_all add: s'_def no_finger_def run_checkSensorLockout Let_def case_prod_beta)
qed

text \<open>The thread runs to its end, with one failed attempt after its first \<open>k\<close> statements.\<close>

definition failure_after :: "nat \<Rightarrow> (nat \<Rightarrow> util) \<Rightarrow> race_act list" where
  "failure_after k clk = replicate k Expires
     @ [Acts (Notify clk (FINGERPRINT_AUTHENTICATED no_finger no_hat))] @ replicate (5 - k) Expires"

lemma undisturbed_prefix:
  assumes "\<not> mIsLockoutTimerAborted (this s)" and "k \<le> 5"
  shows "\<exists>s'. race_run fd (replicate k Expires) (Awake, s)
      = ([Awake, Read False, Announces, Cleared, Stopped, Finished] ! k, s')
    \<and> mFailedCount (mLockoutTracker (this s')) = mFailedCount (mLockoutTracker (this s))"
proof -
  have "k \<in> {0, 1, 2, 3, 4, 5}"
    using assms(2) by auto
  then show ?thesis
    using assms(1) by (auto simp: numeral_eq_Suc LockoutTracker_reset_def)
qed

text \<open>
  C14: The lockout thread races with the attempt that makes the lockout permanent: when the thread of a
  timed lockout runs to its end and the twentieth failure arrives in between, the lockout is lifted exactly
  if it arrives between the read of the flag and the reset, although the framework was just told that
  it is permanent; and the framework's last word is that the lockout is cleared exactly if it arrives
  there or between the reset and the callback. Everywhere else the lockout is permanent and announced so.
\<close>

theorem expiry_race_exact:
  assumes "sint (mFailedCount (mLockoutTracker (this s))) = 19" and "\<not> mIsLockoutTimerAborted (this s)" and "k \<le> 5"
  shows "(mCurrentMode (mLockoutTracker (this (snd (race_run fd (failure_after k clk) (Awake, s))))) = (if k = 1 then NONE else PERMANENT))
    \<and> last (effects (snd (race_run fd (failure_after k clk) (Awake, s)))) = (if k \<in> {1, 2} then OnLockoutCleared else OnLockoutPermanent)"
proof -
  obtain s' where s': "race_run fd (replicate k Expires) (Awake, s)
      = ([Awake, Read False, Announces, Cleared, Stopped, Finished] ! k, s')"
      "sint (mFailedCount (mLockoutTracker (this s'))) = 19"
    using undisturbed_prefix [OF assms(2,3), of fd] assms(1) by auto
  let ?r = "session_apply fd (Notify clk (FINGERPRINT_AUTHENTICATED no_finger no_hat)) s'"
  note t = twentieth_failure [OF s'(2), of fd clk]
  have r: "race_run fd (failure_after k clk) (Awake, s) = race_run fd (replicate (5 - k) Expires)
      ([Awake, Read False, Announces, Cleared, Stopped, Finished] ! k, ?r)"
    by (simp add: failure_after_def s'(1) del: session_apply.simps)
  have "k \<in> {0, 1, 2, 3, 4, 5}"
    using assms(3) by auto
  then show ?thesis
    unfolding r using t(1,2,5) by (auto simp: numeral_eq_Suc LockoutTracker_reset_def simp del: session_apply.simps)
qed

theorem expiry_race_exact_witness:
  "mCurrentMode (mLockoutTracker (this (snd (race_run accepting_device
     (failure_after 1 (\<lambda>_. sample_clock 1)) (Awake, sample_fp 19 TIMED))))) = NONE"
  by (rule expiry_race_exact [THEN conjunct1, THEN trans]) (simp_all add: sample_fp_def sample_session_def)

section \<open>All threads of a session\<close>

text \<open>
  A session with the lockout threads that are awake: a sleeper wakes, a thread runs its next statement, or the
  session runs an operation (of which a lockout thread as a whole is none).
\<close>

datatype lockout_act = Wakes nat | Steps nat | Runs session_op

fun lockout_step :: "'d fingerprint_device \<Rightarrow> lockout_act \<Rightarrow> expiry list \<times> 'd fp \<Rightarrow> expiry list \<times> 'd fp" where
  "lockout_step fd (Wakes k) (ts, s) =
     (let sleepers = lockoutTimers (this s)
      in if k < length sleepers
         then (ts @ [Awake], s\<lparr>this := (this s)\<lparr>lockoutTimers := take k sleepers @ drop (Suc k) sleepers\<rparr>\<rparr>) else (ts, s))"
| "lockout_step fd (Steps i) (ts, s) =
     (if i < length ts then (let r = expiry_step (ts ! i) s in (ts[i := fst r], snd r)) else (ts, s))"
| "lockout_step fd (Runs (TimerFires k)) (ts, s) = (ts, s)"
| "lockout_step fd (Runs x) (ts, s) = (ts, session_apply fd x s)"

lemma lockout_runs: "lockout_step fd (Runs x) (ts, s) = (ts, if \<exists>k. x = TimerFires k then s else session_apply fd x s)"
  by (cases x) simp_all


inductive lockout_life :: "'d fingerprint_device \<Rightarrow> expiry list \<times> 'd fp \<Rightarrow> bool" for fd where
  opened: "lockout_life fd ([], snd (run_state (Session_new fd user tracker) s))"
| moves: "lockout_life fd r \<Longrightarrow> lockout_life fd (lockout_step fd x r)"

text \<open>A thread has the timer until it has cleared the started flag.\<close>

fun has_timer :: "expiry \<Rightarrow> bool" where
  "has_timer Stopped = False"
| "has_timer Finished = False"
| "has_timer _ = True"

definition timer_threads :: "expiry list \<times> 'd fp \<Rightarrow> nat" where
  "timer_threads r = length (lockoutTimers (this (snd r))) + length (filter has_timer (fst r))"

definition single_timer :: "expiry list \<times> 'd fp \<Rightarrow> bool" where
  "single_timer r \<longleftrightarrow> timer_threads r = (if mIsLockoutTimerStarted (this (snd r)) then 1 else 0)"

lemma expiry_sleepers [simp]: "lockoutTimers (this (snd (expiry_step e s))) = lockoutTimers (this s)"
  by (cases "(e, s)" rule: expiry_step.cases) auto

lemma expiry_keeps_timer:
  assumes "e \<noteq> Cleared"
  shows "has_timer (fst (expiry_step e s)) = has_timer e"
    and "mIsLockoutTimerStarted (this (snd (expiry_step e s))) = mIsLockoutTimerStarted (this s)"
  using assms by (cases "(e, s)" rule: expiry_step.cases; auto)+

lemma single_timer_step:
  assumes "single_timer (ts, s)"
  shows "single_timer (lockout_step fd x (ts, s))"
proof (cases x)
  case (Wakes k)
  then have "timer_threads (lockout_step fd x (ts, s)) = timer_threads (ts, s)"
      "mIsLockoutTimerStarted (this (snd (lockout_step fd x (ts, s)))) = mIsLockoutTimerStarted (this s)"
    by (auto simp: timer_threads_def Let_def)
  then show ?thesis
    using assms by (simp add: single_timer_def)
next
  case (Steps i)
  show ?thesis
  proof (cases "i < length ts")
    case True
    note upd = filter_update [OF True, of has_timer]
    show ?thesis
    proof (cases "ts ! i = Cleared")
      case False
      have "length (filter has_timer (ts[i := fst (expiry_step (ts ! i) s)])) = length (filter has_timer ts)"
        using upd [of "fst (expiry_step (ts ! i) s)"] expiry_keeps_timer(1) [OF False, of s] by simp
      then show ?thesis
        using assms Steps True expiry_keeps_timer(2) [OF False, of s] by (simp add: single_timer_def timer_threads_def Let_def)
    next
      case Cleared: True
      then have "0 < length (filter has_timer ts)"
        using True nth_mem [OF True] by (force simp: filter_empty_conv)
      moreover have "Suc (length (filter has_timer (ts[i := Stopped]))) = length (filter has_timer ts)"
        using upd [of Stopped] Cleared by simp
      moreover have "length (lockoutTimers (this s)) + length (filter has_timer ts) \<le> 1"
        using assms by (simp add: single_timer_def timer_threads_def split: if_splits)
      ultimately have "length (lockoutTimers (this s)) = 0" "length (filter has_timer (ts[i := Stopped])) = 0"
        by linarith+
      then show ?thesis
        using Steps True Cleared by (simp add: single_timer_def timer_threads_def)
    qed
  qed (use assms Steps in simp)
next
  case (Runs y)
  show ?thesis
  proof (cases "\<exists>k. y = TimerFires k")
    case False
    then show ?thesis
      using assms Runs op_timers [of y fd s]
      by (auto simp: lockout_runs single_timer_def timer_threads_def simp del: session_apply.simps split: if_splits)
  qed (use assms Runs in auto)
qed

lemma life_single_timer: "lockout_life fd r \<Longrightarrow> single_timer r"
proof (induction rule: lockout_life.induct)
  case (opened user tracker s)
  then show ?case by (simp add: single_timer_def timer_threads_def Session_new_def Session_members_def)
next
  case (moves r x)
  then show ?case using single_timer_step by (cases r) simp
qed

text \<open>
  C16: At most one lockout thread has the timer: over every interleaving of the statements of all the lockout
  threads a session ever started with its operations (each operation taken as one step), the threads that sleep
  or have not yet cleared the started flag are exactly one if the flag is set, and none otherwise. So a
  new thread is started only when no former one can clear a lockout any more.
\<close>

theorem single_lockout_timer:
  assumes "lockout_life fd (ts, s)"
  shows "length (lockoutTimers (this s)) + length (filter has_timer ts) = (if mIsLockoutTimerStarted (this s) then 1 else 0)
    \<and> (length (lockoutTimers (this (snd (lockout_step fd x (ts, s))))) = Suc (length (lockoutTimers (this s)))
        \<longrightarrow> lockoutTimers (this s) = [] \<and> set ts \<subseteq> {Stopped, Finished})"
proof -
  have one: "timer_threads (ts, s) = (if mIsLockoutTimerStarted (this s) then 1 else 0)"
    using life_single_timer [OF assms] by (simp add: single_timer_def)
  moreover have "lockoutTimers (this s) = [] \<and> set ts \<subseteq> {Stopped, Finished}"
    if more: "length (lockoutTimers (this (snd (lockout_step fd x (ts, s))))) = Suc (length (lockoutTimers (this s)))"
  proof -
    obtain y where y: "x = Runs y" "\<forall>k. y \<noteq> TimerFires k"
      using more by (cases x) (auto simp: lockout_runs Let_def split: if_splits)
    then have "\<not> mIsLockoutTimerStarted (this s)"
      using more op_timers [of y fd s] by (auto simp: lockout_runs simp del: session_apply.simps)
    then have "lockoutTimers (this s) = []" "filter has_timer ts = []"
      using one by (simp_all add: timer_threads_def)
    moreover have "e \<in> {Stopped, Finished}" if "\<not> has_timer e" for e
      using that by (cases e) auto
    ultimately show ?thesis
      by (auto simp: filter_empty_conv)
  qed
  ultimately show ?thesis
    by (simp add: timer_threads_def)
qed

definition eighteen_failures :: "unit fp" where
  "eighteen_failures = snd (run_state (Session_new accepting_device 0
     \<lparr>mFailedCount = 18, mLockoutTimedStart = 0, mCurrentMode = NONE\<rparr>) (sample_fp 0 NONE))"

definition another_failure :: lockout_act where
  "another_failure = Runs (Notify (\<lambda>_. sample_clock 1) (FINGERPRINT_AUTHENTICATED no_finger no_hat))"

text \<open>The nineteenth failure starts a thread; the twentieth makes the lockout permanent while it sleeps.\<close>

definition twenty_failures :: "expiry list \<times> unit fp" where
  "twenty_failures = lockout_step accepting_device another_failure (lockout_step accepting_device another_failure ([], eighteen_failures))"

lemma twenty_failures_life: "lockout_life accepting_device twenty_failures"
  unfolding twenty_failures_def eighteen_failures_def by (intro lockout_life.intros)

lemma twenty_failures_state:
  "fst twenty_failures = []" "lockoutTimers (this (snd twenty_failures)) \<noteq> []"
  "mIsLockoutTimerAborted (this (snd twenty_failures))" "locked_for_good 7 (this (snd twenty_failures))"
proof -
  let ?x = "Notify (\<lambda>_. sample_clock 1) (FINGERPRINT_AUTHENTICATED no_finger no_hat)"
  let ?s = "session_apply accepting_device ?x eighteen_failures"
  have s: "sint (mFailedCount (mLockoutTracker (this ?s))) = 19" "lockoutTimers (this ?s) \<noteq> []"
    by (simp_all add: eighteen_failures_def Session_new_def Session_members_def no_finger_def run_checkSensorLockout lockout_defs
        LOCKOUT_TIMED_DURATION_def sample_clock_def case_prod_beta Let_def)
  have t: "twenty_failures = ([], session_apply accepting_device ?x ?s)"
    by (simp add: twenty_failures_def another_failure_def del: session_apply.simps)
  show "fst twenty_failures = []" "lockoutTimers (this (snd twenty_failures)) \<noteq> []"
    "mIsLockoutTimerAborted (this (snd twenty_failures))" "locked_for_good 7 (this (snd twenty_failures))"
    using twentieth_failure [OF s(1), of accepting_device "\<lambda>_. sample_clock 1"] s(2)
    by (simp_all add: t locked_for_good_def del: session_apply.simps)
qed

theorem single_lockout_timer_witness:
  "mIsLockoutTimerStarted (this (snd twenty_failures)) \<and> length (lockoutTimers (this (snd twenty_failures))) = 1"
proof -
  have "lockout_life accepting_device ([], snd twenty_failures)"
    using twenty_failures_life twenty_failures_state(1) by (metis prod.collapse)
  from single_lockout_timer [OF this, THEN conjunct1] show ?thesis
    using twenty_failures_state(2) by (simp split: if_splits)
qed

section \<open>A permanent lockout among threads\<close>









end
