(* ===== verification/Transition_System.thy ===== *)
theory Transition_System
  imports Prelude
begin

text \<open>
  Systems that move by steps: runs in which every step is allowed where it is taken, and invariants,
  which such runs keep. The lives of the sensors' proxy and of the whole sensor stack are such runs.
\<close>

text \<open>\<open>allowed\<close> says of a step and a state what the step's environment promises.\<close>

fun admissible :: "('x \<Rightarrow> 's \<Rightarrow> 's) \<Rightarrow> ('x \<Rightarrow> 's \<Rightarrow> bool) \<Rightarrow> 'x list \<Rightarrow> 's \<Rightarrow> bool" where
  "admissible step allowed [] s = True"
| "admissible step allowed (x # xs) s \<longleftrightarrow> allowed x s \<and> admissible step allowed xs (step x s)"

lemma admissible_append [simp]:
  "admissible step allowed (xs @ ys) s \<longleftrightarrow> admissible step allowed xs s \<and> admissible step allowed ys (fold step xs s)"
  by (induction xs arbitrary: s) auto

locale invariant_system =
  fixes step :: "'x \<Rightarrow> 's \<Rightarrow> 's" and allowed :: "'x \<Rightarrow> 's \<Rightarrow> bool" and inv :: "'s \<Rightarrow> bool"
  assumes keeps: "inv s \<Longrightarrow> allowed x s \<Longrightarrow> inv (step x s)"
begin

lemma run_keeps: "inv s \<Longrightarrow> admissible step allowed xs s \<Longrightarrow> inv (fold step xs s)"
  by (induction xs arbitrary: s) (auto intro: keeps)

end

text \<open>Two invariants of one system are one.\<close>

locale two_invariants =
  first: invariant_system step allowed inv + second: invariant_system step allowed inv'
  for step :: "'x \<Rightarrow> 's \<Rightarrow> 's" and allowed :: "'x \<Rightarrow> 's \<Rightarrow> bool" and inv inv' :: "'s \<Rightarrow> bool"

sublocale two_invariants \<subseteq> both: invariant_system step allowed "\<lambda>s. inv s \<and> inv' s"
  by unfold_locales (blast intro: first.keeps second.keeps)

end
