(* ===== verification/Hal_Proxy_Props.thy ===== *)
theory Hal_Proxy_Props
  imports Hal_Proxy
begin

text \<open>
  What the proxy guarantees of the requests it passes on: a sensor's handle reaches the sub-HAL that
  announced the sensor under the handle it announced, operation modes change everywhere or nowhere,
  direct channels belong to one sub-HAL, dynamic sensors come and go with their handles.
\<close>

section \<open>Handles\<close>

definition platform_mask :: "hal_consts \<Rightarrow> bool" where
  "platform_mask hc \<longleftrightarrow> kSensorHandleSubHalIndexMask hc = first_byte"

abbreviation local_handle :: "s32 \<Rightarrow> bool" where
  "local_handle h \<equiv> subHalIndexIsClear first_byte h"

lemma forward_put:
  assumes "platform_mask hc" and "local_handle l" and "i < length (mSubHalList p)" and "i < 128"
  shows "forward hc (setSubHalIndex l i) f p = call_sub_hal i (f l) p"
  using assms hc.idx_put [of l i] hc.strip_put [of l i]
  by (simp add: forward_def isSubHalIndexValid_def platform_mask_def subHalIndex_def)

lemma call_sub_hal_simps [simp]:
  "fst (call_sub_hal i f p) = fst (f (mSubHalList p ! i))"
  "mSubHalList (snd (call_sub_hal i f p)) = (mSubHalList p)[i := snd (f (mSubHalList p ! i))]"
  "mCurrentOperationMode (snd (call_sub_hal i f p)) = mCurrentOperationMode p"
  "pSensors (snd (call_sub_hal i f p)) = pSensors p"
  by (simp_all add: call_sub_hal_def case_prod_beta)

text \<open>The keys one sub-HAL contributes.\<close>

definition keys_of :: "nat \<Rightarrow> SensorInfo list \<Rightarrow> int set" where
  "keys_of i infos = {sint (setSubHalIndex (si_sensorHandle x) i) |x. x \<in> set infos \<and> local_handle (si_sensorHandle x)}"

lemma keys_of_simps:
  "keys_of i [] = {}"
  "keys_of i (x # xs) = (if local_handle (si_sensorHandle x)
     then insert (sint (setSubHalIndex (si_sensorHandle x) i)) (keys_of i xs) else keys_of i xs)"
  by (auto simp: keys_of_def)

lemma setDirectChannelFlags_frame [simp]:
  "mSubHalList (snd (setDirectChannelFlags fb i sp)) = mSubHalList (snd sp)"
  "pSensors (snd (setDirectChannelFlags fb i sp)) = pSensors (snd sp)"
  "si_sensorHandle (fst (setDirectChannelFlags fb i sp)) = si_sensorHandle (fst sp)"
  by (simp_all add: setDirectChannelFlags_def Let_def)

lemma standardize_pickup_frame [simp]:
  "si_sensorHandle (standardize_pickup hc info) = si_sensorHandle info"
  "si_flags (standardize_pickup hc info) = si_flags info"
  by (simp_all add: standardize_pickup_def)

lemma add_sensor_frame [simp]: "mSubHalList (add_sensor fb hc i info p) = mSubHalList p"
  by (simp add: add_sensor_def Let_def)

lemma add_sensor_keys:
  "platform_mask hc \<Longrightarrow>
   dom (RBT.lookup (pSensors (add_sensor fb hc i info p))) = keys_of i [info] \<union> dom (RBT.lookup (pSensors p))"
  by (auto simp: add_sensor_def keys_of_simps platform_mask_def Let_def split: if_splits)

lemma add_sensors_keys:
  "platform_mask hc \<Longrightarrow>
   dom (RBT.lookup (pSensors (fold (add_sensor fb hc i) infos p)))
     = keys_of i infos \<union> dom (RBT.lookup (pSensors p))
   \<and> mSubHalList (fold (add_sensor fb hc i) infos p) = mSubHalList p"
  by (induction infos arbitrary: p) (auto simp: keys_of_simps add_sensor_keys)

definition add_list ::
  "'h sub_hal_api \<Rightarrow> flag_bits \<Rightarrow> hal_consts \<Rightarrow> nat \<Rightarrow> 'h HalProxy \<Rightarrow> 'h HalProxy" where
  "add_list api fb hc i p =
     (case api_getSensorsList api (mSubHalList p ! i) of
        None \<Rightarrow> p | Some infos \<Rightarrow> fold (add_sensor fb hc i) infos p)"

definition announced_list :: "'h sub_hal_api \<Rightarrow> 'h \<Rightarrow> SensorInfo list" where
  "announced_list api h = (case api_getSensorsList api h of None \<Rightarrow> [] | Some infos \<Rightarrow> infos)"

lemma add_list_alt: "add_list api fb hc i p = fold (add_sensor fb hc i) (announced_list api (mSubHalList p ! i)) p"
  by (simp add: add_list_def announced_list_def split: option.split)

lemma initializeSensorList_alt:
  "initializeSensorList api fb hc p = fold (add_list api fb hc) [0..<length (mSubHalList p)] p"
proof -
  have "(\<lambda>i p. case api_getSensorsList api (mSubHalList p ! i) of None \<Rightarrow> p
      | Some infos \<Rightarrow> fold (add_sensor fb hc i) infos p) = add_list api fb hc"
    by (simp add: fun_eq_iff add_list_def)
  then show ?thesis by (simp add: initializeSensorList_def)
qed

lemma add_lists_keys:
  assumes "platform_mask hc"
  shows "dom (RBT.lookup (pSensors (fold (add_list api fb hc) is p)))
     = (\<Union>i \<in> set is. keys_of i (announced_list api (mSubHalList p ! i))) \<union> dom (RBT.lookup (pSensors p))
   \<and> mSubHalList (fold (add_list api fb hc) is p) = mSubHalList p"
proof (induction "is" arbitrary: p)
  case (Cons i "is")
  then show ?case
    using add_sensors_keys [OF assms, of fb i "announced_list api (mSubHalList p ! i)" p]
    by (auto simp: add_list_alt)
qed simp

lemma initialized_keys:
  fixes hs :: "'h list" and hc :: hal_consts and fb :: flag_bits and api :: "'h sub_hal_api" and s0 r0 :: int
  assumes "platform_mask hc"
  defines "p \<equiv> initializeSensorList api fb hc (HalProxy_members hs s0 r0)"
  shows "dom (RBT.lookup (pSensors p)) = (\<Union>i \<in> {0..<length hs}. keys_of i (announced_list api (hs ! i)))"
    and "mSubHalList p = hs"
  using add_lists_keys [OF assms(1), of api fb "[0..<length hs]" "HalProxy_members hs s0 r0"]
  by (simp_all add: p_def initializeSensorList_alt HalProxy_members_def)

text \<open>
  C10: Handles route: a proxy over at most 128 sub-HALs knows exactly the sensors its sub-HALs announce
  with a clear first byte, each under a handle of its own, and a request for such a handle is one
  call of the announcing sub-HAL with the handle it announced; the other sub-HALs are not touched.
\<close>

theorem requests_route:
  fixes hs :: "'h list" and hc :: hal_consts and fb :: flag_bits and api :: "'h sub_hal_api" and s0 r0 :: int
    and b :: bool
  assumes "platform_mask hc" and "length hs \<le> 128"
  defines "p \<equiv> initializeSensorList api fb hc (HalProxy_members hs s0 r0)"
  assumes i: "i < length hs" "info \<in> set (announced_list api (hs ! i))" "local_handle (si_sensorHandle info)"
  defines "h \<equiv> setSubHalIndex (si_sensorHandle info) i"
  defines "r \<equiv> api_activate api (si_sensorHandle info) b (hs ! i)"
  shows "RBT.lookup (pSensors p) (sint h) \<noteq> None
    \<and> HalProxy_activate api hc h b p = (fst r, p\<lparr>mSubHalList := hs[i := snd r]\<rparr>)
    \<and> (\<forall>j info'. j < length hs \<longrightarrow> info' \<in> set (announced_list api (hs ! j)) \<longrightarrow>
         local_handle (si_sensorHandle info') \<longrightarrow>
         setSubHalIndex (si_sensorHandle info') j = h \<longrightarrow> j = i \<and> si_sensorHandle info' = si_sensorHandle info)
    \<and> (\<forall>k. RBT.lookup (pSensors p) k \<noteq> None \<longrightarrow>
         (\<exists>j info'. j < length hs \<and> info' \<in> set (announced_list api (hs ! j)) \<and>
            k = sint (setSubHalIndex (si_sensorHandle info') j)))"
proof -
  note keys = initialized_keys [OF assms(1), of api fb hs s0 r0, folded p_def]
  have "sint h \<in> dom (RBT.lookup (pSensors p))"
    unfolding keys(1) h_def keys_of_def using i by auto
  moreover have "HalProxy_activate api hc h b p = (fst r, p\<lparr>mSubHalList := hs[i := snd r]\<rparr>)"
    unfolding HalProxy_activate_def h_def using assms(1,2) i keys(2)
    by (simp add: forward_put call_sub_hal_def r_def case_prod_beta)
  moreover have "j = i \<and> si_sensorHandle info' = si_sensorHandle info"
    if "j < length hs" "local_handle (si_sensorHandle info')" "setSubHalIndex (si_sensorHandle info') j = h"
    for j and info' :: SensorInfo
    using that hc.put_inj [of "si_sensorHandle info'" "si_sensorHandle info" j i] assms(2) i
    by (simp add: h_def)
  moreover have "\<exists>j info'. j < length hs \<and> info' \<in> set (announced_list api (hs ! j)) \<and>
      k = sint (setSubHalIndex (si_sensorHandle info') j)" if "k \<in> dom (RBT.lookup (pSensors p))" for k
    using that unfolding keys(1) keys_of_def by auto
  ultimately show ?thesis by blast
qed

text \<open>A table for the witnesses: a sub-HAL that announces a list and records what it was asked.\<close>

record probe =
  probe_sensors :: "SensorInfo list"
  probe_mode :: OperationMode
  probe_refuses :: bool
  probe_calls :: "s32 list"

definition probe_call :: "s32 \<Rightarrow> probe \<Rightarrow> Result \<times> probe" where
  "probe_call l h = (OK, h\<lparr>probe_calls := probe_calls h @ [l]\<rparr>)"

definition probe_api :: "probe sub_hal_api" where
  "probe_api =
     \<lparr>api_setOperationMode = (\<lambda>m h. if probe_refuses h \<and> m \<noteq> probe_mode h then (BAD_VALUE, h)
        else (OK, h\<lparr>probe_mode := m\<rparr>)),
      api_activate = (\<lambda>l b. probe_call l), api_batch = (\<lambda>l _ _. probe_call l), api_flush = probe_call,
      api_injectSensorData = (\<lambda>ev. probe_call (ev_sensorHandle ev)),
      api_getSensorsList = (\<lambda>h. Some (probe_sensors h)), api_initialize = (\<lambda>_ h. (OK, h)),
      api_registerDirectChannel = (\<lambda>h. ((OK, 1), h)), api_unregisterDirectChannel = (\<lambda>_ h. (OK, h)),
      api_configDirectReport = (\<lambda>l _ _ h. ((OK, l), h\<lparr>probe_calls := probe_calls h @ [l]\<rparr>))\<rparr>"

definition sample_info :: "s32 \<Rightarrow> u32 \<Rightarrow> SensorInfo" where
  "sample_info h f = (mSensorInfo (blank_sensor BaseSensor))\<lparr>si_sensorHandle := h, si_flags := f\<rparr>"

definition sample_probe :: "u32 \<Rightarrow> bool \<Rightarrow> probe" where
  "sample_probe f refuses =
     \<lparr>probe_sensors = [sample_info 7 f], probe_mode = NORMAL, probe_refuses = refuses, probe_calls = []\<rparr>"

definition sample_consts :: hal_consts where
  "sample_consts = \<lparr>kSensorHandleSubHalIndexMask = first_byte, kMaxSizePendingWriteEventsQueue = 3,
     kWakelockTimeoutNs = 1000, SENSOR_STRING_TYPE_PICK_UP_GESTURE = ''android.sensor.pick_up_gesture''\<rparr>"

lemma sample_mask: "platform_mask sample_consts"
  by (simp add: platform_mask_def sample_consts_def)

lemma local_7: "local_handle 7"
  by (simp add: subHalIndexIsClear_def first_byte_def)

theorem requests_route_witness:
  "fst (HalProxy_activate probe_api sample_consts (setSubHalIndex 7 1) True
     (initializeSensorList probe_api platform_flags sample_consts
        (HalProxy_members [sample_probe 0 False, sample_probe 0 True] 0 0))) = OK"
  using requests_route [OF sample_mask, of "[sample_probe 0 False, sample_probe 0 True]" 1 "sample_info 7 0"
      probe_api platform_flags 0 0 True]
  by (simp add: announced_list_def probe_api_def sample_probe_def sample_info_def local_7 probe_call_def)

section \<open>Operation modes\<close>

context sub_hal
begin

text \<open>The first \<open>j\<close> of the sub-HALs have the new mode and can go back, the others the old one.\<close>

definition switched :: "OperationMode \<Rightarrow> OperationMode \<Rightarrow> nat \<Rightarrow> 's list \<Rightarrow> bool" where
  "switched old m j hs \<longleftrightarrow> (\<forall>k<length hs. if k < j then mode_of (hs ! k) = m \<and> (\<exists>s. set_mode old (hs ! k) = (OK, s))
     else mode_of (hs ! k) = old)"

lemma switched_next:
  assumes "switched old m j hs" and "j < length hs"
  shows "if fst (set_mode m (hs ! j)) = OK then switched old m (Suc j) (hs[j := snd (set_mode m (hs ! j))])
    else switched old m j (hs[j := snd (set_mode m (hs ! j))])"
proof -
  have old: "mode_of (hs ! j) = old"
    using assms by (auto simp: switched_def)
  show ?thesis
    using assms mode_after [of m "hs ! j"] undo [of m "hs ! j" "snd (set_mode m (hs ! j))"] old
    by (auto simp: switched_def nth_list_update less_Suc_eq split: if_splits prod.splits)
      (metis prod.collapse)+
qed

lemma set_modes_switched:
  fixes p :: "'s HalProxy" and m old :: OperationMode and api :: "'s sub_hal_api" and i n :: nat
  assumes "api_setOperationMode api = set_mode" and "switched old m i (mSubHalList p)"
    and "i + n = length (mSubHalList p)"
  defines "r \<equiv> set_modes api m i n p"
  shows "switched old m (snd (fst r)) (mSubHalList (snd r)) \<and> length (mSubHalList (snd r)) = length (mSubHalList p)
    \<and> mCurrentOperationMode (snd r) = mCurrentOperationMode p
    \<and> (fst (fst r) = OK \<longrightarrow> snd (fst r) = length (mSubHalList p)) \<and> snd (fst r) \<le> length (mSubHalList p)"
  using assms(2,3) unfolding r_def
proof (induction n arbitrary: i p)
  case (Suc n)
  let ?r = "call_sub_hal i (api_setOperationMode api m) p"
  have i: "i < length (mSubHalList p)"
    using Suc.prems by simp
  show ?case
  proof (cases "fst ?r = OK")
    case True
    then have "switched old m (Suc i) (mSubHalList (snd ?r))"
      using switched_next [OF Suc.prems(1) i] assms(1) by simp
    then show ?thesis
      using Suc.IH [of "Suc i" "snd ?r"] Suc.prems(2) True by (simp add: Let_def)
  next
    case False
    then show ?thesis
      using switched_next [OF Suc.prems(1) i] assms(1) i by (simp add: Let_def)
  qed
qed simp

lemma roll_back:
  fixes p :: "'s HalProxy" and m :: OperationMode and api :: "'s sub_hal_api" and i j :: nat
  assumes "api_setOperationMode api = set_mode" and "switched (mCurrentOperationMode p) m j (mSubHalList p)"
    and "i \<le> j" and "j \<le> length (mSubHalList p)"
  defines "q \<equiv> fold (\<lambda>i p. snd (call_sub_hal i (api_setOperationMode api (mCurrentOperationMode p)) p)) [0..<i] p"
  shows "mCurrentOperationMode q = mCurrentOperationMode p \<and> length (mSubHalList q) = length (mSubHalList p)
    \<and> (\<forall>k<length (mSubHalList p). mSubHalList q ! k
         = (if k < i then snd (set_mode (mCurrentOperationMode p) (mSubHalList p ! k)) else mSubHalList p ! k))"
  using assms(3) unfolding q_def
proof (induction i)
  case (Suc i)
  let ?f = "\<lambda>i p. snd (call_sub_hal i (api_setOperationMode api (mCurrentOperationMode p)) p)"
  have "fold ?f [0..<Suc i] p = ?f i (fold ?f [0..<i] p)"
    by simp
  then show ?case
    using Suc assms(1,4) by (auto simp: nth_list_update less_Suc_eq)
qed simp

lemma mode_transaction:
  fixes p :: "'s HalProxy" and m :: OperationMode and api :: "'s sub_hal_api"
  assumes "api_setOperationMode api = set_mode"
    and "\<forall>h \<in> set (mSubHalList p). mode_of h = mCurrentOperationMode p"
  defines "r \<equiv> HalProxy_setOperationMode api m p"
  shows "mCurrentOperationMode (snd r) = (if fst r = OK then m else mCurrentOperationMode p)
    \<and> (\<forall>h \<in> set (mSubHalList (snd r)). mode_of h = mCurrentOperationMode (snd r))"
proof -
  let ?s = "set_modes api m 0 (length (mSubHalList p)) p" and ?old = "mCurrentOperationMode p"
  have "switched ?old m 0 (mSubHalList p)"
    using assms(2) by (simp add: switched_def)
  then have s: "switched ?old m (snd (fst ?s)) (mSubHalList (snd ?s))"
      "length (mSubHalList (snd ?s)) = length (mSubHalList p)" "mCurrentOperationMode (snd ?s) = ?old"
      "fst (fst ?s) = OK \<longrightarrow> snd (fst ?s) = length (mSubHalList p)" "snd (fst ?s) \<le> length (mSubHalList p)"
    using set_modes_switched [OF assms(1), of ?old m 0 p] by simp_all
  show ?thesis
  proof (cases "fst (fst ?s) = OK")
    case True
    then show ?thesis
      using s by (auto simp: r_def HalProxy_setOperationMode_def Let_def switched_def in_set_conv_nth)
  next
    case False
    have again: "mode_of (snd (set_mode ?old h)) = ?old" if "\<exists>s. set_mode ?old h = (OK, s)" for h
      using that ok_sets by auto
    let ?q = "fold (\<lambda>i p. snd (call_sub_hal i (api_setOperationMode api (mCurrentOperationMode p)) p))
        [0..<snd (fst ?s)] (snd ?s)"
    have q: "mCurrentOperationMode ?q = ?old" "length (mSubHalList ?q) = length (mSubHalList p)"
        "\<And>k. k < length (mSubHalList p) \<Longrightarrow> mSubHalList ?q ! k
           = (if k < snd (fst ?s) then snd (set_mode ?old (mSubHalList (snd ?s) ! k)) else mSubHalList (snd ?s) ! k)"
      using roll_back [OF assms(1), of "snd ?s" m "snd (fst ?s)" "snd (fst ?s)"] s by simp_all
    have "mode_of (mSubHalList ?q ! k) = ?old" if "k < length (mSubHalList p)" for k
      using s(1,2) that again unfolding q(3) [OF that] switched_def by auto
    then have "\<forall>h \<in> set (mSubHalList ?q). mode_of h = ?old"
      using q(2) by (auto simp: in_set_conv_nth)
    then show ?thesis
      using False q(1) by (simp add: r_def HalProxy_setOperationMode_def Let_def)
  qed
qed

end

text \<open>
  C12: Changing the operation mode is a transaction over sub-HALs that honour the mode contract: when
  all of them are in the proxy's mode, then after the call all of them are again, in the new mode
  if it returned \<open>OK\<close> and in the old one if any of them refused.
\<close>

theorem set_mode_transaction:
  fixes p :: "'h HalProxy" and m :: OperationMode and api :: "'h sub_hal_api"
  assumes "sub_hal (api_setOperationMode api) mode_of"
    and "\<forall>h \<in> set (mSubHalList p). mode_of h = mCurrentOperationMode p"
  defines "r \<equiv> HalProxy_setOperationMode api m p"
  shows "mCurrentOperationMode (snd r) = (if fst r = OK then m else mCurrentOperationMode p)
    \<and> (\<forall>h \<in> set (mSubHalList (snd r)). mode_of h = mCurrentOperationMode (snd r))"
  using sub_hal.mode_transaction [OF assms(1) refl assms(2)] unfolding r_def .

lemma probe_contract: "sub_hal (api_setOperationMode probe_api) probe_mode"
  by unfold_locales (auto simp: probe_api_def split: if_splits)

theorem set_mode_transaction_witness:
  "let r = HalProxy_setOperationMode probe_api DATA_INJECTION
         (HalProxy_members [sample_probe 0 False, sample_probe 0 True] 0 0)
   in fst r = BAD_VALUE \<and> map probe_mode (mSubHalList (snd r)) = [NORMAL, NORMAL]"
proof -
  let ?p = "HalProxy_members [sample_probe 0 False, sample_probe 0 True] 0 0"
  have "fst (HalProxy_setOperationMode probe_api DATA_INJECTION ?p) = BAD_VALUE"
      "length (mSubHalList (snd (HalProxy_setOperationMode probe_api DATA_INJECTION ?p))) = 2"
    by (simp_all add: HalProxy_setOperationMode_def HalProxy_members_def probe_api_def sample_probe_def
        call_sub_hal_def numeral_2_eq_2 Let_def)
  moreover have "\<forall>h \<in> set (mSubHalList ?p). probe_mode h = mCurrentOperationMode ?p"
    by (simp add: HalProxy_members_def sample_probe_def)
  moreover have "mCurrentOperationMode ?p = NORMAL"
    by (simp add: HalProxy_members_def)
  ultimately show ?thesis
    using set_mode_transaction [OF probe_contract, of ?p DATA_INJECTION]
    by (auto simp: Let_def length_Suc_conv numeral_2_eq_2)
qed

section \<open>Direct channels\<close>

definition direct_bits :: "flag_bits \<Rightarrow> u32" where
  "direct_bits fb = or (MASK_DIRECT_REPORT fb) (MASK_DIRECT_CHANNEL fb)"

text \<open>Every known sensor with a direct channel belongs to the sub-HAL the proxy has chosen.\<close>

definition direct_inv :: "flag_bits \<Rightarrow> 'h HalProxy \<Rightarrow> bool" where
  "direct_inv fb p \<longleftrightarrow>
     (\<forall>i. mDirectChannelSubHal p = Some i \<longrightarrow> i < length (mSubHalList p))
     \<and> (\<forall>k info. RBT.lookup (pSensors p) k = Some info \<longrightarrow> and (si_flags info) (direct_bits fb) \<noteq> 0 \<longrightarrow>
          (\<exists>i l. mDirectChannelSubHal p = Some i \<and> local_handle l \<and> si_sensorHandle info = setSubHalIndex l i))"

lemma add_sensor_direct:
  assumes "platform_mask hc" and "direct_inv fb p" and "i < length (mSubHalList p)"
  shows "direct_inv fb (add_sensor fb hc i info p)"
proof (cases "local_handle (si_sensorHandle info)")
  case False
  then show ?thesis using assms by (simp add: add_sensor_def platform_mask_def)
next
  case True
  have "and (and f (not (direct_bits fb))) (direct_bits fb) = 0" for f
    by (simp add: and.assoc)
  then show ?thesis
    using assms True
    by (auto simp: direct_inv_def add_sensor_def platform_mask_def setDirectChannelFlags_def direct_bits_def Let_def
        split: if_splits)
qed

lemma add_sensors_direct:
  "platform_mask hc \<Longrightarrow> direct_inv fb p \<Longrightarrow> i < length (mSubHalList p) \<Longrightarrow>
   direct_inv fb (fold (add_sensor fb hc i) infos p)"
  by (induction infos arbitrary: p) (simp_all add: add_sensor_direct)

lemma add_lists_direct:
  assumes "platform_mask hc" and "direct_inv fb p" and "\<forall>i \<in> set is. i < length (mSubHalList p)"
  shows "direct_inv fb (fold (add_list api fb hc) is p)"
  using assms(2,3)
proof (induction "is" arbitrary: p)
  case (Cons i "is")
  then show ?case
    using add_sensors_direct [OF assms(1), of fb p i "announced_list api (mSubHalList p ! i)"]
      add_sensors_keys [OF assms(1), of fb i "announced_list api (mSubHalList p ! i)" p]
    by (simp add: add_list_alt)
qed simp

text \<open>
  C34: Direct channels go to one sub-HAL only: of the sensors the proxy lists, those that still have a
  direct report or channel flag belong to the chosen sub-HAL, and configuring direct reports for one
  of them is one call of that sub-HAL with the handle it announced. No sensor keeps the flag when
  no sub-HAL was chosen, and then every direct channel request fails and changes nothing.
\<close>

theorem direct_channel_single:
  fixes hs :: "'h list" and hc :: hal_consts and fb :: flag_bits and api :: "'h sub_hal_api" and s0 r0 :: int
  assumes "platform_mask hc" and "length hs \<le> 128"
  defines "p \<equiv> initializeSensorList api fb hc (HalProxy_members hs s0 r0)"
  shows "(\<forall>k info. RBT.lookup (pSensors p) k = Some info \<longrightarrow> and (si_flags info) (direct_bits fb) \<noteq> 0 \<longrightarrow>
      (\<exists>i l. mDirectChannelSubHal p = Some i \<and> i < length hs \<and> local_handle l
         \<and> si_sensorHandle info = setSubHalIndex l i
         \<and> HalProxy_configDirectReport api hc (si_sensorHandle info) ch rate p
             = call_sub_hal i (api_configDirectReport api l ch rate) p))
    \<and> (mDirectChannelSubHal p = None \<longrightarrow>
        HalProxy_configDirectReport api hc h ch rate p = ((INVALID_OPERATION, - 1), p)
        \<and> HalProxy_registerDirectChannel api p = ((INVALID_OPERATION, - 1), p)
        \<and> HalProxy_unregisterDirectChannel api ch p = (INVALID_OPERATION, p))"
proof -
  have "direct_inv fb (HalProxy_members hs s0 r0)"
    by (simp add: direct_inv_def HalProxy_members_def)
  then have inv: "direct_inv fb p"
    using add_lists_direct [OF assms(1), of fb "HalProxy_members hs s0 r0" "[0..<length hs]" api]
    by (simp add: p_def initializeSensorList_alt HalProxy_members_def)
  have len: "mSubHalList p = hs"
    unfolding p_def by (rule initialized_keys(2) [OF assms(1)])
  have routed: "HalProxy_configDirectReport api hc (setSubHalIndex l i) ch rate p
      = call_sub_hal i (api_configDirectReport api l ch rate) p"
    if "mDirectChannelSubHal p = Some i" "i < length hs" "local_handle l" for i l
  proof -
    have "setSubHalIndex l i \<noteq> - 1"
      using put_nonneg [of l i] that assms(2) by auto
    then show ?thesis
      using that assms(1,2) hc.strip_put [of l i]
      by (simp add: HalProxy_configDirectReport_def platform_mask_def)
  qed
  show ?thesis
    using inv len routed
    by (fastforce simp: direct_inv_def HalProxy_configDirectReport_def HalProxy_registerDirectChannel_def
        HalProxy_unregisterDirectChannel_def)
qed

theorem direct_channel_single_witness:
  "let p = initializeSensorList probe_api platform_flags sample_consts
        (HalProxy_members [sample_probe 0 False, sample_probe 128 False, sample_probe 128 True] 0 0)
   in mDirectChannelSubHal p = Some 1
    \<and> (\<forall>info. RBT.lookup (pSensors p) (sint (setSubHalIndex 7 2)) = Some info \<longrightarrow>
         and (si_flags info) (direct_bits platform_flags) = 0)"
proof -
  let ?p = "initializeSensorList probe_api platform_flags sample_consts
        (HalProxy_members [sample_probe 0 False, sample_probe 128 False, sample_probe 128 True] 0 0)"
  have chosen: "mDirectChannelSubHal ?p = Some 1"
    by (simp add: initializeSensorList_def HalProxy_members_def probe_api_def sample_probe_def add_sensor_def
        setDirectChannelFlags_def sample_info_def sample_consts_def platform_flags_def local_7 Let_def
        blank_sensor_def upt_rec)
  have two: "si_sensorHandle info = setSubHalIndex 7 2"
    if "RBT.lookup (pSensors ?p) (sint (setSubHalIndex 7 2)) = Some info" for info
    using that
    by (auto simp: initializeSensorList_def HalProxy_members_def probe_api_def sample_probe_def add_sensor_def
        setDirectChannelFlags_def sample_info_def sample_consts_def platform_flags_def local_7 Let_def
        blank_sensor_def upt_rec standardize_pickup_def numeral_2_eq_2 intro!: signed_word_eqI
        split: if_splits)
  have "and (si_flags info) (direct_bits platform_flags) = 0"
    if "RBT.lookup (pSensors ?p) (sint (setSubHalIndex 7 2)) = Some info" for info
  proof (rule ccontr)
    assume "and (si_flags info) (direct_bits platform_flags) \<noteq> 0"
    with that direct_channel_single [OF sample_mask, of "[sample_probe 0 False, sample_probe 128 False, sample_probe 128 True]"
        probe_api platform_flags 0 0 0 STOP]
    obtain i l where "mDirectChannelSubHal ?p = Some i" "local_handle l" "si_sensorHandle info = setSubHalIndex l i"
      by fastforce
    then show False
      using chosen two [OF that] hc.put_inj [of 7 l 2 1] local_7 by simp
  qed
  with chosen show ?thesis by simp
qed

section \<open>Dynamic sensors\<close>

definition tagged :: "nat \<Rightarrow> SensorInfo \<Rightarrow> SensorInfo" where
  "tagged i info = info\<lparr>si_sensorHandle := setSubHalIndex (si_sensorHandle info) i\<rparr>"

lemma tagged_handle [simp]: "si_sensorHandle (tagged i info) = setSubHalIndex (si_sensorHandle info) i"
  by (simp add: tagged_def)

definition insert_sensors :: "SensorInfo list \<Rightarrow> (int \<rightharpoonup> SensorInfo) \<Rightarrow> (int \<rightharpoonup> SensorInfo)" where
  "insert_sensors infos m = foldl (\<lambda>m info. m(sint (si_sensorHandle info) \<mapsto> info)) m infos"

lemma connect_each_result:
  fixes i :: nat and infos acc :: "SensorInfo list" and p :: "'h HalProxy"
  assumes "platform_mask hc"
  defines "ok \<equiv> \<lambda>infos. map (tagged i) (filter (\<lambda>x. local_handle (si_sensorHandle x)) infos)"
  shows "fst (connect_each hc i infos acc p) = acc @ ok infos
    \<and> RBT.lookup (mDynamicSensors (snd (connect_each hc i infos acc p)))
        = insert_sensors (ok infos) (RBT.lookup (mDynamicSensors p))
    \<and> proxy_effects (snd (connect_each hc i infos acc p)) = proxy_effects p"
  using assms(1) unfolding ok_def
  by (induction infos arbitrary: acc p) (simp_all add: platform_mask_def insert_sensors_def tagged_def Let_def)

lemma disconnect_each_result:
  assumes "platform_mask hc" and "distinct ls" and "i < 128"
    and "\<forall>l \<in> set ls. local_handle l \<longrightarrow> RBT.lookup (mDynamicSensors p) (sint (setSubHalIndex l i)) \<noteq> None"
  defines "ok \<equiv> map (\<lambda>l. setSubHalIndex l i) (filter local_handle ls)"
  shows "fst (disconnect_each hc i ls acc p) = acc @ ok
    \<and> RBT.lookup (mDynamicSensors (snd (disconnect_each hc i ls acc p)))
        = RBT.lookup (mDynamicSensors p) |` (- (sint ` set ok))
    \<and> proxy_effects (snd (disconnect_each hc i ls acc p)) = proxy_effects p"
  using assms(2,4) unfolding ok_def
proof (induction ls arbitrary: acc p)
  case (Cons l ls)
  show ?case
  proof (cases "local_handle l")
    case False
    then show ?thesis using Cons assms(1) by (simp add: platform_mask_def)
  next
    case True
    let ?p = "p\<lparr>mDynamicSensors := RBT.delete (sint (setSubHalIndex l i)) (mDynamicSensors p)\<rparr>"
    have other: "sint (setSubHalIndex l' i) \<noteq> sint (setSubHalIndex l i)"
      if "l' \<in> set ls" "local_handle l'" for l'
      using that Cons.prems(1) True hc.put_inj [of l' l i i] assms(3) by (auto dest: signed_word_eqI)
    then have "\<forall>l' \<in> set ls. local_handle l' \<longrightarrow> RBT.lookup (mDynamicSensors ?p) (sint (setSubHalIndex l' i)) \<noteq> None"
      using Cons.prems(2) by auto
    note ih = Cons.IH [OF _ this, of "acc @ [setSubHalIndex l i]"]
    have "disconnect_each hc i (l # ls) acc p = disconnect_each hc i ls (acc @ [setSubHalIndex l i]) ?p"
      using True Cons.prems(2) assms(1) by (auto simp: platform_mask_def Let_def)
    then show ?thesis
      using ih Cons.prems(1) True by (auto simp: restrict_map_def fun_eq_iff)
  qed
qed (simp add: restrict_map_def fun_eq_iff)

lemma lookup_insert_sensors:
  "insert_sensors infos m k = None \<longleftrightarrow> m k = None \<and> k \<notin> (sint \<circ> si_sensorHandle) ` set infos"
  "k \<notin> (sint \<circ> si_sensorHandle) ` set infos \<Longrightarrow> insert_sensors infos m k = m k"
  by (induction infos arbitrary: m) (auto simp: insert_sensors_def)

text \<open>
  C33: Dynamic sensors come and go with their handles: connecting a list records and reports, in order,
  exactly those with a clear first byte, under the tagged handles; disconnecting the handles of the
  list reports exactly the same tagged handles once and leaves the map as it was before.
\<close>

theorem dynamic_sensors_roundtrip:
  assumes "platform_mask hc" and "i < 128" and "distinct (map si_sensorHandle infos)"
    and "\<forall>info \<in> set infos. local_handle (si_sensorHandle info) \<longrightarrow>
      RBT.lookup (mDynamicSensors p) (sint (setSubHalIndex (si_sensorHandle info) i)) = None"
  shows "proxy_effects (onDynamicSensorsDisconnected hc (map si_sensorHandle infos) i
        (onDynamicSensorsConnected hc infos i p))
      = proxy_effects p @
        [DynamicSensorsConnected (map (tagged i) (filter (\<lambda>x. local_handle (si_sensorHandle x)) infos)),
         DynamicSensorsDisconnected
           (map (\<lambda>x. setSubHalIndex (si_sensorHandle x) i) (filter (\<lambda>x. local_handle (si_sensorHandle x)) infos))]
    \<and> RBT.lookup (mDynamicSensors (onDynamicSensorsDisconnected hc (map si_sensorHandle infos) i
        (onDynamicSensorsConnected hc infos i p))) = RBT.lookup (mDynamicSensors p)"
proof -
  let ?ok = "filter (\<lambda>x. local_handle (si_sensorHandle x)) infos"
  let ?c = "onDynamicSensorsConnected hc infos i p"
  have c: "RBT.lookup (mDynamicSensors ?c) = insert_sensors (map (tagged i) ?ok) (RBT.lookup (mDynamicSensors p))"
      "proxy_effects ?c = proxy_effects p @ [DynamicSensorsConnected (map (tagged i) ?ok)]"
    using connect_each_result [OF assms(1), of i infos "[]" p]
    by (simp_all add: onDynamicSensorsConnected_def Let_def)
  have known: "\<forall>l \<in> set (map si_sensorHandle infos). local_handle l \<longrightarrow>
      RBT.lookup (mDynamicSensors ?c) (sint (setSubHalIndex l i)) \<noteq> None"
    unfolding c(1) by (auto simp: lookup_insert_sensors(1) image_iff)
  have handles: "map (\<lambda>l. setSubHalIndex l i) (filter local_handle (map si_sensorHandle infos))
      = map (\<lambda>x. setSubHalIndex (si_sensorHandle x) i) ?ok"
    by (simp add: filter_map comp_def)
  note d = disconnect_each_result [OF assms(1) assms(3) assms(2) known, of "[]", unfolded handles]
  let ?keys = "sint ` set (map (\<lambda>x. setSubHalIndex (si_sensorHandle x) i) ?ok)"
  have "(RBT.lookup (mDynamicSensors ?c) |` (- ?keys)) k = RBT.lookup (mDynamicSensors p) k" for k
  proof (cases "k \<in> ?keys")
    case True
    then show ?thesis using assms(4) by (auto simp: restrict_map_def)
  next
    case False
    then show ?thesis
      unfolding c(1) by (subst restrict_in) (auto intro!: lookup_insert_sensors(2))
  qed
  then have "RBT.lookup (mDynamicSensors ?c) |` (- ?keys) = RBT.lookup (mDynamicSensors p)" ..
  then show ?thesis
    using d c(2) by (simp add: onDynamicSensorsDisconnected_def Let_def)
qed

theorem dynamic_sensors_roundtrip_witness:
  "proxy_effects (onDynamicSensorsDisconnected sample_consts [7] 3
     (onDynamicSensorsConnected sample_consts [sample_info 7 0] 3
        (HalProxy_members [sample_probe 0 False] 0 0)))
   = [DynamicSensorsConnected [tagged 3 (sample_info 7 0)], DynamicSensorsDisconnected [setSubHalIndex 7 3]]"
  using dynamic_sensors_roundtrip [OF sample_mask, of 3 "[sample_info 7 0]" "HalProxy_members [sample_probe 0 False] 0 0"]
  by (simp add: HalProxy_members_def sample_info_def local_7)

end
