(* ===== verification/Hal_Queue.thy ===== *)
theory Hal_Queue
  imports Hal_Proxy_Props "HOL-Library.Sublist"
begin

text \<open>
  The event path of the proxy (\<open>sensors/HalProxy.cpp\<close>): the reference-counted wakelock, the queue of
  batches pending for the framework's message queue, the two threads, and initialisation. The
  message queue itself is a platform library; each step takes what it answers. A step is a part of
  the code between two points at which it releases its lock or waits.
\<close>

section \<open>The shared wakelock\<close>

definition incrementRefCountAndMaybeAcquireWakelock :: "nat \<Rightarrow> int \<Rightarrow> 'h HalProxy \<Rightarrow> int option \<times> 'h HalProxy" where
  "incrementRefCountAndMaybeAcquireWakelock delta now p =
     (if \<not> mThreadsRun p then (None, p)
      else let p = (if mWakelockRefCount p = 0 then pemit AcquireWakeLock p else p)
           in (Some now, p\<lparr>mWakelockTimeoutStartTime := now, mWakelockRefCount := size_add (mWakelockRefCount p) delta\<rparr>))"

definition decrementRefCountAndMaybeReleaseWakelock :: "nat \<Rightarrow> int \<Rightarrow> 'h HalProxy \<Rightarrow> 'h HalProxy" where
  "decrementRefCountAndMaybeReleaseWakelock delta timeoutStart p =
     (if \<not> mThreadsRun p then p
      else let timeoutStart = (if timeoutStart = - 1 then mWakelockTimeoutResetTime p else timeoutStart)
           in if mWakelockRefCount p = 0 \<or> timeoutStart < mWakelockTimeoutResetTime p then p
              else let p = p\<lparr>mWakelockRefCount := mWakelockRefCount p - min (mWakelockRefCount p) delta\<rparr>
                   in if mWakelockRefCount p = 0 then pemit ReleaseWakeLock p else p)"

definition resetSharedWakelock :: "int \<Rightarrow> 'h HalProxy \<Rightarrow> 'h HalProxy" where
  "resetSharedWakelock now p =
     (decrementRefCountAndMaybeReleaseWakelock (mWakelockRefCount p) (- 1) p)\<lparr>mWakelockTimeoutResetTime := now\<rparr>"

text \<open>\<open>None\<close>: timed out; otherwise the time left.\<close>

definition sharedWakelockDidTimeout :: "hal_consts \<Rightarrow> int \<Rightarrow> 'h HalProxy \<Rightarrow> int option" where
  "sharedWakelockDidTimeout hc now p =
     (let duration = now - mWakelockTimeoutStartTime p
      in if kWakelockTimeoutNs hc < duration then None else Some (kWakelockTimeoutNs hc - duration))"

text \<open>
  A section of \<open>handleWakelocks\<close>: \<open>now\<close> and \<open>reset_now\<close> are its two clock readings, \<open>acks\<close> what
  \<open>readBlocking\<close> returned if it did.
\<close>

definition handleWakelocks :: "hal_consts \<Rightarrow> int \<Rightarrow> int \<Rightarrow> nat option \<Rightarrow> 'h HalProxy \<Rightarrow> 'h HalProxy" where
  "handleWakelocks hc now reset_now acks p =
     (case mWakelockThread p of
        WakerGone \<Rightarrow> p
      | WakerWaits \<Rightarrow>
          if \<not> mThreadsRun p then (resetSharedWakelock reset_now p)\<lparr>mWakelockThread := WakerGone\<rparr>
          else if mWakelockRefCount p = 0 then p
          else (case sharedWakelockDidTimeout hc now p of
                  None \<Rightarrow> resetSharedWakelock reset_now p
                | Some timeLeft \<Rightarrow> p\<lparr>mWakelockThread := WakerReads timeLeft\<rparr>)
      | WakerReads timeLeft \<Rightarrow>
          (case acks of
             Some n \<Rightarrow> decrementRefCountAndMaybeReleaseWakelock n (- 1) p
           | None \<Rightarrow> p)\<lparr>mWakelockThread := WakerWaits\<rparr>)"

section \<open>Posting events\<close>

text \<open>\<open>avail\<close> and \<open>write_ok\<close>: what \<open>availableToWrite\<close> and \<open>write\<close> of the message queue return.\<close>

definition postEventsToMessageQueue ::
  "hal_consts \<Rightarrow> Event list \<Rightarrow> nat \<Rightarrow> bool \<Rightarrow> int \<Rightarrow> nat \<Rightarrow> bool \<Rightarrow> 'h HalProxy \<Rightarrow> 'h HalProxy" where
  "postEventsToMessageQueue hc events numWakeupEvents locked now avail write_ok p =
     (let p = (if locked then snd (incrementRefCountAndMaybeAcquireWakelock numWakeupEvents now p) else p);
          fits = (if mPendingWriteEventsQueue p = [] then min (length events) avail else 0);
          numToWrite = (if 0 < fits \<and> write_ok then fits else 0);
          p = (if 0 < numToWrite then pemit (EventsWritten (take numToWrite events)) p else p);
          numLeft = length events - numToWrite
      in if numToWrite < length events
            \<and> size_add (mSizePendingWriteEventsQueue p) numLeft \<le> kMaxSizePendingWriteEventsQueue hc
         then let p = p\<lparr>mPendingWriteEventsQueue := mPendingWriteEventsQueue p @ [(drop numToWrite events, numWakeupEvents)],
                        mSizePendingWriteEventsQueue := size_add (mSizePendingWriteEventsQueue p) numLeft\<rparr>
              in p\<lparr>mMostEventsObservedPendingWriteEventsQueue :=
                     max (mMostEventsObservedPendingWriteEventsQueue p) (mSizePendingWriteEventsQueue p)\<rparr>
         else p)"

text \<open>Looking a handle up with \<open>[]\<close> inserts a default description (\<open>si0\<close>) for an unknown one.\<close>

fun count_wakeups ::
  "flag_bits \<Rightarrow> SensorInfo \<Rightarrow> Event list \<Rightarrow> nat \<Rightarrow> 'h HalProxy \<Rightarrow> nat \<times> 'h HalProxy" where
  "count_wakeups fb si0 [] n p = (n, p)"
| "count_wakeups fb si0 (ev # evs) n p =
     (let k = sint (ev_sensorHandle ev);
          p = (if RBT.lookup (pSensors p) k = None then p\<lparr>pSensors := RBT.insert k si0 (pSensors p)\<rparr> else p);
          info = the (RBT.lookup (pSensors p) k)
      in count_wakeups fb si0 evs (if and (si_flags info) (WAKE_UP fb) \<noteq> 0 then n + 1 else n) p)"

definition countNumWakeupEvents ::
  "flag_bits \<Rightarrow> SensorInfo \<Rightarrow> Event list \<Rightarrow> nat \<Rightarrow> 'h HalProxy \<Rightarrow> nat \<times> 'h HalProxy" where
  "countNumWakeupEvents fb si0 events n p = count_wakeups fb si0 (take n events) 0 p"

text \<open>
  The two sections of \<open>handlePendingWrites\<close>: picking up the front batch with the capacity of the
  message queue (\<open>quantum\<close>), and, when \<open>writeBlocking\<close> has returned \<open>ok\<close>, taking what was tried out
  of the queue.
\<close>

definition writer_picks_up :: "nat \<Rightarrow> 'h HalProxy \<Rightarrow> 'h HalProxy" where
  "writer_picks_up quantum p =
     (if \<not> mThreadsRun p then p\<lparr>mPendingWritesThread := WriterGone\<rparr>
      else if mPendingWriteEventsQueue p = [] then p
      else p\<lparr>mPendingWritesThread := WriterWrites quantum\<rparr>)"

definition writer_finishes ::
  "flag_bits \<Rightarrow> SensorInfo \<Rightarrow> nat \<Rightarrow> bool \<Rightarrow> 'h HalProxy \<Rightarrow> 'h HalProxy" where
  "writer_finishes fb si0 eventQueueSize ok p =
     (case mPendingWriteEventsQueue p of
        [] \<Rightarrow> p
      | (pendingWriteEvents, numWakeupEvents) # rest \<Rightarrow>
          let numToWrite = min (length pendingWriteEvents) eventQueueSize;
              p = (if ok then pemit (EventsWritten (take numToWrite pendingWriteEvents)) p
                   else let p = pemit (EventsLost (take numToWrite pendingWriteEvents)) p
                        in if 0 < numWakeupEvents
                           then if eventQueueSize < length pendingWriteEvents
                                then let c = countNumWakeupEvents fb si0 pendingWriteEvents eventQueueSize p
                                     in decrementRefCountAndMaybeReleaseWakelock (fst c) (- 1) (snd c)
                                else decrementRefCountAndMaybeReleaseWakelock numWakeupEvents (- 1) p
                           else p)
          in p\<lparr>mSizePendingWriteEventsQueue := size_sub (mSizePendingWriteEventsQueue p) numToWrite,
               mPendingWriteEventsQueue :=
                 (if eventQueueSize < length pendingWriteEvents
                  then (drop eventQueueSize pendingWriteEvents, numWakeupEvents) # rest else rest),
               mPendingWritesThread := WriterWaits\<rparr>)"

definition handlePendingWrites ::
  "flag_bits \<Rightarrow> SensorInfo \<Rightarrow> nat \<Rightarrow> bool \<Rightarrow> 'h HalProxy \<Rightarrow> 'h HalProxy" where
  "handlePendingWrites fb si0 quantum ok p =
     (case mPendingWritesThread p of
        WriterGone \<Rightarrow> p
      | WriterWaits \<Rightarrow> writer_picks_up quantum p
      | WriterWrites eventQueueSize \<Rightarrow> writer_finishes fb si0 eventQueueSize ok p)"

section \<open>Stopping and initialising\<close>

text \<open>
  Both threads are joined: the writer finishes the write it is in and ends, the wakelock thread ends
  with the reset behind its loop.
\<close>

definition stopThreads :: "flag_bits \<Rightarrow> SensorInfo \<Rightarrow> bool \<Rightarrow> int \<Rightarrow> 'h HalProxy \<Rightarrow> 'h HalProxy" where
  "stopThreads fb si0 ok now p =
     (let p = p\<lparr>mThreadsRun := False\<rparr>;
          p = (case mPendingWritesThread p of WriterWrites q \<Rightarrow> writer_finishes fb si0 q ok p | _ \<Rightarrow> p);
          p = (if mWakelockThread p = WakerGone then p else resetSharedWakelock now p)
      in p\<lparr>mPendingWritesThread := WriterGone, mWakelockThread := WakerGone\<rparr>)"

fun initialize_sub_hals :: "'h sub_hal_api \<Rightarrow> nat \<Rightarrow> nat \<Rightarrow> Result \<Rightarrow> 'h HalProxy \<Rightarrow> Result \<times> 'h HalProxy" where
  "initialize_sub_hals api i 0 result p = (result, p)"
| "initialize_sub_hals api i (Suc n) result p =
     (let r = call_sub_hal i (api_initialize api i) p
      in if fst r \<noteq> OK then r else initialize_sub_hals api (Suc i) n result (snd r))"

text \<open>\<open>flags_created\<close>: callback and queues are there and their event flags could be created.\<close>

definition initializeCommon ::
  "'h sub_hal_api \<Rightarrow> flag_bits \<Rightarrow> hal_consts \<Rightarrow> SensorInfo \<Rightarrow> bool \<Rightarrow> int \<Rightarrow> int \<Rightarrow> bool \<Rightarrow> 'h HalProxy
   \<Rightarrow> Result \<times> 'h HalProxy" where
  "initializeCommon api fb hc si0 ok stop_now now flags_created p =
     (let p = stopThreads fb si0 ok stop_now p;
          p = resetSharedWakelock now p;
          p = disableAllSensors api hc p;
          p = p\<lparr>mPendingWriteEventsQueue := [], mSizePendingWriteEventsQueue := 0, mDynamicSensors := RBT.empty\<rparr>;
          result = (if flags_created then OK else BAD_VALUE);
          p = p\<lparr>mThreadsRun := True, mPendingWritesThread := WriterWaits, mWakelockThread := WakerWaits\<rparr>;
          r = initialize_sub_hals api 0 (length (mSubHalList p)) result p
      in (fst r, (snd r)\<lparr>mCurrentOperationMode := NORMAL\<rparr>))"

text \<open>
  Both versions of \<open>initialize\<close> wrap their callback and queues for the common part. \<open>created cb q w\<close>: for a
  callback, an event queue and a wakelock queue given by the framework, whether all are there after wrapping and
  their flags could be made.
\<close>

record ('c, 'd) framework =
  created_2_1 :: "'c \<Rightarrow> 'd \<Rightarrow> 'd \<Rightarrow> bool"
  created_2_0 :: "'c \<Rightarrow> 'd \<Rightarrow> 'd \<Rightarrow> bool"

definition HalProxy_initialize_2_1 ::
  "'h sub_hal_api \<Rightarrow> flag_bits \<Rightarrow> hal_consts \<Rightarrow> SensorInfo \<Rightarrow> bool \<Rightarrow> int \<Rightarrow> int \<Rightarrow> ('c, 'd) framework
   \<Rightarrow> 'd \<Rightarrow> 'd \<Rightarrow> 'c \<Rightarrow> 'h HalProxy \<Rightarrow> Result \<times> 'h HalProxy" where
  "HalProxy_initialize_2_1 api fb hc si0 ok stop_now now fw eventQueueDescriptor wakeLockDescriptor sensorsCallback =
     initializeCommon api fb hc si0 ok stop_now now (created_2_1 fw sensorsCallback eventQueueDescriptor wakeLockDescriptor)"

definition HalProxy_initialize ::
  "'h sub_hal_api \<Rightarrow> flag_bits \<Rightarrow> hal_consts \<Rightarrow> SensorInfo \<Rightarrow> bool \<Rightarrow> int \<Rightarrow> int \<Rightarrow> ('c, 'd) framework
   \<Rightarrow> 'd \<Rightarrow> 'd \<Rightarrow> 'c \<Rightarrow> 'h HalProxy \<Rightarrow> Result \<times> 'h HalProxy" where
  "HalProxy_initialize api fb hc si0 ok stop_now now fw eventQueueDescriptor wakeLockDescriptor sensorsCallback =
     initializeCommon api fb hc si0 ok stop_now now (created_2_0 fw sensorsCallback eventQueueDescriptor wakeLockDescriptor)"

definition HalProxy_destroy :: "flag_bits \<Rightarrow> SensorInfo \<Rightarrow> bool \<Rightarrow> int \<Rightarrow> 'h HalProxy \<Rightarrow> 'h HalProxy" where
  "HalProxy_destroy fb si0 ok now p = stopThreads fb si0 ok now p"

end
