(* ===== verification/Hal_Queue_Props.thy ===== *)
theory Hal_Queue_Props
  imports Hal_Queue
begin

text \<open>
  What the event path guarantees: events reach the message queue in the order posted and the pending
  queue stays within its bound; the wakelock is held exactly while references are counted, and is
  given up when the framework does not answer in time. Where the code breaks these promises, the
  exception is a theorem too.
\<close>

section \<open>What the effects say\<close>

definition handled :: "proxy_effect list \<Rightarrow> Event list" where
  "handled es = concat (map (\<lambda>e. case e of EventsWritten xs \<Rightarrow> xs | EventsLost xs \<Rightarrow> xs | _ \<Rightarrow> []) es)"

definition delivered :: "proxy_effect list \<Rightarrow> Event list" where
  "delivered es = concat (map (\<lambda>e. case e of EventsWritten xs \<Rightarrow> xs | _ \<Rightarrow> []) es)"

definition wake_log :: "proxy_effect list \<Rightarrow> bool list" where
  "wake_log es = concat (map (\<lambda>e. case e of AcquireWakeLock \<Rightarrow> [True] | ReleaseWakeLock \<Rightarrow> [False] | _ \<Rightarrow> []) es)"

lemma effect_views [simp]:
  "handled [] = []" "handled (xs @ ys) = handled xs @ handled ys"
  "handled [EventsWritten es] = es" "handled [EventsLost es] = es"
  "handled [AcquireWakeLock] = []" "handled [ReleaseWakeLock] = []"
  "delivered [] = []" "delivered (xs @ ys) = delivered xs @ delivered ys"
  "delivered [EventsWritten es] = es" "delivered [EventsLost es] = []"
  "delivered [AcquireWakeLock] = []" "delivered [ReleaseWakeLock] = []"
  "wake_log [] = []" "wake_log (xs @ ys) = wake_log xs @ wake_log ys"
  "wake_log [EventsWritten es] = []" "wake_log [EventsLost es] = []"
  "wake_log [AcquireWakeLock] = [True]" "wake_log [ReleaseWakeLock] = [False]"
  by (simp_all add: handled_def delivered_def wake_log_def)

lemma delivered_subseq_handled: "subseq (delivered es) (handled es)"
proof (induction es)
  case (Cons e es)
  have "delivered (e # es) = delivered [e] @ delivered es" "handled (e # es) = handled [e] @ handled es"
    by (simp_all add: delivered_def handled_def)
  moreover have "subseq (delivered [e]) (handled [e])"
    by (cases e) (simp_all add: delivered_def handled_def)
  ultimately show ?case
    using Cons list_emb_append_mono by metis
qed simp

lemmas wakelock_defs = incrementRefCountAndMaybeAcquireWakelock_def decrementRefCountAndMaybeReleaseWakelock_def
  resetSharedWakelock_def

text \<open>The wakelock functions leave the event queue alone.\<close>

definition queue_part :: "'h HalProxy \<Rightarrow> (Event list \<times> nat) list \<times> nat \<times> nat \<times> writer \<times> Event list" where
  "queue_part p = (mPendingWriteEventsQueue p, mSizePendingWriteEventsQueue p,
     mMostEventsObservedPendingWriteEventsQueue p, mPendingWritesThread p, handled (proxy_effects p))"

lemma queue_part_updates [simp]:
  "queue_part (p\<lparr>mWakelockThread := w\<rparr>) = queue_part p"
  "queue_part (p\<lparr>mWakelockTimeoutResetTime := t\<rparr>) = queue_part p"
  "queue_part (p\<lparr>mWakelockTimeoutStartTime := t\<rparr>) = queue_part p"
  "queue_part (p\<lparr>mWakelockRefCount := n\<rparr>) = queue_part p"
  "queue_part (p\<lparr>pSensors := ss\<rparr>) = queue_part p"
  "queue_part (pemit AcquireWakeLock p) = queue_part p" "queue_part (pemit ReleaseWakeLock p) = queue_part p"
  by (simp_all add: queue_part_def)

lemma wakelock_queue_frame [simp]:
  "queue_part (snd (incrementRefCountAndMaybeAcquireWakelock d now p)) = queue_part p"
  "queue_part (decrementRefCountAndMaybeReleaseWakelock d t p) = queue_part p"
  "queue_part (resetSharedWakelock now p) = queue_part p"
  "queue_part (handleWakelocks hc now reset_now acks p) = queue_part p"
  by (simp_all add: wakelock_defs handleWakelocks_def Let_def split: waker.split option.split)

lemma count_wakeups_frame: "\<exists>ss. snd (count_wakeups fb si0 evs n p) = p\<lparr>pSensors := ss\<rparr>"
proof (induction evs arbitrary: n p)
  case Nil
  show ?case by (auto intro: exI [of _ "pSensors p"])
next
  case (Cons ev evs)
  let ?k = "sint (ev_sensorHandle ev)"
  let ?p = "if RBT.lookup (pSensors p) ?k = None then p\<lparr>pSensors := RBT.insert ?k si0 (pSensors p)\<rparr> else p"
  have "\<exists>m. count_wakeups fb si0 (ev # evs) n p = count_wakeups fb si0 evs m ?p"
    by (simp add: Let_def) blast
  then obtain m where m: "count_wakeups fb si0 (ev # evs) n p = count_wakeups fb si0 evs m ?p" ..
  obtain ss where "snd (count_wakeups fb si0 evs m ?p) = ?p\<lparr>pSensors := ss\<rparr>"
    using Cons by blast
  then show ?case
    unfolding m by auto
qed

lemma count_queue_frame [simp]: "queue_part (snd (countNumWakeupEvents fb si0 evs n p)) = queue_part p"
  using count_wakeups_frame [of fb si0 "take n evs" 0 p] by (auto simp: countNumWakeupEvents_def)

section \<open>Order and bound\<close>

definition pending :: "'h HalProxy \<Rightarrow> Event list" where
  "pending p = concat (map fst (mPendingWriteEventsQueue p))"

definition queue_inv :: "hal_consts \<Rightarrow> 'h HalProxy \<Rightarrow> bool" where
  "queue_inv hc p \<longleftrightarrow> mSizePendingWriteEventsQueue p = length (pending p)
     \<and> mSizePendingWriteEventsQueue p \<le> kMaxSizePendingWriteEventsQueue hc
     \<and> mMostEventsObservedPendingWriteEventsQueue p \<le> kMaxSizePendingWriteEventsQueue hc"

lemma queue_inv_part: "queue_part p = queue_part q \<Longrightarrow> queue_inv hc p = queue_inv hc q"
  by (simp add: queue_part_def queue_inv_def pending_def)

text \<open>What the proxy has handled or keeps, in order.\<close>

definition seen :: "'h HalProxy \<Rightarrow> Event list" where
  "seen p = handled (proxy_effects p) @ pending p"

lemma seen_part: "queue_part p = queue_part q \<Longrightarrow> seen p = seen q"
  by (simp add: queue_part_def seen_def pending_def)

text \<open>Posting is counting the references, if the wakelock is locked, and then posting.\<close>

definition post_counts :: "bool \<Rightarrow> nat \<Rightarrow> int \<Rightarrow> 'h HalProxy \<Rightarrow> 'h HalProxy" where
  "post_counts locked nw now p =
     (if locked then snd (incrementRefCountAndMaybeAcquireWakelock nw now p) else p)"

lemma post_alt:
  "postEventsToMessageQueue hc events nw locked now avail write_ok p
    = postEventsToMessageQueue hc events nw False now avail write_ok (post_counts locked nw now p)"
  by (simp add: postEventsToMessageQueue_def post_counts_def Let_def)

lemma post_counts_frame [simp]: "queue_part (post_counts locked nw now p) = queue_part p"
  by (simp add: post_counts_def)

lemma post_unlocked:
  fixes p :: "'h HalProxy" and events :: "Event list" and nw avail :: nat and now :: int and write_ok :: bool
  assumes "queue_inv hc p" and "length events + kMaxSizePendingWriteEventsQueue hc < 2 ^ 64"
  defines "p' \<equiv> postEventsToMessageQueue hc events nw False now avail write_ok p"
  shows "queue_inv hc p' \<and> (\<exists>acc. seen p' = seen p @ acc \<and> subseq acc events
      \<and> (mSizePendingWriteEventsQueue p + length events \<le> kMaxSizePendingWriteEventsQueue hc \<longrightarrow> acc = events))"
proof -
  let ?n = "if mPendingWriteEventsQueue p = [] \<and> write_ok then min (length events) avail else 0"
  let ?l = "length (concat (map fst (mPendingWriteEventsQueue p)))"
  have sum: "mSizePendingWriteEventsQueue p = ?l" "?l \<le> kMaxSizePendingWriteEventsQueue hc"
    using assms(1) unfolding queue_inv_def pending_def by simp_all
  have size: "size_add ?l m = ?l + m" "size_add 0 m = m" if "m \<le> length events" for m
    using that assms(2) sum(2) by (auto intro!: size_add_exact [THEN trans])
  have take: "subseq (take n events) events" for n
    by (metis append_take_drop_id list_emb_append2 subseq_order.order_refl prefix_imp_subseq take_is_prefix)
  show ?thesis
  proof (cases "?n < length events \<and> mSizePendingWriteEventsQueue p + (length events - ?n) \<le> kMaxSizePendingWriteEventsQueue hc")
    case True
    then have "seen p' = seen p @ events \<and> queue_inv hc p'"
      using assms(1) size sum
      by (auto simp: p'_def postEventsToMessageQueue_def seen_def pending_def queue_inv_def Let_def split: if_splits)
    then show ?thesis by auto
  next
    case False
    then have "seen p' = seen p @ take ?n events \<and> queue_inv hc p'"
      using assms(1) size sum
      by (auto simp: p'_def postEventsToMessageQueue_def seen_def pending_def queue_inv_def Let_def split: if_splits)
    moreover have "take ?n events = events"
      if "mSizePendingWriteEventsQueue p + length events \<le> kMaxSizePendingWriteEventsQueue hc"
      using that False by auto
    ultimately show ?thesis using take by blast
  qed
qed

lemma post_events:
  assumes "queue_inv hc p" and "length events + kMaxSizePendingWriteEventsQueue hc < 2 ^ 64"
  shows "\<exists>acc. queue_inv hc (postEventsToMessageQueue hc events nw locked now avail write_ok p)
    \<and> seen (postEventsToMessageQueue hc events nw locked now avail write_ok p) = seen p @ acc \<and> subseq acc events
    \<and> (mSizePendingWriteEventsQueue p + length events \<le> kMaxSizePendingWriteEventsQueue hc \<longrightarrow> acc = events)"
proof -
  have f: "queue_part (post_counts locked nw now p) = queue_part p"
    by simp
  have "mSizePendingWriteEventsQueue (post_counts locked nw now p) = mSizePendingWriteEventsQueue p"
    using f by (simp add: queue_part_def)
  then show ?thesis
    using post_unlocked [of hc "post_counts locked nw now p" events nw now avail write_ok]
      seen_part [OF f] queue_inv_part [OF f] assms
    unfolding post_alt [of hc events nw locked] by auto
qed

text \<open>The writer after its counting: it takes the tried events from the queue.\<close>

definition writer_rest :: "nat \<Rightarrow> 'h HalProxy \<Rightarrow> 'h HalProxy" where
  "writer_rest q p =
     (case mPendingWriteEventsQueue p of [] \<Rightarrow> p
      | (evs, nw) # rest \<Rightarrow> p\<lparr>mSizePendingWriteEventsQueue := size_sub (mSizePendingWriteEventsQueue p) (min (length evs) q),
          mPendingWriteEventsQueue := (if q < length evs then (drop q evs, nw) # rest else rest),
          mPendingWritesThread := WriterWaits\<rparr>)"

definition tried :: "bool \<Rightarrow> Event list \<Rightarrow> proxy_effect" where
  "tried ok es = (if ok then EventsWritten es else EventsLost es)"

lemma tried_handled [simp]: "handled [tried ok es] = es" "wake_log [tried ok es] = []"
  by (simp_all add: tried_def)

definition writer_counts :: "flag_bits \<Rightarrow> SensorInfo \<Rightarrow> nat \<Rightarrow> bool \<Rightarrow> 'h HalProxy \<Rightarrow> 'h HalProxy" where
  "writer_counts fb si0 q ok p =
     (case mPendingWriteEventsQueue p of [] \<Rightarrow> p
      | (evs, nw) # rest \<Rightarrow>
          if ok \<or> nw = 0 then p
          else if q < length evs
          then let c = countNumWakeupEvents fb si0 evs q p
               in decrementRefCountAndMaybeReleaseWakelock (fst c) (- 1) (snd c)
          else decrementRefCountAndMaybeReleaseWakelock nw (- 1) p)"

lemma writer_counts_frame [simp]: "queue_part (writer_counts fb si0 q ok p) = queue_part p"
  by (simp add: writer_counts_def Let_def split: list.split prod.split)

lemma writer_alt:
  assumes "mPendingWriteEventsQueue p = (evs, nw) # rest"
  shows "writer_finishes fb si0 q ok p
    = writer_rest q (writer_counts fb si0 q ok (pemit (tried ok (take (min (length evs) q) evs)) p))"
proof -
  let ?e = "pemit (tried ok (take (min (length evs) q) evs)) p"
  have "queue_part (writer_counts fb si0 q ok ?e) = queue_part ?e"
    by simp
  then have f: "mPendingWriteEventsQueue (writer_counts fb si0 q ok ?e) = (evs, nw) # rest"
    using assms by (simp add: queue_part_def)
  show ?thesis
    unfolding writer_rest_def f
    using assms by (auto simp: writer_finishes_def writer_counts_def tried_def Let_def)
qed

lemma writer_rest_seen:
  assumes "queue_inv hc p" and "kMaxSizePendingWriteEventsQueue hc < 2 ^ 64"
    and "mPendingWriteEventsQueue p = (evs, nw) # rest"
  shows "queue_inv hc (writer_rest q p)"
    and "handled (proxy_effects (writer_rest q p)) = handled (proxy_effects p)"
    and "pending (writer_rest q p) = drop (min (length evs) q) evs @ concat (map fst rest)"
proof -
  have "size_sub (mSizePendingWriteEventsQueue p) (min (length evs) q)
      = mSizePendingWriteEventsQueue p - min (length evs) q"
    using assms by (intro size_sub_exact) (auto simp: queue_inv_def pending_def)
  then show "queue_inv hc (writer_rest q p)"
    using assms by (auto simp: queue_inv_def writer_rest_def pending_def)
  show "handled (proxy_effects (writer_rest q p)) = handled (proxy_effects p)"
      "pending (writer_rest q p) = drop (min (length evs) q) evs @ concat (map fst rest)"
    using assms(3) by (auto simp: writer_rest_def pending_def)
qed

lemma writer_events:
  assumes "queue_inv hc p" and "kMaxSizePendingWriteEventsQueue hc < 2 ^ 64"
  shows "queue_inv hc (handlePendingWrites fb si0 quantum ok p) \<and> seen (handlePendingWrites fb si0 quantum ok p) = seen p"
proof (cases "mPendingWritesThread p")
  case WriterWaits
  then show ?thesis
    using assms(1) by (simp add: handlePendingWrites_def writer_picks_up_def queue_inv_def seen_def pending_def)
next
  case (WriterWrites q)
  show ?thesis
  proof (cases "mPendingWriteEventsQueue p")
    case Nil
    then show ?thesis
      using assms(1) WriterWrites by (simp add: handlePendingWrites_def writer_finishes_def)
  next
    case (Cons b rest)
    obtain evs nw where b: "mPendingWriteEventsQueue p = (evs, nw) # rest"
      using Cons by (cases b) auto
    let ?e = "pemit (tried ok (take (min (length evs) q) evs)) p"
    let ?c = "writer_counts fb si0 q ok ?e"
    have "queue_part ?c = queue_part ?e"
      by simp
    then have c: "mPendingWriteEventsQueue ?c = (evs, nw) # rest" "handled (proxy_effects ?c)
        = handled (proxy_effects p) @ take (min (length evs) q) evs" "queue_inv hc ?c = queue_inv hc p"
      using b by (simp_all add: queue_part_def queue_inv_def pending_def)
    have "handlePendingWrites fb si0 quantum ok p = writer_rest q ?c"
      using WriterWrites writer_alt [OF b] by (simp add: handlePendingWrites_def)
    moreover have "take k evs @ drop k evs @ r = evs @ r" for k r
      by (simp flip: append_assoc)
    ultimately show ?thesis
      using writer_rest_seen [OF _ assms(2) c(1), of q] c assms(1) b
      by (simp add: seen_def pending_def)
  qed
qed (use assms(1) in \<open>simp add: handlePendingWrites_def\<close>)

text \<open>
  \<open>event_life fb hc si0 p xs\<close>: from an empty queue, the proxy can come to \<open>p\<close> after \<open>xs\<close> were posted,
  by any interleaving of posts, sections of the two threads and changes of the reference count.
\<close>

inductive event_life :: "flag_bits \<Rightarrow> hal_consts \<Rightarrow> SensorInfo \<Rightarrow> 'h HalProxy \<Rightarrow> Event list \<Rightarrow> bool"
  for fb hc si0 where
  empty: "mPendingWriteEventsQueue p = [] \<Longrightarrow> mSizePendingWriteEventsQueue p = 0 \<Longrightarrow>
    mMostEventsObservedPendingWriteEventsQueue p = 0 \<Longrightarrow> proxy_effects p = [] \<Longrightarrow> event_life fb hc si0 p []"
| posts: "event_life fb hc si0 p xs \<Longrightarrow> length events + kMaxSizePendingWriteEventsQueue hc < 2 ^ 64 \<Longrightarrow>
    event_life fb hc si0 (postEventsToMessageQueue hc events nw locked now avail write_ok p) (xs @ events)"
| writes: "event_life fb hc si0 p xs \<Longrightarrow> event_life fb hc si0 (handlePendingWrites fb si0 quantum ok p) xs"
| wakes: "event_life fb hc si0 p xs \<Longrightarrow> event_life fb hc si0 (handleWakelocks hc now reset_now acks p) xs"
| counts: "event_life fb hc si0 p xs \<Longrightarrow> event_life fb hc si0 (snd (incrementRefCountAndMaybeAcquireWakelock d now p)) xs"
| uncounts: "event_life fb hc si0 p xs \<Longrightarrow> event_life fb hc si0 (decrementRefCountAndMaybeReleaseWakelock d t p) xs"

lemma event_life_inv:
  assumes "event_life fb hc si0 p xs" and "kMaxSizePendingWriteEventsQueue hc < 2 ^ 64"
  shows "queue_inv hc p \<and> subseq (seen p) xs"
  using assms(1)
proof (induction rule: event_life.induct)
  case (posts p xs events nw locked now avail write_ok)
  from post_events [OF conjunct1 [OF posts.IH] posts.hyps(2), of nw locked now avail write_ok]
  obtain acc where "queue_inv hc (postEventsToMessageQueue hc events nw locked now avail write_ok p)"
      "seen (postEventsToMessageQueue hc events nw locked now avail write_ok p) = seen p @ acc" "subseq acc events"
    by blast
  then show ?case using posts.IH list_emb_append_mono by metis
next
  case (writes p xs quantum ok)
  then show ?case using writer_events [OF _ assms(2)] by metis
next
  case (wakes p xs now reset_now acks)
  then show ?case
    using queue_inv_part [OF wakelock_queue_frame(4)] seen_part [OF wakelock_queue_frame(4)] by metis
next
  case (counts p xs d now)
  then show ?case
    using queue_inv_part [OF wakelock_queue_frame(1)] seen_part [OF wakelock_queue_frame(1)] by metis
next
  case (uncounts p xs d t)
  then show ?case
    using queue_inv_part [OF wakelock_queue_frame(2)] seen_part [OF wakelock_queue_frame(2)] by metis
qed (simp add: queue_inv_def pending_def seen_def)

text \<open>
  C2: Events keep their order and the pending queue its bound: whatever the interleaving of posts,
  writes and acknowledgements, what the framework was given is a subsequence of what was posted
  (nothing is reordered, doubled or invented), what waits comes behind it in order, the size counter
  is the number of waiting events and never exceeds the maximum, and a post for which there is room
  loses nothing.
\<close>

theorem events_in_order:
  assumes "event_life fb hc si0 p xs" and "kMaxSizePendingWriteEventsQueue hc < 2 ^ 64"
  shows "subseq (delivered (proxy_effects p)) xs \<and> subseq (delivered (proxy_effects p) @ pending p) xs
    \<and> mSizePendingWriteEventsQueue p = length (pending p)
    \<and> mSizePendingWriteEventsQueue p \<le> kMaxSizePendingWriteEventsQueue hc
    \<and> (length (pending p) + length events \<le> kMaxSizePendingWriteEventsQueue hc \<longrightarrow>
        length events + kMaxSizePendingWriteEventsQueue hc < 2 ^ 64 \<longrightarrow>
        seen (postEventsToMessageQueue hc events nw locked now avail write_ok p) = seen p @ events)"
proof -
  note inv = event_life_inv [OF assms]
  have "subseq (delivered (proxy_effects p) @ pending p) (seen p)"
    unfolding seen_def using delivered_subseq_handled by (rule list_emb_append_mono) simp
  then have d: "subseq (delivered (proxy_effects p) @ pending p) xs"
    using inv subseq_order.order_trans by blast
  moreover have "subseq (delivered (proxy_effects p)) (delivered (proxy_effects p) @ pending p)"
    by (simp add: prefix_imp_subseq)
  ultimately have "subseq (delivered (proxy_effects p)) xs"
    using subseq_order.order_trans by blast
  moreover have "seen (postEventsToMessageQueue hc events nw locked now avail write_ok p) = seen p @ events"
    if "length (pending p) + length events \<le> kMaxSizePendingWriteEventsQueue hc"
      "length events + kMaxSizePendingWriteEventsQueue hc < 2 ^ 64"
    using that post_events [OF conjunct1 [OF inv] that(2), of nw locked now avail write_ok] inv
    by (auto simp: queue_inv_def)
  ultimately show ?thesis
    using d inv by (auto simp: queue_inv_def)
qed

definition sample_event :: "s32 \<Rightarrow> Event" where
  "sample_event h = \<lparr>ev_timestamp = 0, ev_sensorHandle = h, ev_sensorType = SENSOR_TYPE 1, ev_u = Data [0, 0]\<rparr>"

definition running_proxy :: "probe HalProxy" where
  "running_proxy = (HalProxy_members [] 0 0)
     \<lparr>mThreadsRun := True, mPendingWritesThread := WriterWaits, mWakelockThread := WakerWaits\<rparr>"

theorem events_in_order_witness:
  "let p = postEventsToMessageQueue sample_consts [sample_event 1, sample_event 2] 0 False 0 1 True running_proxy
   in delivered (proxy_effects p) = [sample_event 1] \<and> pending p = [sample_event 2]
    \<and> subseq (delivered (proxy_effects p) @ pending p) [sample_event 1, sample_event 2]"
proof -
  let ?p = "postEventsToMessageQueue sample_consts [sample_event 1, sample_event 2] 0 False 0 1 True running_proxy"
  have "event_life platform_flags sample_consts (sample_info 0 0) running_proxy []"
    by (rule event_life.empty) (simp_all add: running_proxy_def HalProxy_members_def)
  then have "event_life platform_flags sample_consts (sample_info 0 0) ?p ([] @ [sample_event 1, sample_event 2])"
    by (rule event_life.posts) (simp add: sample_consts_def)
  moreover have "delivered (proxy_effects ?p) = [sample_event 1]" "pending ?p = [sample_event 2]"
    by (simp_all add: postEventsToMessageQueue_def running_proxy_def HalProxy_members_def sample_consts_def
        pending_def size_add_def Let_def)
  ultimately show ?thesis
    using events_in_order [of platform_flags sample_consts "sample_info 0 0" ?p "[sample_event 1, sample_event 2]"]
    by (simp add: sample_consts_def)
qed

end
