(* ===== verification/Hal_Typing.thy ===== *)
theory Hal_Typing
  imports Hal_Queue_Props
begin

text \<open>
  A typing of the proxy's state (\<open>sensors/HalProxy.cpp\<close>): every sensor it was built with is stored under its own handle,
  belongs to a sub-HAL it has, and offers direct channels only if that sub-HAL is the one chosen for
  them; so it is with dynamic sensors. Every operation keeps the state typed, and in a typed state requests for such
  handles go through. The list of sensors itself may grow by blank entries, when part of a batch is lost.
\<close>

section \<open>Typed states\<close>

definition direct_bits :: "flag_bits \<Rightarrow> u32" where
  "direct_bits fb = or (MASK_DIRECT_REPORT fb) (MASK_DIRECT_CHANNEL fb)"

definition entry_typed :: "nat \<Rightarrow> int \<Rightarrow> SensorInfo \<Rightarrow> bool" where
  "entry_typed n k info \<longleftrightarrow> sint (si_sensorHandle info) = k \<and> subHalIndex (si_sensorHandle info) < n"

definition typed_tables ::
  "flag_bits \<Rightarrow> (int, SensorInfo) rbt \<Rightarrow> (int, SensorInfo) rbt \<Rightarrow> nat \<Rightarrow> nat option \<Rightarrow> bool" where
  "typed_tables fb sensors dynamic n direct \<longleftrightarrow>
     (\<forall>k info. RBT.lookup sensors k = Some info \<longrightarrow> entry_typed n k info
        \<and> (and (si_flags info) (direct_bits fb) \<noteq> 0 \<longrightarrow> direct = Some (subHalIndex (si_sensorHandle info))))
   \<and> (\<forall>k info. RBT.lookup dynamic k = Some info \<longrightarrow> entry_typed n k info)
   \<and> (\<forall>i. direct = Some i \<longrightarrow> i < n)"

text \<open>A list of sensors and the rest of a state; the state with its own list.\<close>

definition typed_over :: "flag_bits \<Rightarrow> (int, SensorInfo) rbt \<Rightarrow> 'h HalProxy \<Rightarrow> bool" where
  "typed_over fb ss p \<longleftrightarrow> length (mSubHalList p) \<le> 128
     \<and> typed_tables fb ss (mDynamicSensors p) (length (mSubHalList p)) (mDirectChannelSubHal p)"

definition typed :: "flag_bits \<Rightarrow> 'h HalProxy \<Rightarrow> bool" where
  "typed fb p \<longleftrightarrow> typed_over fb (pSensors p) p"

text \<open>What the typing depends on.\<close>

definition typed_part :: "'h HalProxy \<Rightarrow> (int, SensorInfo) rbt \<times> (int, SensorInfo) rbt \<times> nat \<times> nat option" where
  "typed_part p = (pSensors p, mDynamicSensors p, length (mSubHalList p), mDirectChannelSubHal p)"

lemma typed_cong: "snd (typed_part p) = snd (typed_part q) \<Longrightarrow> typed_over fb ss p = typed_over fb ss q"
  by (simp add: typed_part_def typed_over_def)

lemma typed_part_sensors: "typed_part p = typed_part q \<Longrightarrow> pSensors p = pSensors q"
  by (simp add: typed_part_def)

lemma typed_part_updates [simp]:
  "typed_part (p\<lparr>mWakelockThread := w\<rparr>) = typed_part p" "typed_part (p\<lparr>mWakelockTimeoutResetTime := t\<rparr>) = typed_part p"
  "typed_part (p\<lparr>mWakelockTimeoutStartTime := t\<rparr>) = typed_part p" "typed_part (p\<lparr>mWakelockRefCount := m\<rparr>) = typed_part p"
  "typed_part (p\<lparr>mPendingWritesThread := x\<rparr>) = typed_part p" "typed_part (p\<lparr>mThreadsRun := b\<rparr>) = typed_part p"
  "typed_part (p\<lparr>mCurrentOperationMode := m'\<rparr>) = typed_part p" "typed_part (p\<lparr>mPendingWriteEventsQueue := q\<rparr>) = typed_part p"
  "typed_part (p\<lparr>mSizePendingWriteEventsQueue := m\<rparr>) = typed_part p"
  "typed_part (p\<lparr>mMostEventsObservedPendingWriteEventsQueue := m\<rparr>) = typed_part p"
  "typed_part (pemit e p) = typed_part p"
  by (simp_all add: typed_part_def)

lemma typed_over_pemit [simp]: "typed_over fb ss (pemit e p) = typed_over fb ss p"
  by (rule typed_cong) simp

section \<open>Operations that leave the tables alone\<close>

lemma typed_part_call [simp]: "typed_part (snd (call_sub_hal i f p)) = typed_part p"
  by (simp add: typed_part_def call_sub_hal_def case_prod_beta)

lemma typed_part_forward [simp]: "typed_part (snd (forward hc h f p)) = typed_part p"
  by (simp add: forward_def)

lemma typed_part_requests [simp]:
  "typed_part (snd (HalProxy_activate api hc h b p)) = typed_part p"
  "typed_part (snd (HalProxy_batch api hc h d l p)) = typed_part p"
  "typed_part (snd (HalProxy_flush api hc h p)) = typed_part p"
  "typed_part (snd (HalProxy_injectSensorData_2_1 api conv hc event p)) = typed_part p"
  "typed_part (snd (HalProxy_registerDirectChannel api p)) = typed_part p"
  "typed_part (snd (HalProxy_unregisterDirectChannel api ch p)) = typed_part p"
  "typed_part (snd (HalProxy_configDirectReport api hc h ch rate p)) = typed_part p"
  by (simp_all add: HalProxy_activate_def HalProxy_batch_def HalProxy_flush_def HalProxy_injectSensorData_2_1_def
      HalProxy_injectSensorData_def HalProxy_registerDirectChannel_def HalProxy_unregisterDirectChannel_def
      HalProxy_configDirectReport_def Let_def split: option.split)

lemma typed_part_modes [simp]: "typed_part (snd (HalProxy_setOperationMode api m p)) = typed_part p"
proof -
  have set: "typed_part (snd (set_modes api m i n p)) = typed_part p" for i n and p :: "'a HalProxy"
    by (induction n arbitrary: i p) (simp_all add: Let_def)
  have undo: "typed_part (fold (\<lambda>i p. snd (call_sub_hal i (api_setOperationMode api (mCurrentOperationMode p)) p)) js p)
      = typed_part p" for js and p :: "'a HalProxy"
    by (induction js arbitrary: p) simp_all
  show ?thesis
    by (simp add: HalProxy_setOperationMode_def set undo Let_def)
qed

lemma typed_part_wakelock [simp]:
  "typed_part (snd (incrementRefCountAndMaybeAcquireWakelock d now p)) = typed_part p"
  "typed_part (decrementRefCountAndMaybeReleaseWakelock d t p) = typed_part p"
  "typed_part (resetSharedWakelock now p) = typed_part p"
  "typed_part (handleWakelocks hc now reset_now acks p) = typed_part p"
  by (simp_all add: wakelock_defs handleWakelocks_def Let_def split: waker.split option.split)

lemma typed_part_post [simp]:
  "typed_part (postEventsToMessageQueue hc events nw locked now avail write_ok p) = typed_part p"
  by (simp add: postEventsToMessageQueue_def Let_def)

section \<open>The writer\<close>

text \<open>
  Counting the wakeup events of a lost batch looks handles up with \<open>operator[]\<close>: one that is not in the list gets
  a blank entry \<open>si0\<close>; the others stay as they are.
\<close>

definition handles :: "Event list \<Rightarrow> int set" where
  "handles evs = (\<lambda>ev. sint (ev_sensorHandle ev)) ` set evs"

definition grown :: "SensorInfo \<Rightarrow> int set \<Rightarrow> (int, SensorInfo) rbt \<Rightarrow> (int, SensorInfo) rbt \<Rightarrow> bool" where
  "grown si0 K ss ss' \<longleftrightarrow> (\<forall>k. RBT.lookup ss' k = RBT.lookup ss k
     \<or> RBT.lookup ss k = None \<and> RBT.lookup ss' k = Some si0 \<and> k \<in> K)"

lemma grown_refl [simp]: "grown si0 K ss ss"
  by (simp add: grown_def)

lemma grown_trans: "grown si0 K ss ss' \<Longrightarrow> grown si0 L ss' ss'' \<Longrightarrow> K \<subseteq> M \<Longrightarrow> L \<subseteq> M \<Longrightarrow> grown si0 M ss ss''"
  unfolding grown_def by (metis subsetD)

lemma grown_mono: "grown si0 K ss ss' \<Longrightarrow> K \<subseteq> L \<Longrightarrow> grown si0 L ss ss'"
  using grown_trans [OF grown_refl] by blast

lemma grown_some: "grown si0 K ss ss' \<Longrightarrow> RBT.lookup ss k = Some x \<Longrightarrow> RBT.lookup ss' k = Some x"
  unfolding grown_def by (metis option.discI)

definition looks_up :: "SensorInfo \<Rightarrow> Event \<Rightarrow> 'h HalProxy \<Rightarrow> 'h HalProxy" where
  "looks_up si0 ev p = (if RBT.lookup (pSensors p) (sint (ev_sensorHandle ev)) = None
     then p\<lparr>pSensors := RBT.insert (sint (ev_sensorHandle ev)) si0 (pSensors p)\<rparr> else p)"

lemma count_Cons: "\<exists>m. count_wakeups fb si0 (x # xs) n p = count_wakeups fb si0 xs m (looks_up si0 x p)"
  by (simp add: looks_up_def Let_def) blast

lemma looks_up_lookup:
  "RBT.lookup (pSensors (looks_up si0 x p)) k =
     (if k = sint (ev_sensorHandle x) \<and> RBT.lookup (pSensors p) k = None then Some si0 else RBT.lookup (pSensors p) k)"
  by (auto simp: looks_up_def)

lemma count_grown:
  "grown si0 (handles evs) (pSensors p) (pSensors (snd (count_wakeups fb si0 evs n p)))
    \<and> snd (typed_part (snd (count_wakeups fb si0 evs n p))) = snd (typed_part p)"
proof (induction evs arbitrary: n p)
  case (Cons x xs)
  obtain m where m: "count_wakeups fb si0 (x # xs) n p = count_wakeups fb si0 xs m (looks_up si0 x p)"
    using count_Cons by blast
  have "grown si0 (handles [x]) (pSensors p) (pSensors (looks_up si0 x p))"
    by (simp add: grown_def looks_up_lookup handles_def)
  moreover have "snd (typed_part (looks_up si0 x p)) = snd (typed_part p)"
    by (simp add: looks_up_def typed_part_def)
  ultimately show ?case
    unfolding m using Cons.IH [of "looks_up si0 x p" m]
    grown_trans [of si0 "handles [x]" "pSensors p" "pSensors (looks_up si0 x p)" "handles xs" _ "handles (x # xs)"]
    by (simp add: handles_def subset_insertI)
qed simp

text \<open>What counting in a whole batch, or a part of it, does to the list and to the rest.\<close>

lemma count_part_grown:
  assumes "set evs \<subseteq> set es"
  shows "grown si0 (handles es) (pSensors p) (pSensors (snd (countNumWakeupEvents fb si0 evs n p)))
    \<and> snd (typed_part (snd (countNumWakeupEvents fb si0 evs n p))) = snd (typed_part p)"
proof -
  have "handles (take n evs) \<subseteq> handles es"
    using assms by (auto simp: handles_def dest: in_set_takeD)
  then show ?thesis
    unfolding countNumWakeupEvents_def using count_grown [of si0 "take n evs" p fb 0] grown_mono by blast
qed

lemma writer_finishes_grown:
  "grown si0 (handles (pending p)) (pSensors p) (pSensors (writer_finishes fb si0 q ok p))
    \<and> snd (typed_part (writer_finishes fb si0 q ok p)) = snd (typed_part p)"
proof (cases "mPendingWriteEventsQueue p")
  case Nil
  then show ?thesis by (simp add: writer_finishes_def)
next
  case (Cons b rest)
  obtain evs nw where b: "mPendingWriteEventsQueue p = (evs, nw) # rest"
    using Cons by (cases b) auto
  then have sub: "set evs \<subseteq> set (pending p)"
    by (simp add: pending_def)
  have out: "pSensors (pemit e p) = pSensors p" "typed_part (pemit e p) = typed_part p" for e and p :: "'a HalProxy"
    by simp_all
  have wake: "pSensors (decrementRefCountAndMaybeReleaseWakelock d t p) = pSensors p" for d t and p :: "'a HalProxy"
    by (rule typed_part_sensors) simp
  have "grown si0 (handles (pending p)) (pSensors p) (pSensors (snd (countNumWakeupEvents fb si0 evs q (pemit e p))))"
      "snd (typed_part (snd (countNumWakeupEvents fb si0 evs q (pemit e p)))) = snd (typed_part p)" for e
    using count_part_grown [OF sub, of si0 "pemit e p" fb q] by simp_all
  then show ?thesis
    by (simp add: writer_finishes_def b wake Let_def)
qed

lemma handlePendingWrites_grown:
  "grown si0 (handles (pending p)) (pSensors p) (pSensors (handlePendingWrites fb si0 quantum ok p))
    \<and> snd (typed_part (handlePendingWrites fb si0 quantum ok p)) = snd (typed_part p)"
  by (simp add: handlePendingWrites_def writer_picks_up_def writer_finishes_grown split: writer.split)

section \<open>Dynamic sensors\<close>

lemma entry_put:
  assumes "local_handle l" and "i < n" and "n \<le> 128" and "si_sensorHandle info = setSubHalIndex l i"
  shows "entry_typed n (sint (setSubHalIndex l i)) info"
  using assms hc.idx_put [of l i] by (simp add: entry_typed_def)

lemma connect_typed:
  assumes "platform_mask hc" and "typed_over fb ss p" and "i < length (mSubHalList p)"
  shows "typed_over fb ss (snd (connect_each hc i infos acc p))"
  using assms(2,3)
proof (induction infos arbitrary: acc p)
  case (Cons x xs)
  let ?x = "x\<lparr>si_sensorHandle := setSubHalIndex (si_sensorHandle x) i\<rparr>"
  let ?p = "p\<lparr>mDynamicSensors := RBT.insert (sint (si_sensorHandle ?x)) ?x (mDynamicSensors p)\<rparr>"
  have "typed_over fb ss ?p" if "local_handle (si_sensorHandle x)"
    using Cons.prems that entry_put [of "si_sensorHandle x" i "length (mSubHalList p)" ?x]
    by (auto simp: typed_over_def typed_tables_def)
  then show ?case
    using Cons assms(1) by (simp add: platform_mask_def Let_def)
qed simp

lemma disconnect_typed:
  assumes "typed_over fb ss p"
  shows "typed_over fb ss (snd (disconnect_each hc i ls acc p))"
  using assms
proof (induction ls arbitrary: acc p)
  case (Cons l ls)
  have "typed_over fb ss (p\<lparr>mDynamicSensors := RBT.delete k (mDynamicSensors p)\<rparr>)" for k
    using Cons.prems by (auto simp: typed_over_def typed_tables_def restrict_map_def split: if_splits)
  then show ?case
    using Cons by (simp add: Let_def)
qed simp

section \<open>The list of sensors\<close>

lemma no_direct_left: "and (and f (not (direct_bits fb))) (direct_bits fb) = 0" for f :: u32
  by (rule bit_word_eqI) (simp add: bit_and_iff bit_not_iff)

lemma add_sensor_typed:
  assumes "platform_mask hc" and "typed fb p" and "i < length (mSubHalList p)"
  shows "typed fb (add_sensor fb hc i info p)"
proof (cases "local_handle (si_sensorHandle info)")
  case True
  let ?x = "info\<lparr>si_sensorHandle := setSubHalIndex (si_sensorHandle info) i\<rparr>"
  have n: "length (mSubHalList p) \<le> 128"
    using assms(2) by (simp add: typed_def typed_over_def)
  have index: "subHalIndex (setSubHalIndex (si_sensorHandle info) i) = i"
    using True assms(3) n hc.idx_put by simp
  have new: "entry_typed (length (mSubHalList p)) (sint (si_sensorHandle ?x)) (standardize_pickup hc y)"
    if "si_sensorHandle y = si_sensorHandle ?x" for y
    using that index assms(3) by (simp add: entry_typed_def typed_over_def)
  have old: "entry_typed (length (mSubHalList p)) k y"
      "and (si_flags y) (direct_bits fb) \<noteq> 0 \<Longrightarrow> mDirectChannelSubHal p = Some (subHalIndex (si_sensorHandle y))"
    if "RBT.lookup (pSensors p) k = Some y" for k y
    using that assms(2) by (auto simp: typed_def typed_over_def typed_tables_def)
  consider "mDirectChannelSubHal p = None" "and (si_flags ?x) (direct_bits fb) \<noteq> 0"
    | "mDirectChannelSubHal p = None" "and (si_flags ?x) (direct_bits fb) = 0"
    | "mDirectChannelSubHal p = Some i" | j where "mDirectChannelSubHal p = Some j" "j \<noteq> i"
    by (cases "mDirectChannelSubHal p") auto
  then show ?thesis
    using True assms n index new old no_direct_left
    by cases (auto simp: add_sensor_def setDirectChannelFlags_def direct_bits_def [symmetric] platform_mask_def typed_def typed_over_def
        typed_tables_def Let_def)
qed (use assms in \<open>simp add: add_sensor_def platform_mask_def\<close>)

lemma add_lists_typed:
  assumes "platform_mask hc" and "typed fb p" and "\<forall>i \<in> set js. i < length (mSubHalList p)"
  shows "typed fb (fold (add_list api fb hc) js p)"
  using assms(2,3)
proof (induction js arbitrary: p)
  case (Cons i js)
  have "typed fb (fold (add_sensor fb hc i) infos p)" if "typed fb p" "i < length (mSubHalList p)" for infos and p :: "'a HalProxy"
    using that by (induction infos arbitrary: p) (simp_all add: add_sensor_typed [OF assms(1)])
  then have "typed fb (add_list api fb hc i p)" "mSubHalList (add_list api fb hc i p) = mSubHalList p"
    using Cons.prems conjunct2 [OF add_sensors_keys [OF assms(1)]] by (simp_all add: add_list_alt)
  then show ?case
    using Cons.IH Cons.prems(2) by simp
qed simp

lemma new_typed:
  assumes "platform_mask hc" and "length hs \<le> 128"
  shows "typed fb (initializeSensorList api fb hc (HalProxy_members hs s0 r0))"
  unfolding initializeSensorList_alt
  by (rule add_lists_typed [OF assms(1)]) (use assms(2) in \<open>simp_all add: typed_def typed_over_def typed_tables_def HalProxy_members_def\<close>)

section \<open>Initialisation\<close>

lemma disable_typed_part [simp]: "typed_part (disableAllSensors api hc p) = typed_part p"
proof -
  have "typed_part (disable_each api hc es p) = typed_part p" for es and p :: "'a HalProxy"
    by (induction es arbitrary: p) simp_all
  then show ?thesis by (simp add: disableAllSensors_def Let_def)
qed

lemma initialize_subs_typed_part [simp]: "typed_part (snd (initialize_sub_hals api i n r p)) = typed_part p"
  by (induction n arbitrary: i p) (simp_all add: Let_def)

lemma stop_grown:
  "grown si0 (handles (pending p)) (pSensors p) (pSensors (stopThreads fb si0 ok now p))
    \<and> snd (typed_part (stopThreads fb si0 ok now p)) = snd (typed_part p)"
proof -
  let ?p = "p\<lparr>mThreadsRun := False\<rparr>"
  have same: "pending ?p = pending p" "pSensors ?p = pSensors p" "typed_part ?p = typed_part p"
    by (simp_all add: pending_def)
  have wake: "pSensors (resetSharedWakelock now q) = pSensors q" for q :: "'a HalProxy"
    by (rule typed_part_sensors) simp
  show ?thesis
    using writer_finishes_grown [of si0 ?p fb _ ok] same
    by (auto simp: stopThreads_def wake Let_def split: writer.split)
qed

lemma initialize_grown:
  fixes api :: "'h sub_hal_api" and p :: "'h HalProxy" and fb :: flag_bits and hc :: hal_consts and si0 :: SensorInfo
    and ok flags_created :: bool and stop_now now :: int
  defines "p' \<equiv> snd (initializeCommon api fb hc si0 ok stop_now now flags_created p)"
  shows "grown si0 (handles (pending p)) (pSensors p) (pSensors p')"
    and "snd (typed_part p') = (RBT.empty, snd (snd (typed_part p)))"
proof -
  have e: "typed_part (p\<lparr>mDynamicSensors := RBT.empty\<rparr>) = (pSensors p, RBT.empty, snd (snd (typed_part p)))"
    for p :: "'h HalProxy"
    by (simp add: typed_part_def)
  have s: "pSensors (disableAllSensors api hc q) = pSensors q" "pSensors (resetSharedWakelock now q) = pSensors q"
    for q :: "'h HalProxy"
    by (rule typed_part_sensors, simp)+
  have "typed_part p' = (pSensors (stopThreads fb si0 ok stop_now p), RBT.empty, snd (snd (typed_part p)))"
    using stop_grown [of si0 p fb ok stop_now] by (simp add: p'_def initializeCommon_def e s Let_def)
  then show "grown si0 (handles (pending p)) (pSensors p) (pSensors p')"
      "snd (typed_part p') = (RBT.empty, snd (snd (typed_part p)))"
    using stop_grown [of si0 p fb ok stop_now] by (simp_all add: typed_part_def)
qed

lemma initialize_typed:
  assumes "typed_over fb ss p"
  shows "typed_over fb ss (snd (initializeCommon api fb hc si0 ok stop_now now flags_created p))"
  using assms initialize_grown(2) [of api fb hc si0 ok stop_now now flags_created p]
  by (auto simp: typed_part_def typed_over_def typed_tables_def)

section \<open>The life of a proxy\<close>

text \<open>The list of sensors is left alone by dynamic ones.\<close>

lemma dynamic_sensors_list:
  "pSensors (onDynamicSensorsConnected hc infos i p) = pSensors p"
  "pSensors (onDynamicSensorsDisconnected hc ls i p) = pSensors p"
proof -
  have "pSensors (snd (connect_each hc i infos acc p)) = pSensors p" for acc and p :: "'a HalProxy"
    by (induction infos arbitrary: acc p) (simp_all add: Let_def)
  moreover have "pSensors (snd (disconnect_each hc i ls acc p)) = pSensors p" for acc and p :: "'a HalProxy"
    by (induction ls arbitrary: acc p) (simp_all add: Let_def)
  ultimately show "pSensors (onDynamicSensorsConnected hc infos i p) = pSensors p"
      "pSensors (onDynamicSensorsDisconnected hc ls i p) = pSensors p"
    by (simp_all add: onDynamicSensorsConnected_def onDynamicSensorsDisconnected_def Let_def)
qed

text \<open>
  Every operation of the proxy, from its construction over at most 128 sub-HALs with \<open>ss\<close> as its list of sensors.
\<close>

inductive proxy_life ::
  "'h sub_hal_api \<Rightarrow> flag_bits \<Rightarrow> hal_consts \<Rightarrow> SensorInfo \<Rightarrow> event_conversion
   \<Rightarrow> (int, SensorInfo) rbt \<Rightarrow> 'h HalProxy \<Rightarrow> bool"
  for api fb hc si0 conv ss where
  born: "length hs \<le> 128 \<Longrightarrow> ss = pSensors (initializeSensorList api fb hc (HalProxy_members hs s0 r0)) \<Longrightarrow>
    proxy_life api fb hc si0 conv ss (initializeSensorList api fb hc (HalProxy_members hs s0 r0))"
| activates: "proxy_life api fb hc si0 conv ss p \<Longrightarrow> proxy_life api fb hc si0 conv ss (snd (HalProxy_activate api hc h b p))"
| batches: "proxy_life api fb hc si0 conv ss p \<Longrightarrow> proxy_life api fb hc si0 conv ss (snd (HalProxy_batch api hc h d l p))"
| flushes: "proxy_life api fb hc si0 conv ss p \<Longrightarrow> proxy_life api fb hc si0 conv ss (snd (HalProxy_flush api hc h p))"
| injects: "proxy_life api fb hc si0 conv ss p \<Longrightarrow>
    proxy_life api fb hc si0 conv ss (snd (HalProxy_injectSensorData_2_1 api conv hc event p))"
| modes: "proxy_life api fb hc si0 conv ss p \<Longrightarrow> proxy_life api fb hc si0 conv ss (snd (HalProxy_setOperationMode api m p))"
| registers: "proxy_life api fb hc si0 conv ss p \<Longrightarrow> proxy_life api fb hc si0 conv ss (snd (HalProxy_registerDirectChannel api p))"
| unregisters: "proxy_life api fb hc si0 conv ss p \<Longrightarrow>
    proxy_life api fb hc si0 conv ss (snd (HalProxy_unregisterDirectChannel api ch p))"
| configures: "proxy_life api fb hc si0 conv ss p \<Longrightarrow>
    proxy_life api fb hc si0 conv ss (snd (HalProxy_configDirectReport api hc h ch rate p))"
| connects: "proxy_life api fb hc si0 conv ss p \<Longrightarrow> i < length (mSubHalList p) \<Longrightarrow>
    proxy_life api fb hc si0 conv ss (onDynamicSensorsConnected hc infos i p)"
| disconnects: "proxy_life api fb hc si0 conv ss p \<Longrightarrow> proxy_life api fb hc si0 conv ss (onDynamicSensorsDisconnected hc ls i p)"
| posts: "proxy_life api fb hc si0 conv ss p \<Longrightarrow>
    proxy_life api fb hc si0 conv ss (postEventsToMessageQueue hc events nw locked now avail write_ok p)"
| writes: "proxy_life api fb hc si0 conv ss p \<Longrightarrow>
    proxy_life api fb hc si0 conv ss (handlePendingWrites fb si0 quantum ok p)"
| wakes: "proxy_life api fb hc si0 conv ss p \<Longrightarrow> proxy_life api fb hc si0 conv ss (handleWakelocks hc now reset_now acks p)"
| counts: "proxy_life api fb hc si0 conv ss p \<Longrightarrow>
    proxy_life api fb hc si0 conv ss (snd (incrementRefCountAndMaybeAcquireWakelock d now p))"
| uncounts: "proxy_life api fb hc si0 conv ss p \<Longrightarrow>
    proxy_life api fb hc si0 conv ss (decrementRefCountAndMaybeReleaseWakelock d t p)"
| initializes: "proxy_life api fb hc si0 conv ss p \<Longrightarrow>
    proxy_life api fb hc si0 conv ss (snd (initializeCommon api fb hc si0 ok stop_now now flags_created p))"

lemma same_tables:
  "typed_part q = typed_part p \<Longrightarrow> typed_over fb ss p \<and> grown si0 K ss (pSensors p)
    \<Longrightarrow> typed_over fb ss q \<and> grown si0 K ss (pSensors q)"
  using typed_cong [of q p fb ss] typed_part_sensors [of q p] by simp

lemma life_typed:
  assumes "platform_mask hc" and "proxy_life api fb hc si0 conv ss p"
  shows "typed_over fb ss p \<and> grown si0 UNIV ss (pSensors p)"
  using assms(2)
proof (induction rule: proxy_life.induct)
  case (born hs s0 r0)
  then show ?case
    using new_typed [OF assms(1), of hs fb api s0 r0] by (simp add: typed_def)
next
  case (connects p i infos)
  then show ?case
    using connect_typed [OF assms(1), of fb ss p i infos "[]"] dynamic_sensors_list(1) [of hc infos i p]
    by (simp add: onDynamicSensorsConnected_def Let_def)
next
  case (disconnects p ls i)
  then show ?case
    using disconnect_typed [of fb ss p hc i ls "[]"] dynamic_sensors_list(2) [of hc ls i p]
    by (simp add: onDynamicSensorsDisconnected_def Let_def)
next
  case (writes p quantum ok)
  then show ?case
    using handlePendingWrites_grown [of si0 p fb quantum ok] typed_cong grown_trans [OF _ _ subset_UNIV subset_UNIV] by blast
next
  case (initializes p ok stop_now now flags_created)
  then show ?case
    by (blast intro: initialize_typed grown_trans [OF _ initialize_grown(1) subset_UNIV subset_UNIV])
qed (rule same_tables, simp, assumption)+

text \<open>In a typed state the proxy sends a request for a sensor of its list to the sub-HAL it belongs to.\<close>

lemma typed_routes:
  assumes "platform_mask hc" and "typed_over fb ss p"
    and "RBT.lookup ss k = Some info \<or> RBT.lookup (mDynamicSensors p) k = Some info"
  shows "HalProxy_activate api hc (si_sensorHandle info) b p
    = call_sub_hal (subHalIndex (si_sensorHandle info))
        (api_activate api (clearSubHalIndex first_byte (si_sensorHandle info)) b) p"
proof -
  have "subHalIndex (si_sensorHandle info) < length (mSubHalList p)"
    using assms(2,3) by (auto simp: typed_over_def typed_tables_def entry_typed_def)
  then show ?thesis
    using assms(1) by (simp add: HalProxy_activate_def forward_def isSubHalIndexValid_def subHalIndex_def platform_mask_def)
qed

text \<open>
  C23: The proxy's tables over every life, whatever its sub-HALs do and whatever writes are lost: the sensors it was
  built with stay listed as they are, and any other entry of the list is the blank one that the lookup of a
  lost event's handle leaves behind; a sensor it was built with, or a dynamic one, is stored under its own handle,
  whose index is that of a sub-HAL the proxy has, and so a request for it is never refused by the proxy but goes to
  that sub-HAL; a sensor it was built with offers direct channels only if its sub-HAL is the one that serves
  them.
\<close>

theorem proxy_tables_typed:
  assumes "platform_mask hc" and "proxy_life api fb hc si0 conv ss p"
  shows "(RBT.lookup (pSensors p) k = RBT.lookup ss k
      \<or> RBT.lookup ss k = None \<and> RBT.lookup (pSensors p) k = Some si0)
    \<and> (RBT.lookup ss k = Some info \<or> RBT.lookup (mDynamicSensors p) k = Some info \<longrightarrow>
         sint (si_sensorHandle info) = k
         \<and> subHalIndex (si_sensorHandle info) < length (mSubHalList p)
         \<and> HalProxy_activate api hc (si_sensorHandle info) b p
             = call_sub_hal (subHalIndex (si_sensorHandle info))
                 (api_activate api (clearSubHalIndex first_byte (si_sensorHandle info)) b) p)
    \<and> (RBT.lookup ss k = Some info \<longrightarrow>
         and (si_flags info) (or (MASK_DIRECT_REPORT fb) (MASK_DIRECT_CHANNEL fb)) \<noteq> 0 \<longrightarrow>
         mDirectChannelSubHal p = Some (subHalIndex (si_sensorHandle info)))"
proof -
  have t: "typed_over fb ss p" "grown si0 UNIV ss (pSensors p)"
    using life_typed [OF assms] by blast+
  have "entry_typed (length (mSubHalList p)) k info"
    if "RBT.lookup ss k = Some info \<or> RBT.lookup (mDynamicSensors p) k = Some info"
    using t(1) that by (auto simp: typed_over_def typed_tables_def)
  then show ?thesis
    using t typed_routes [OF assms(1) t(1), of k info api b]
    by (auto simp: grown_def entry_typed_def typed_over_def typed_tables_def direct_bits_def)
qed

theorem proxy_tables_typed_witness:
  "HalProxy_activate probe_api sample_consts (setSubHalIndex 7 1) True
     (onDynamicSensorsConnected sample_consts [sample_info 7 0] 1
       (initializeSensorList probe_api platform_flags sample_consts (HalProxy_members [sample_probe 0 False, sample_probe 0 True] 0 0)))
   = call_sub_hal 1 (api_activate probe_api 7 True)
     (onDynamicSensorsConnected sample_consts [sample_info 7 0] 1
       (initializeSensorList probe_api platform_flags sample_consts (HalProxy_members [sample_probe 0 False, sample_probe 0 True] 0 0)))"
proof -
  let ?q = "initializeSensorList probe_api platform_flags sample_consts (HalProxy_members [sample_probe 0 False, sample_probe 0 True] 0 0)"
  let ?p = "onDynamicSensorsConnected sample_consts [sample_info 7 0] 1 ?q"
  have "mSubHalList ?q = [sample_probe 0 False, sample_probe 0 True]"
    by (rule initialized_keys(2) [OF sample_mask])
  then have "proxy_life probe_api platform_flags sample_consts (sample_info 0 0) \<lparr>convertToOldEvent = id, convertToNewEvent = id\<rparr>
      (pSensors ?q) ?p"
    by (intro proxy_life.connects proxy_life.born) simp_all
  moreover have "RBT.lookup (mDynamicSensors ?p) (sint (setSubHalIndex 7 1)) = Some (sample_info (setSubHalIndex 7 1) 0)"
    using local_7 by (simp add: onDynamicSensorsConnected_def sample_info_def sample_consts_def Let_def)
  moreover have "subHalIndex (setSubHalIndex 7 1) = 1" "clearSubHalIndex first_byte (setSubHalIndex 7 1) = 7"
    using hc.idx_put [OF local_7, of 1] hc.strip_put [OF local_7, of 1] by simp_all
  moreover have "si_sensorHandle (sample_info (setSubHalIndex 7 1) 0) = setSubHalIndex 7 1"
    by (simp add: sample_info_def)
  ultimately show ?thesis
    using proxy_tables_typed [OF sample_mask, of probe_api platform_flags "sample_info 0 0"
        "\<lparr>convertToOldEvent = id, convertToNewEvent = id\<rparr>" "pSensors ?q" ?p "sint (setSubHalIndex 7 1)" "sample_info (setSubHalIndex 7 1) 0" True]
    by simp
qed

end
