(* ===== verification/Hal_Wakelock_Props.thy ===== *)
theory Hal_Wakelock_Props
  imports Hal_Queue_Props
begin

text \<open>
  The reference-counted wakelock over the life of the proxy: when it is held, when it is given up,
  what an initialisation leaves of it, and how a lost batch gives up references of others.
\<close>

section \<open>Acquire and release alternate\<close>

text \<open>\<open>wakes b xs\<close>: starting with the lock held or not (\<open>b\<close>), what it is after \<open>xs\<close>, if they alternate.\<close>

fun wakes :: "bool \<Rightarrow> bool list \<Rightarrow> bool option" where
  "wakes b [] = Some b"
| "wakes b (x # xs) = (if x = b then None else wakes x xs)"

lemma wakes_append: "wakes b (xs @ ys) = (case wakes b xs of None \<Rightarrow> None | Some c \<Rightarrow> wakes c ys)"
  by (induction b xs rule: wakes.induct) auto

definition lock_inv :: "'h HalProxy \<Rightarrow> bool" where
  "lock_inv p \<longleftrightarrow> wakes False (wake_log (proxy_effects p)) = Some (0 < mWakelockRefCount p)"

lemma increment_lock_inv [inv_intros]:
  assumes "lock_inv p" and "0 < d" and "mWakelockRefCount p + d < 2 ^ 64"
  shows "lock_inv (snd (incrementRefCountAndMaybeAcquireWakelock d now p))"
  using assms
  by (auto simp: lock_inv_def incrementRefCountAndMaybeAcquireWakelock_def wakes_append size_add_exact Let_def)

lemma decrement_lock_inv [inv_intros]:
  "lock_inv p \<Longrightarrow> lock_inv (decrementRefCountAndMaybeReleaseWakelock d t p)"
  by (auto simp: lock_inv_def decrementRefCountAndMaybeReleaseWakelock_def wakes_append Let_def)

text \<open>Everything else leaves the count and the lock alone.\<close>

definition lock_part :: "'h HalProxy \<Rightarrow> nat \<times> bool list" where
  "lock_part p = (mWakelockRefCount p, wake_log (proxy_effects p))"

lemma lock_inv_part: "lock_part p = lock_part q \<Longrightarrow> lock_inv p = lock_inv q"
  by (simp add: lock_part_def lock_inv_def)

lemma lock_part_updates [simp]:
  "lock_part (p\<lparr>mWakelockThread := w\<rparr>) = lock_part p"
  "lock_part (p\<lparr>mWakelockTimeoutResetTime := t\<rparr>) = lock_part p"
  "lock_part (p\<lparr>pSensors := ss\<rparr>) = lock_part p"
  "lock_part (p\<lparr>mPendingWritesThread := x\<rparr>) = lock_part p"
  "lock_part (p\<lparr>mThreadsRun := b\<rparr>) = lock_part p"
  "lock_part (p\<lparr>mDynamicSensors := ss\<rparr>) = lock_part p"
  "lock_part (p\<lparr>mSubHalList := hs\<rparr>) = lock_part p"
  "lock_part (p\<lparr>mCurrentOperationMode := m\<rparr>) = lock_part p"
  "lock_part (p\<lparr>mPendingWriteEventsQueue := q\<rparr>) = lock_part p"
  "lock_part (p\<lparr>mSizePendingWriteEventsQueue := n\<rparr>) = lock_part p"
  "lock_part (p\<lparr>mMostEventsObservedPendingWriteEventsQueue := n\<rparr>) = lock_part p"
  "lock_part (pemit (tried ok es) p) = lock_part p"
  "lock_part (pemit (EventsWritten es) p) = lock_part p"
  by (simp_all add: lock_part_def)

lemmas lock_inv_updates [simp] = lock_part_updates [THEN lock_inv_part]

lemma reset_lock_inv [inv_intros]: "lock_inv p \<Longrightarrow> lock_inv (resetSharedWakelock now p)"
  by (simp add: resetSharedWakelock_def decrement_lock_inv)

lemma waker_lock_inv [inv_intros]: "lock_inv p \<Longrightarrow> lock_inv (handleWakelocks hc now reset_now acks p)"
  by (auto simp: handleWakelocks_def decrement_lock_inv reset_lock_inv split: waker.split option.split)

lemma post_lock_part [simp]:
  "lock_part (postEventsToMessageQueue hc events nw False now avail write_ok p) = lock_part p"
  by (simp add: postEventsToMessageQueue_def Let_def)

lemma post_lock_inv [inv_intros]:
  assumes "lock_inv p" and "locked \<longrightarrow> 0 < nw \<and> mWakelockRefCount p + nw < 2 ^ 64"
  shows "lock_inv (postEventsToMessageQueue hc events nw locked now avail write_ok p)"
  unfolding post_alt [of hc events nw locked] lock_inv_part [OF post_lock_part]
  using assms by (simp add: post_counts_def increment_lock_inv)

lemma count_lock_part [simp]: "lock_part (snd (countNumWakeupEvents fb si0 evs n p)) = lock_part p"
  using count_wakeups_frame [of fb si0 "take n evs" 0 p] by (auto simp: countNumWakeupEvents_def)

lemma writer_counts_lock_inv: "lock_inv p \<Longrightarrow> lock_inv (writer_counts fb si0 q ok p)"
  by (auto simp: writer_counts_def Let_def decrement_lock_inv lock_inv_part [OF count_lock_part]
      split: list.split prod.split)

lemma writer_rest_lock_part [simp]: "lock_part (writer_rest q p) = lock_part p"
  by (simp add: writer_rest_def split: list.split prod.split)

lemma writer_finishes_lock_inv: "lock_inv p \<Longrightarrow> lock_inv (writer_finishes fb si0 q ok p)"
proof (cases "mPendingWriteEventsQueue p")
  case Nil
  then show "lock_inv p \<Longrightarrow> ?thesis" by (simp add: writer_finishes_def)
next
  case (Cons b rest)
  assume "lock_inv p"
  then show ?thesis
    using Cons
    by (simp add: writer_alt [of p "fst b" "snd b" rest fb si0 q ok] writer_counts_lock_inv
        lock_inv_part [OF writer_rest_lock_part])
qed

lemma writer_lock_inv [inv_intros]: "lock_inv p \<Longrightarrow> lock_inv (handlePendingWrites fb si0 quantum ok p)"
  by (auto simp: handlePendingWrites_def writer_picks_up_def writer_finishes_lock_inv split: writer.split)

section \<open>Initialisation\<close>

text \<open>With the threads stopped every change of the count is skipped.\<close>

lemma stopped_counting [simp]:
  "\<not> mThreadsRun p \<Longrightarrow> decrementRefCountAndMaybeReleaseWakelock d t p = p"
  "\<not> mThreadsRun p \<Longrightarrow> incrementRefCountAndMaybeAcquireWakelock d now p = (None, p)"
  "\<not> mThreadsRun p \<Longrightarrow> resetSharedWakelock now p = p\<lparr>mWakelockTimeoutResetTime := now\<rparr>"
  by (simp_all add: wakelock_defs)

lemma count_running [simp]: "mThreadsRun (snd (countNumWakeupEvents fb si0 evs n p)) = mThreadsRun p"
  using count_wakeups_frame [of fb si0 "take n evs" 0 p] by (auto simp: countNumWakeupEvents_def)

lemma writer_stopped:
  "\<not> mThreadsRun p \<Longrightarrow> lock_part (writer_finishes fb si0 q ok p) = lock_part p
     \<and> mThreadsRun (writer_finishes fb si0 q ok p) = mThreadsRun p"
proof (cases "mPendingWriteEventsQueue p")
  case Nil
  then show "\<not> mThreadsRun p \<Longrightarrow> ?thesis" by (simp add: writer_finishes_def)
next
  case (Cons b rest)
  assume "\<not> mThreadsRun p"
  then show ?thesis
    using Cons
    by (cases b) (simp add: writer_alt, auto simp: writer_rest_def writer_counts_def Let_def
        split: list.split prod.split)
qed

lemma stop_lock_part: "lock_part (stopThreads fb si0 ok now p) = lock_part p \<and> \<not> mThreadsRun (stopThreads fb si0 ok now p)"
  using writer_stopped [of "p\<lparr>mThreadsRun := False\<rparr>" fb si0 _ ok]
  by (auto simp: stopThreads_def Let_def split: writer.split)

lemma call_lock_part [simp]: "lock_part (snd (call_sub_hal i f p)) = lock_part p"
  by (simp add: call_sub_hal_def case_prod_beta)

lemma disable_each_lock_part [simp]: "lock_part (disable_each api hc es p) = lock_part p"
  by (induction es arbitrary: p) (simp_all add: HalProxy_activate_def forward_def)

lemma initialize_sub_hals_lock_part [simp]:
  "lock_part (snd (initialize_sub_hals api i n result p)) = lock_part p"
  by (induction n arbitrary: i p) (simp_all add: Let_def)

lemma initialize_lock_part:
  "lock_part (snd (initializeCommon api fb hc si0 ok stop_now now flags_created p)) = lock_part p"
  using stop_lock_part [of fb si0 ok stop_now p]
  by (simp add: initializeCommon_def disableAllSensors_def Let_def)

text \<open>
  Initialisation does not reset the wakelock, although it calls \<open>resetSharedWakelock\<close>: by then the
  threads have been stopped, and with them every change of the count. The references of the
  previous life stay, and so does the lock they hold; on a running proxy the same call gives up all
  of them.
\<close>

theorem initialize_keeps_wakelock:
  "mWakelockRefCount (snd (initializeCommon api fb hc si0 ok stop_now now flags_created p)) = mWakelockRefCount p
   \<and> wake_log (proxy_effects (snd (initializeCommon api fb hc si0 ok stop_now now flags_created p)))
       = wake_log (proxy_effects p)
   \<and> (mThreadsRun p \<longrightarrow> mWakelockRefCount (resetSharedWakelock now p) = 0)"
  using initialize_lock_part [of api fb hc si0 ok stop_now now flags_created p]
  by (auto simp: lock_part_def wakelock_defs Let_def)

definition held_proxy :: "probe HalProxy" where
  "held_proxy = snd (incrementRefCountAndMaybeAcquireWakelock 2 5 running_proxy)"

lemma held_proxy_simps:
  "mWakelockRefCount held_proxy = 2" "mThreadsRun held_proxy" "wake_log (proxy_effects held_proxy) = [True]"
  "mWakelockTimeoutStartTime held_proxy = 5" "mWakelockTimeoutResetTime held_proxy = 0"
  "mWakelockThread held_proxy = WakerWaits" "mPendingWriteEventsQueue held_proxy = []"
  by (simp_all add: held_proxy_def incrementRefCountAndMaybeAcquireWakelock_def running_proxy_def
      HalProxy_members_def size_add_def)

theorem initialize_keeps_wakelock_witness:
  "mWakelockRefCount (snd (initializeCommon probe_api platform_flags sample_consts (sample_info 0 0) True 6 7 True held_proxy)) = 2
   \<and> mWakelockRefCount (resetSharedWakelock 7 held_proxy) = 0"
  using initialize_keeps_wakelock [of probe_api platform_flags sample_consts "sample_info 0 0" True 6 7 True held_proxy]
    held_proxy_simps by simp

section \<open>The life of the lock\<close>

text \<open>
  Everything that touches the count: the references of wakelocks in scope, posts, both threads and
  initialisation. A step adds at least one reference when it adds any, and the counter does not
  overflow.
\<close>

inductive lock_life :: "'h sub_hal_api \<Rightarrow> flag_bits \<Rightarrow> hal_consts \<Rightarrow> SensorInfo \<Rightarrow> 'h HalProxy \<Rightarrow> bool"
  for api fb hc si0 where
  born: "mWakelockRefCount p = 0 \<Longrightarrow> proxy_effects p = [] \<Longrightarrow> lock_life api fb hc si0 p"
| counts: "lock_life api fb hc si0 p \<Longrightarrow> 0 < d \<Longrightarrow> mWakelockRefCount p + d < 2 ^ 64 \<Longrightarrow>
    lock_life api fb hc si0 (snd (incrementRefCountAndMaybeAcquireWakelock d now p))"
| uncounts: "lock_life api fb hc si0 p \<Longrightarrow> lock_life api fb hc si0 (decrementRefCountAndMaybeReleaseWakelock d t p)"
| posts: "lock_life api fb hc si0 p \<Longrightarrow> (locked \<longrightarrow> 0 < nw \<and> mWakelockRefCount p + nw < 2 ^ 64) \<Longrightarrow>
    lock_life api fb hc si0 (postEventsToMessageQueue hc events nw locked now avail write_ok p)"
| writes: "lock_life api fb hc si0 p \<Longrightarrow> lock_life api fb hc si0 (handlePendingWrites fb si0 quantum ok p)"
| wakes: "lock_life api fb hc si0 p \<Longrightarrow> lock_life api fb hc si0 (handleWakelocks hc now reset_now acks p)"
| initializes: "lock_life api fb hc si0 p \<Longrightarrow>
    lock_life api fb hc si0 (snd (initializeCommon api fb hc si0 ok stop_now now flags_created p))"

lemma lock_life_inv: "lock_life api fb hc si0 p \<Longrightarrow> lock_inv p"
proof (induction rule: lock_life.induct)
  case (born p)
  then show ?case by (simp add: lock_inv_def)
next
  case (initializes p ok stop_now now flags_created)
  then show ?case
    using lock_inv_part [OF initialize_lock_part] by metis
qed (auto intro: inv_intros)

text \<open>
  C8: The wakelock is held exactly while references are counted: over any life of the proxy the lock
  is never acquired while held nor released while not held, and after every step it is held if and
  only if the count is positive.
\<close>

theorem wakelock_balanced:
  assumes "lock_life api fb hc si0 p"
  shows "wakes False (wake_log (proxy_effects p)) = Some (0 < mWakelockRefCount p)"
  using lock_life_inv [OF assms] by (simp add: lock_inv_def)

lemma held_life: "lock_life probe_api platform_flags sample_consts (sample_info 0 0) held_proxy"
  unfolding held_proxy_def
  by (rule lock_life.counts [OF lock_life.born]) (simp_all add: running_proxy_def HalProxy_members_def)

theorem wakelock_balanced_witness:
  "wakes False (wake_log (proxy_effects (decrementRefCountAndMaybeReleaseWakelock 2 (- 1) held_proxy))) = Some False"
  using wakelock_balanced [OF lock_life.uncounts [OF held_life], of 2 "- 1"] held_proxy_simps
  by (simp add: decrementRefCountAndMaybeReleaseWakelock_def)

text \<open>
  C29: The framework's silence is bounded: a section of the wakelock thread that finds references older
  than the timeout gives all of them up and releases the lock; before that it waits for
  acknowledgements for exactly the rest of the timeout. References from before the reset no longer
  count: their later decrement does nothing.
\<close>

theorem wakelock_times_out:
  assumes "mThreadsRun p" and "0 < mWakelockRefCount p" and "mWakelockThread p = WakerWaits"
  shows "(if kWakelockTimeoutNs hc < now - mWakelockTimeoutStartTime p
      then mWakelockRefCount (handleWakelocks hc now reset_now acks p) = 0
        \<and> wake_log (proxy_effects (handleWakelocks hc now reset_now acks p)) = wake_log (proxy_effects p) @ [False]
        \<and> (t < reset_now \<longrightarrow> t \<noteq> - 1 \<longrightarrow> 0 < d' \<longrightarrow>
             (let p' = snd (incrementRefCountAndMaybeAcquireWakelock d' now' (handleWakelocks hc now reset_now acks p))
              in decrementRefCountAndMaybeReleaseWakelock d t p' = p'))
      else handleWakelocks hc now reset_now acks p
        = p\<lparr>mWakelockThread := WakerReads (kWakelockTimeoutNs hc - (now - mWakelockTimeoutStartTime p))\<rparr>)"
  using assms
  by (auto simp: handleWakelocks_def sharedWakelockDidTimeout_def wakelock_defs Let_def)

theorem wakelock_times_out_witness:
  "mWakelockRefCount (handleWakelocks sample_consts 2000 2001 None held_proxy) = 0
   \<and> wake_log (proxy_effects (handleWakelocks sample_consts 2000 2001 None held_proxy)) = [True, False]"
proof -
  have "kWakelockTimeoutNs sample_consts < 2000 - mWakelockTimeoutStartTime held_proxy"
    by (simp add: sample_consts_def held_proxy_simps)
  then show ?thesis
    using wakelock_times_out [of held_proxy sample_consts 2000 2001 None] held_proxy_simps by simp
qed

section \<open>References of lost events\<close>

lemma running_decrement [simp]: "mThreadsRun (decrementRefCountAndMaybeReleaseWakelock d t p) = mThreadsRun p"
  by (simp add: decrementRefCountAndMaybeReleaseWakelock_def Let_def)

lemma count_wakeups_sensors:
  "pSensors p = pSensors p' \<Longrightarrow> fst (count_wakeups fb si0 evs n p) = fst (count_wakeups fb si0 evs n p')"
  by (induction evs arbitrary: n p p') (simp_all add: Let_def)

text \<open>
  A batch that needs two writes and loses both gives up more references than it has: after the
  first it gives up those of the events it lost, after the second those of the whole batch, at the
  cost of references of other events.
\<close>

theorem lost_batch_overdecrements:
  assumes "mThreadsRun p" and "mPendingWritesThread p = WriterWrites q"
    and "mPendingWriteEventsQueue p = (evs, nw) # rest" and "0 < nw" and "q < length evs" and "length evs \<le> 2 * q"
  shows "mWakelockRefCount (fold (handlePendingWrites fb si0 q) [False, False, False] p)
    = mWakelockRefCount p - (fst (countNumWakeupEvents fb si0 evs q p) + nw)"
proof -
  have dec: "mWakelockRefCount (decrementRefCountAndMaybeReleaseWakelock d (- 1) p) = mWakelockRefCount p - d"
    if "mThreadsRun p" for d and p :: "'h HalProxy"
    using that by (simp add: decrementRefCountAndMaybeReleaseWakelock_def Let_def)
  let ?e = "pemit (tried False (take (min (length evs) q) evs)) p"
  let ?c = "countNumWakeupEvents fb si0 evs q ?e"
  let ?w = "writer_counts fb si0 q False ?e"
  have c: "fst ?c = fst (countNumWakeupEvents fb si0 evs q p)"
    unfolding countNumWakeupEvents_def by (rule count_wakeups_sensors) simp
  have w: "?w = decrementRefCountAndMaybeReleaseWakelock (fst ?c) (- 1) (snd ?c)"
    using assms(3-5) by (simp add: writer_counts_def Let_def)
  have "mWakelockRefCount (snd ?c) = mWakelockRefCount p" "mThreadsRun (snd ?c)"
    using count_lock_part [of fb si0 evs q ?e] assms(1) by (simp_all add: lock_part_def)
  then have w1: "mWakelockRefCount ?w = mWakelockRefCount p - fst ?c" "mThreadsRun ?w"
    unfolding w by (simp_all add: dec running_decrement)
  let ?p1 = "writer_finishes fb si0 q False p"
  have p1: "?p1 = writer_rest q ?w"
    by (rule writer_alt [OF assms(3)])
  have "queue_part ?w = queue_part ?e"
    by simp
  then have qw: "mPendingWriteEventsQueue ?w = (evs, nw) # rest"
    using assms(3) by (simp add: queue_part_def)
  have q1: "mPendingWriteEventsQueue ?p1 = (drop q evs, nw) # rest" "mThreadsRun ?p1"
      "mWakelockRefCount ?p1 = mWakelockRefCount p - fst ?c" "mPendingWritesThread ?p1 = WriterWaits"
    unfolding p1 writer_rest_def qw using w1 assms(5) by simp_all
  let ?p2 = "?p1\<lparr>mPendingWritesThread := WriterWrites q\<rparr>"
  have "\<not> q < length (drop q evs)"
    using assms(6) by simp
  then have "mWakelockRefCount (writer_finishes fb si0 q False ?p2) = mWakelockRefCount ?p1 - nw"
    using q1 assms(4) by (simp add: writer_finishes_def dec Let_def)
  then show ?thesis
    using q1 assms(2) c by (simp add: handlePendingWrites_def writer_picks_up_def)
qed

definition torn_proxy :: "probe HalProxy" where
  "torn_proxy = held_proxy\<lparr>pSensors := RBT.insert 7 (sample_info 7 1) RBT.empty, mWakelockRefCount := 5,
     mPendingWriteEventsQueue := [([sample_event 7, sample_event 7], 2)], mSizePendingWriteEventsQueue := 2,
     mPendingWritesThread := WriterWrites 1\<rparr>"

theorem lost_batch_overdecrements_witness:
  "mWakelockRefCount (fold (handlePendingWrites platform_flags (sample_info 0 0) 1) [False, False, False] torn_proxy) = 2"
proof -
  have "fst (countNumWakeupEvents platform_flags (sample_info 0 0) [sample_event 7, sample_event 7] 1 torn_proxy) = 1"
    by (simp add: countNumWakeupEvents_def torn_proxy_def sample_event_def sample_info_def platform_flags_def Let_def)
  then show ?thesis
    using lost_batch_overdecrements [of torn_proxy 1 "[sample_event 7, sample_event 7]" 2 "[]" platform_flags "sample_info 0 0"]
      held_proxy_simps
    by (simp add: torn_proxy_def)
qed

end
