(* ===== verification/Hal_Life.thy ===== *)
theory Hal_Life
  imports Transition_System Hal_Typing Hal_Wakelock_Props
begin

text \<open>
  One life of the proxy (\<open>sensors/HalProxy.cpp\<close>) with everything in it: requests, mode changes, direct
  channels, dynamic sensors, posts, both threads, references and initialisations in any order. What
  \<open>Hal_Queue_Props\<close>, \<open>Hal_Wakelock_Props\<close> and \<open>Hal_Typing\<close> show of lives of its parts holds together
  along it.
\<close>

section \<open>Steps\<close>

text \<open>What surrounds a proxy: its sub-HALs' interface, the platform's constants and conversions.\<close>

record 'h proxy_env =
  env_api :: "'h sub_hal_api"
  env_flags :: flag_bits
  env_consts :: hal_consts
  env_info :: SensorInfo
  env_conv :: event_conversion

datatype proxy_act =
    Activates s32 bool | Batches s32 s64 s64 | Flushes s32 | Injects Event | SetsMode OperationMode
  | Registers | Unregisters s32 | Configures s32 s32 RateLevel
  | Connects "SensorInfo list" nat | Disconnects "s32 list" nat
  | Posts "Event list" nat bool int nat bool | WriterRuns nat bool | WakerRuns int int "nat option"
  | Counts nat int | Uncounts nat int | Initializes bool int int bool

fun proxy_step :: "'h proxy_env \<Rightarrow> proxy_act \<Rightarrow> 'h HalProxy \<Rightarrow> 'h HalProxy" where
  "proxy_step e (Activates h b) p = snd (HalProxy_activate (env_api e) (env_consts e) h b p)"
| "proxy_step e (Batches h d l) p = snd (HalProxy_batch (env_api e) (env_consts e) h d l p)"
| "proxy_step e (Flushes h) p = snd (HalProxy_flush (env_api e) (env_consts e) h p)"
| "proxy_step e (Injects ev) p = snd (HalProxy_injectSensorData_2_1 (env_api e) (env_conv e) (env_consts e) ev p)"
| "proxy_step e (SetsMode m) p = snd (HalProxy_setOperationMode (env_api e) m p)"
| "proxy_step e Registers p = snd (HalProxy_registerDirectChannel (env_api e) p)"
| "proxy_step e (Unregisters ch) p = snd (HalProxy_unregisterDirectChannel (env_api e) ch p)"
| "proxy_step e (Configures h ch rate) p = snd (HalProxy_configDirectReport (env_api e) (env_consts e) h ch rate p)"
| "proxy_step e (Connects infos i) p = onDynamicSensorsConnected (env_consts e) infos i p"
| "proxy_step e (Disconnects ls i) p = onDynamicSensorsDisconnected (env_consts e) ls i p"
| "proxy_step e (Posts evs nw locked now avail ok) p = postEventsToMessageQueue (env_consts e) evs nw locked now avail ok p"
| "proxy_step e (WriterRuns quantum ok) p = handlePendingWrites (env_flags e) (env_info e) quantum ok p"
| "proxy_step e (WakerRuns now reset_now acks) p = handleWakelocks (env_consts e) now reset_now acks p"
| "proxy_step e (Counts d now) p = snd (incrementRefCountAndMaybeAcquireWakelock d now p)"
| "proxy_step e (Uncounts d t) p = decrementRefCountAndMaybeReleaseWakelock d t p"
| "proxy_step e (Initializes ok stop_now now created) p =
     snd (initializeCommon (env_api e) (env_flags e) (env_consts e) (env_info e) ok stop_now now created p)"

text \<open>
  What is promised: the index of a sub-HAL is one the proxy gave out; its callback passes a locked wakelock on only with
  wakeup events, which it asserts; and counters stay below the bound of \<open>size_t\<close>. Of which sensors
  the events are is left open.
\<close>

fun proxy_allows :: "'h proxy_env \<Rightarrow> proxy_act \<Rightarrow> 'h HalProxy \<Rightarrow> bool" where
  "proxy_allows e (Connects infos i) p = (i < length (mSubHalList p))"
| "proxy_allows e (Posts evs nw locked now avail ok) p =
     (length evs + kMaxSizePendingWriteEventsQueue (env_consts e) < 2 ^ 64
      \<and> (locked \<longrightarrow> 0 < nw \<and> mWakelockRefCount p + nw < 2 ^ 64))"
| "proxy_allows e (Counts d now) p = (0 < d \<and> mWakelockRefCount p + d < 2 ^ 64)"
| "proxy_allows e _ p = True"

text \<open>A life pairs the proxy with what was posted to it.\<close>

fun posted_by :: "proxy_act \<Rightarrow> Event list" where
  "posted_by (Posts evs nw locked now avail ok) = evs"
| "posted_by _ = []"

definition life_step :: "'h proxy_env \<Rightarrow> proxy_act \<Rightarrow> 'h HalProxy \<times> Event list \<Rightarrow> 'h HalProxy \<times> Event list" where
  "life_step e x s = (proxy_step e x (fst s), snd s @ posted_by x)"

definition life_allows :: "'h proxy_env \<Rightarrow> proxy_act \<Rightarrow> 'h HalProxy \<times> Event list \<Rightarrow> bool" where
  "life_allows e x s = proxy_allows e x (fst s)"

definition born :: "'h proxy_env \<Rightarrow> 'h list \<Rightarrow> int \<Rightarrow> int \<Rightarrow> 'h HalProxy" where
  "born e hs s0 r0 = initializeSensorList (env_api e) (env_flags e) (env_consts e) (HalProxy_members hs s0 r0)"

section \<open>Requests leave the event path alone\<close>

definition event_part :: "'h HalProxy \<Rightarrow> (Event list \<times> nat) list \<times> nat \<times> nat \<times> Event list \<times> nat \<times> bool list" where
  "event_part p = (mPendingWriteEventsQueue p, mSizePendingWriteEventsQueue p, mMostEventsObservedPendingWriteEventsQueue p,
     handled (proxy_effects p), lock_part p)"

lemma event_part_updates [simp]:
  "event_part (p\<lparr>mSubHalList := hs\<rparr>) = event_part p" "event_part (p\<lparr>mCurrentOperationMode := m\<rparr>) = event_part p"
  "event_part (p\<lparr>mDynamicSensors := ss\<rparr>) = event_part p" "event_part (p\<lparr>pSensors := ss\<rparr>) = event_part p"
  "event_part (p\<lparr>mDirectChannelSubHal := d\<rparr>) = event_part p" "event_part (p\<lparr>mWakelockTimeoutResetTime := t\<rparr>) = event_part p"
  "event_part (pemit (DynamicSensorsConnected infos) p) = event_part p"
  "event_part (pemit (DynamicSensorsDisconnected hs') p) = event_part p"
  by (simp_all add: event_part_def lock_part_def handled_def wake_log_def)

lemma event_part_call [simp]: "event_part (snd (call_sub_hal i f p)) = event_part p"
  by (simp add: call_sub_hal_def case_prod_beta)

lemma event_part_forward [simp]: "event_part (snd (forward hc h f p)) = event_part p"
  by (simp add: forward_def)

lemma event_part_requests [simp]:
  "event_part (snd (HalProxy_activate api hc h b p)) = event_part p"
  "event_part (snd (HalProxy_batch api hc h d l p)) = event_part p"
  "event_part (snd (HalProxy_flush api hc h p)) = event_part p"
  "event_part (snd (HalProxy_injectSensorData_2_1 api conv hc event p)) = event_part p"
  "event_part (snd (HalProxy_registerDirectChannel api p)) = event_part p"
  "event_part (snd (HalProxy_unregisterDirectChannel api ch p)) = event_part p"
  "event_part (snd (HalProxy_configDirectReport api hc h ch rate p)) = event_part p"
  by (simp_all add: HalProxy_activate_def HalProxy_batch_def HalProxy_flush_def HalProxy_injectSensorData_2_1_def
      HalProxy_injectSensorData_def HalProxy_registerDirectChannel_def HalProxy_unregisterDirectChannel_def
      HalProxy_configDirectReport_def Let_def split: option.split)

lemma event_part_modes [simp]: "event_part (snd (HalProxy_setOperationMode api m p)) = event_part p"
proof -
  have set: "event_part (snd (set_modes api m i n p)) = event_part p" for i n and p :: "'a HalProxy"
    by (induction n arbitrary: i p) (simp_all add: Let_def)
  have undo: "event_part (fold (\<lambda>i p. snd (call_sub_hal i (api_setOperationMode api (mCurrentOperationMode p)) p)) js p)
      = event_part p" for js and p :: "'a HalProxy"
    by (induction js arbitrary: p) simp_all
  show ?thesis
    by (simp add: HalProxy_setOperationMode_def set undo Let_def)
qed

lemma event_part_dynamic [simp]:
  "event_part (onDynamicSensorsConnected hc infos i p) = event_part p"
  "event_part (onDynamicSensorsDisconnected hc ls i p) = event_part p"
proof -
  have c: "event_part (snd (connect_each hc i infos acc p)) = event_part p" for acc and p :: "'a HalProxy"
    by (induction infos arbitrary: acc p) (simp_all add: Let_def)
  have d: "event_part (snd (disconnect_each hc i ls acc p)) = event_part p" for acc and p :: "'a HalProxy"
    by (induction ls arbitrary: acc p) (simp_all add: Let_def)
  show "event_part (onDynamicSensorsConnected hc infos i p) = event_part p"
      "event_part (onDynamicSensorsDisconnected hc ls i p) = event_part p"
    by (simp_all add: onDynamicSensorsConnected_def onDynamicSensorsDisconnected_def c d Let_def)
qed

text \<open>An initialisation drops what waits, after the writer has finished the write it was in.\<close>

lemma event_part_disable [simp]: "event_part (disableAllSensors api hc p) = event_part p"
proof -
  have "event_part (disable_each api hc es p) = event_part p" for es and p :: "'a HalProxy"
    by (induction es arbitrary: p) simp_all
  then show ?thesis by (simp add: disableAllSensors_def Let_def)
qed

lemma event_part_initialize_subs [simp]: "event_part (snd (initialize_sub_hals api i n r p)) = event_part p"
  by (induction n arbitrary: i p) (simp_all add: Let_def)

lemma event_part_initialize:
  fixes api :: "'h sub_hal_api" and p :: "'h HalProxy"
  shows "event_part (snd (initializeCommon api fb hc si0 ok stop_now now created p))
    = ([], 0, mMostEventsObservedPendingWriteEventsQueue (stopThreads fb si0 ok stop_now p),
       handled (proxy_effects (stopThreads fb si0 ok stop_now p)), lock_part p)"
proof -
  have threads: "event_part (p\<lparr>mThreadsRun := b, mPendingWritesThread := w, mWakelockThread := k\<rparr>) = event_part p"
    for b w k and p :: "'h HalProxy"
    by (simp add: event_part_def lock_part_def)
  have dropped: "event_part (p\<lparr>mPendingWriteEventsQueue := [], mSizePendingWriteEventsQueue := 0\<rparr>)
    = ([], 0, snd (snd (event_part p)))" for p :: "'h HalProxy"
    by (simp add: event_part_def lock_part_def)
  have "snd (snd (event_part (stopThreads fb si0 ok stop_now p)))
    = (mMostEventsObservedPendingWriteEventsQueue (stopThreads fb si0 ok stop_now p),
       handled (proxy_effects (stopThreads fb si0 ok stop_now p)), lock_part p)"
    using stop_lock_part [of fb si0 ok stop_now p] by (simp add: event_part_def)
  then show ?thesis
    using stop_lock_part [of fb si0 ok stop_now p] by (simp add: initializeCommon_def threads dropped Let_def)
qed

section \<open>What a step changes\<close>

lemma event_part_eq:
  assumes "event_part p = event_part q"
  shows "queue_inv hc p = queue_inv hc q" and "seen p = seen q" and "pending p = pending q" and "lock_inv p = lock_inv q"
  using assms by (auto simp: event_part_def queue_inv_def seen_def pending_def lock_part_def lock_inv_def)

lemma queue_part_pending: "queue_part p = queue_part q \<Longrightarrow> pending p = pending q"
  by (simp add: queue_part_def pending_def)

lemma post_pending: "set (pending (postEventsToMessageQueue hc evs nw locked now avail ok p)) \<subseteq> set (pending p) \<union> set evs"
proof -
  have "pending (post_counts locked nw now p) = pending p"
    by (rule queue_part_pending) simp
  moreover have "set (pending (postEventsToMessageQueue hc evs nw False now avail ok q)) \<subseteq> set (pending q) \<union> set evs"
    for q :: "'a HalProxy"
    by (auto simp: postEventsToMessageQueue_def pending_def Let_def dest: in_set_dropD)
  ultimately show ?thesis
    unfolding post_alt [of hc evs nw locked] by metis
qed

lemma writer_pending: "set (pending (handlePendingWrites fb si0 quantum ok p)) \<subseteq> set (pending p)"
proof (cases "mPendingWritesThread p")
  case (WriterWrites q)
  show ?thesis
  proof (cases "mPendingWriteEventsQueue p")
    case (Cons b rest)
    then show ?thesis
      using WriterWrites
      by (auto simp: handlePendingWrites_def writer_finishes_def pending_def Let_def split: prod.splits dest: in_set_dropD)
  qed (use WriterWrites in \<open>simp add: handlePendingWrites_def writer_finishes_def\<close>)
qed (simp_all add: handlePendingWrites_def writer_picks_up_def pending_def)

lemma step_pending: "set (pending (proxy_step e x p)) \<subseteq> set (pending p) \<union> set (posted_by x)"
proof (cases x)
  case (Posts evs nw locked now avail ok)
  then show ?thesis using post_pending by simp
next
  case (WriterRuns quantum ok)
  then show ?thesis using writer_pending by fastforce
next
  case (Initializes ok stop_now now created)
  have "mPendingWriteEventsQueue (proxy_step e x p) = []"
    using event_part_initialize [of "env_api e" "env_flags e" "env_consts e" "env_info e" ok stop_now now created p] Initializes
    by (simp add: event_part_def)
  then show ?thesis by (simp add: pending_def)
qed (simp_all add: event_part_eq(3) [OF event_part_requests(1)] event_part_eq(3) [OF event_part_requests(2)]
    event_part_eq(3) [OF event_part_requests(3)] event_part_eq(3) [OF event_part_requests(4)]
    event_part_eq(3) [OF event_part_requests(5)] event_part_eq(3) [OF event_part_requests(6)]
    event_part_eq(3) [OF event_part_requests(7)] event_part_eq(3) [OF event_part_modes]
    event_part_eq(3) [OF event_part_dynamic(1)] event_part_eq(3) [OF event_part_dynamic(2)]
    queue_part_pending [OF wakelock_queue_frame(1)] queue_part_pending [OF wakelock_queue_frame(2)]
    queue_part_pending [OF wakelock_queue_frame(4)])

text \<open>The list of sensors is made once; lost events may add blank entries to it.\<close>

lemma sensors_step: "grown (env_info e) (handles (pending p)) (pSensors p) (pSensors (proxy_step e x p))"
proof (cases x)
  case (WriterRuns quantum ok)
  then show ?thesis
    by (simp add: handlePendingWrites_grown)
next
  case (Initializes ok stop_now now created)
  then show ?thesis
    by (simp add: initialize_grown)
qed (simp_all add: typed_part_sensors [OF typed_part_requests(1)] typed_part_sensors [OF typed_part_requests(2)]
    typed_part_sensors [OF typed_part_requests(3)] typed_part_sensors [OF typed_part_requests(4)]
    typed_part_sensors [OF typed_part_requests(5)] typed_part_sensors [OF typed_part_requests(6)]
    typed_part_sensors [OF typed_part_requests(7)] typed_part_sensors [OF typed_part_modes] dynamic_sensors_list
    typed_part_sensors [OF typed_part_post] typed_part_sensors [OF typed_part_wakelock(1)]
    typed_part_sensors [OF typed_part_wakelock(2)] typed_part_sensors [OF typed_part_wakelock(4)])

section \<open>Invariants of the life\<close>

definition env_ok :: "'h proxy_env \<Rightarrow> bool" where
  "env_ok e \<longleftrightarrow> platform_mask (env_consts e) \<and> kMaxSizePendingWriteEventsQueue (env_consts e) < 2 ^ 64"

text \<open>\<open>ss\<close> is the list of sensors the proxy was built with.\<close>

definition tables_inv :: "'h proxy_env \<Rightarrow> (int, SensorInfo) rbt \<Rightarrow> 'h HalProxy \<times> Event list \<Rightarrow> bool" where
  "tables_inv e ss s \<longleftrightarrow> env_ok e \<and> typed_over (env_flags e) ss (fst s)
     \<and> grown (env_info e) (handles (snd s)) ss (pSensors (fst s)) \<and> set (pending (fst s)) \<subseteq> set (snd s)"

definition events_inv :: "'h proxy_env \<Rightarrow> 'h HalProxy \<times> Event list \<Rightarrow> bool" where
  "events_inv e s \<longleftrightarrow> env_ok e \<and> queue_inv (env_consts e) (fst s) \<and> subseq (seen (fst s)) (snd s)"

definition wakelock_inv :: "'h HalProxy \<times> Event list \<Rightarrow> bool" where
  "wakelock_inv s \<longleftrightarrow> lock_inv (fst s)"

lemma typed_step:
  assumes "env_ok e" and "typed_over (env_flags e) ss p" and "proxy_allows e x p"
  shows "typed_over (env_flags e) ss (proxy_step e x p)"
proof -
  have mask: "platform_mask (env_consts e)"
    using assms(1) by (simp add: env_ok_def)
  have same: ?thesis if "typed_part (proxy_step e x p) = typed_part p"
    using typed_cong [of "proxy_step e x p" p] that assms(2) by simp
  show ?thesis
  proof (cases x)
    case (Connects infos i)
    then show ?thesis
      using connect_typed [OF mask assms(2), of i infos "[]"] assms(3) by (simp add: onDynamicSensorsConnected_def Let_def)
  next
    case (Disconnects ls i)
    then show ?thesis
      using disconnect_typed [OF assms(2), of "env_consts e" i ls "[]"] by (simp add: onDynamicSensorsDisconnected_def Let_def)
  next
    case (WriterRuns quantum ok)
    then show ?thesis
      using assms(2) handlePendingWrites_grown typed_cong by (metis proxy_step.simps(12))
  next
    case (Initializes ok stop_now now created)
    then show ?thesis
      using assms(2) by (simp add: initialize_typed)
  qed (rule same; simp)+
qed

lemma tables_keeps:
  assumes "tables_inv e ss s" and "life_allows e x s"
  shows "tables_inv e ss (life_step e x s)"
proof -
  have inv: "env_ok e" "typed_over (env_flags e) ss (fst s)" "grown (env_info e) (handles (snd s)) ss (pSensors (fst s))"
      "set (pending (fst s)) \<subseteq> set (snd s)"
    using assms(1) by (simp_all add: tables_inv_def)
  have "grown (env_info e) (handles (snd s @ posted_by x)) ss (pSensors (proxy_step e x (fst s)))"
    by (rule grown_trans [OF inv(3) sensors_step]) (use inv(4) in \<open>auto simp: handles_def\<close>)
  then show ?thesis
    using inv typed_step [OF inv(1,2)] step_pending [of e x "fst s"] assms(2)
    by (auto simp: tables_inv_def life_allows_def life_step_def)
qed

lemma stop_seen:
  assumes "queue_inv hc p" and "kMaxSizePendingWriteEventsQueue hc < 2 ^ 64"
  shows "mMostEventsObservedPendingWriteEventsQueue (stopThreads fb si0 ok now p) \<le> kMaxSizePendingWriteEventsQueue hc
    \<and> subseq (handled (proxy_effects (stopThreads fb si0 ok now p))) (seen p)"
proof -
  let ?p = "p\<lparr>mThreadsRun := False\<rparr>"
  have inv: "queue_inv hc ?p" "seen ?p = seen p"
    using assms(1) by (simp_all add: queue_inv_def seen_def pending_def)
  let ?w = "case mPendingWritesThread ?p of WriterWrites q \<Rightarrow> writer_finishes fb si0 q ok ?p | _ \<Rightarrow> ?p"
  have w: "queue_inv hc ?w \<and> seen ?w = seen p"
    using writer_events [OF inv(1) assms(2), of fb si0 0 ok] inv
    by (auto simp: handlePendingWrites_def split: writer.splits)
  have "queue_part (if mWakelockThread ?w = WakerGone then ?w else resetSharedWakelock now ?w) = queue_part ?w"
    by simp
  then have "mMostEventsObservedPendingWriteEventsQueue (stopThreads fb si0 ok now p)
      = mMostEventsObservedPendingWriteEventsQueue ?w"
      "handled (proxy_effects (stopThreads fb si0 ok now p)) = handled (proxy_effects ?w)"
    by (simp_all add: stopThreads_def queue_part_def Let_def)
  moreover have "subseq (handled (proxy_effects ?w)) (seen ?w)"
    by (simp add: seen_def prefix_imp_subseq)
  ultimately show ?thesis
    using w by (simp add: queue_inv_def)
qed

lemma events_keeps:
  assumes "events_inv e s" and "life_allows e x s"
  shows "events_inv e (life_step e x s)"
proof -
  let ?p = "fst s" and ?hc = "env_consts e"
  have ok: "env_ok e" "queue_inv ?hc ?p" "subseq (seen ?p) (snd s)" "kMaxSizePendingWriteEventsQueue ?hc < 2 ^ 64"
    using assms(1) by (auto simp: events_inv_def env_ok_def)
  have same: ?thesis if "event_part (proxy_step e x ?p) = event_part ?p" "posted_by x = []"
    using event_part_eq(1,2) [OF that(1)] ok that(2) by (simp add: events_inv_def life_step_def)
  have same': ?thesis if "queue_part (proxy_step e x ?p) = queue_part ?p" "posted_by x = []"
    using queue_inv_part [OF that(1)] seen_part [OF that(1)] ok that(2) by (simp add: events_inv_def life_step_def)
  show ?thesis
  proof (cases x)
    case (Posts evs nw locked now avail write_ok)
    then have "length evs + kMaxSizePendingWriteEventsQueue ?hc < 2 ^ 64"
      using assms(2) by (simp add: life_allows_def)
    from post_events [OF ok(2) this, of nw locked now avail write_ok] show ?thesis
      using ok(1,3) Posts list_emb_append_mono by (fastforce simp: events_inv_def life_step_def)
  next
    case (WriterRuns quantum w)
    then show ?thesis
      using writer_events [OF ok(2,4), of "env_flags e" "env_info e" quantum w] ok(1,3)
      by (simp add: events_inv_def life_step_def)
  next
    case (Initializes w stop_now now created)
    let ?q = "proxy_step e x ?p"
    have "event_part ?q = ([], 0, mMostEventsObservedPendingWriteEventsQueue (stopThreads (env_flags e) (env_info e) w stop_now ?p),
       handled (proxy_effects (stopThreads (env_flags e) (env_info e) w stop_now ?p)), lock_part ?p)"
      using Initializes event_part_initialize by simp
    then have "queue_inv ?hc ?q" "subseq (seen ?q) (seen ?p)"
      using stop_seen [OF ok(2,4), of "env_flags e" "env_info e" w stop_now]
      by (auto simp: event_part_def queue_inv_def seen_def pending_def)
    then show ?thesis
      using ok(1,3) Initializes subseq_order.order_trans by (fastforce simp: events_inv_def life_step_def)
  qed (rule same same'; simp)+
qed

lemma wakelock_keeps:
  assumes "wakelock_inv s" and "life_allows e x s"
  shows "wakelock_inv (life_step e x s)"
proof -
  let ?p = "fst s"
  have inv: "lock_inv ?p"
    using assms(1) by (simp add: wakelock_inv_def)
  have same: ?thesis if "event_part (proxy_step e x ?p) = event_part ?p"
    using event_part_eq(4) [OF that] inv by (simp add: wakelock_inv_def life_step_def)
  show ?thesis
  proof (cases x)
    case (Initializes w stop_now now created)
    then show ?thesis
      using inv by (simp add: wakelock_inv_def life_step_def lock_inv_part [OF initialize_lock_part])
  next
    case (Posts evs nw locked now avail ok)
    then show ?thesis
      using inv assms(2) by (simp add: wakelock_inv_def life_step_def life_allows_def post_lock_inv)
  next
    case (WriterRuns quantum ok)
    then show ?thesis
      using inv by (simp add: wakelock_inv_def life_step_def writer_lock_inv)
  next
    case (WakerRuns now reset_now acks)
    then show ?thesis
      using inv by (simp add: wakelock_inv_def life_step_def waker_lock_inv)
  next
    case (Counts d now)
    then show ?thesis
      using inv assms(2) by (simp add: wakelock_inv_def life_step_def life_allows_def increment_lock_inv)
  next
    case (Uncounts d t)
    then show ?thesis
      using inv by (simp add: wakelock_inv_def life_step_def decrement_lock_inv)
  qed (rule same; simp)+
qed

lemma events_subseq: "events_inv e (p, posted) \<Longrightarrow> subseq (delivered (proxy_effects p) @ pending p) posted"
  using list_emb_append_mono [OF delivered_subseq_handled [of "proxy_effects p"] subseq_order.order_refl [of "pending p"]]
    subseq_order.order_trans by (fastforce simp: events_inv_def seen_def)

interpretation ev: two_invariants "life_step e" "life_allows e" "events_inv e" wakelock_inv for e
  by unfold_locales (rule events_keeps wakelock_keeps; assumption)+

interpretation pa: two_invariants "life_step e" "life_allows e" "tables_inv e ss" "\<lambda>s. events_inv e s \<and> wakelock_inv s" for e ss
  by unfold_locales (auto intro: tables_keeps events_keeps wakelock_keeps)

lemma born_inv:
  assumes "env_ok e" and "length hs \<le> 128"
  shows "tables_inv e (pSensors (born e hs s0 r0)) (born e hs s0 r0, []) \<and> events_inv e (born e hs s0 r0, []) \<and> wakelock_inv (born e hs s0 r0, [])"
proof -
  have mask: "platform_mask (env_consts e)"
    using assms(1) by (simp add: env_ok_def)
  have keep: "event_part (add_sensor fb hc i info p) = event_part p" for fb hc i info and p :: "'a HalProxy"
    by (simp add: add_sensor_def setDirectChannelFlags_def Let_def)
  have "event_part (fold (add_sensor fb hc i) infos p) = event_part p" for fb hc i infos and p :: "'a HalProxy"
    by (induction infos arbitrary: p) (simp_all add: keep)
  then have "event_part (fold (add_list (env_api e) (env_flags e) (env_consts e)) js p) = event_part p" for js and p :: "'a HalProxy"
    by (induction js arbitrary: p) (simp_all add: add_list_alt)
  then have "event_part (born e hs s0 r0) = ([], 0, 0, [], 0, [])"
    by (simp add: born_def initializeSensorList_alt) (simp add: HalProxy_members_def event_part_def lock_part_def)
  moreover have "typed (env_flags e) (born e hs s0 r0)"
    unfolding born_def by (rule new_typed [OF mask assms(2)])
  ultimately show ?thesis
    using assms(1) by (simp add: tables_inv_def events_inv_def wakelock_inv_def event_part_def typed_def
        pending_def queue_inv_def seen_def lock_inv_def lock_part_def)
qed

text \<open>
  C7: One life, all promises: whatever happens to a proxy from its construction on, requests, modes,
  dynamic sensors, posts of events of any sensors (under a locked wakelock only with wakeup events, as the callback
  asserts), both threads, references and any number of initialisations in
  any order, what the framework was given and what waits is a subsequence of what was posted, counted and bounded;
  the list of sensors stays as it was built but for blank entries under handles that were posted without being
  listed; the wakelock is held exactly while references are counted; and a request for any sensor the
  proxy was built with, or a dynamic one, goes to the sub-HAL it belongs to.
\<close>

theorem proxy_life_sound:
  fixes e :: "'h proxy_env" and hs :: "'h list" and xs :: "proxy_act list"
  assumes "env_ok e" and "length hs \<le> 128" and "admissible (life_step e) (life_allows e) xs (born e hs s0 r0, [])"
  defines "p \<equiv> fst (fold (life_step e) xs (born e hs s0 r0, []))"
    and "posted \<equiv> snd (fold (life_step e) xs (born e hs s0 r0, []))"
    and "ss \<equiv> pSensors (born e hs s0 r0)"
  shows "subseq (delivered (proxy_effects p) @ pending p) posted
    \<and> mSizePendingWriteEventsQueue p = length (pending p)
    \<and> mSizePendingWriteEventsQueue p \<le> kMaxSizePendingWriteEventsQueue (env_consts e)
    \<and> (RBT.lookup (pSensors p) k = RBT.lookup ss k
        \<or> RBT.lookup ss k = None \<and> RBT.lookup (pSensors p) k = Some (env_info e) \<and> k \<in> handles posted)
    \<and> wakes False (wake_log (proxy_effects p)) = Some (0 < mWakelockRefCount p)
    \<and> (RBT.lookup ss k = Some info \<or> RBT.lookup (mDynamicSensors p) k = Some info \<longrightarrow>
        HalProxy_activate (env_api e) (env_consts e) (si_sensorHandle info) b p
          = call_sub_hal (subHalIndex (si_sensorHandle info))
              (api_activate (env_api e) (clearSubHalIndex first_byte (si_sensorHandle info)) b) p)"
proof -
  have inv: "tables_inv e ss (p, posted)" "events_inv e (p, posted)" "wakelock_inv (p, posted)"
    using pa.both.run_keeps [OF born_inv [OF assms(1,2)] assms(3)] by (simp_all add: p_def posted_def ss_def)
  then have "grown (env_info e) (handles posted) ss (pSensors p)"
    by (simp add: tables_inv_def)
  moreover have "HalProxy_activate (env_api e) (env_consts e) (si_sensorHandle info) b p
      = call_sub_hal (subHalIndex (si_sensorHandle info))
          (api_activate (env_api e) (clearSubHalIndex first_byte (si_sensorHandle info)) b) p"
    if "RBT.lookup ss k = Some info \<or> RBT.lookup (mDynamicSensors p) k = Some info"
    by (rule typed_routes [OF _ _ that, where fb = "env_flags e"]) (use inv(1) in \<open>simp_all add: tables_inv_def env_ok_def\<close>)
  moreover have "queue_inv (env_consts e) p"
    using inv(2) by (simp add: events_inv_def)
  ultimately show ?thesis
    using events_subseq [OF inv(2)] inv(3) by (simp add: queue_inv_def wakelock_inv_def lock_inv_def grown_def)
qed

lemma initialize_runs: "mThreadsRun (snd (initializeCommon api fb hc si0 ok stop_now now created p))"
proof -
  have "mThreadsRun (snd (initialize_sub_hals api i n r p)) = mThreadsRun p" for i n r and p :: "'a HalProxy"
    by (induction n arbitrary: i p) (simp_all add: call_sub_hal_def case_prod_beta Let_def)
  then show ?thesis
    by (simp add: initializeCommon_def Let_def)
qed

definition sample_env :: "probe proxy_env" where
  "sample_env = \<lparr>env_api = probe_api, env_flags = platform_flags, env_consts = sample_consts, env_info = sample_info 0 0,
     env_conv = \<lparr>convertToOldEvent = id, convertToNewEvent = id\<rparr>\<rparr>"

definition sample_life :: "proxy_act list" where
  "sample_life = [Initializes True 0 0 True, Posts [sample_event 9] 1 True 5 1 True]"

lemma sample_env_ok: "env_ok sample_env"
  by (simp add: env_ok_def sample_env_def sample_mask) (simp add: sample_consts_def)

lemma sample_born: "born sample_env [sample_probe 0 False] 0 0 = (HalProxy_members [sample_probe 0 False] 0 0)
    \<lparr>pSensors := RBT.insert 7 (sample_info 7 0) RBT.empty\<rparr>"
proof -
  have "setSubHalIndex 7 0 = (7 :: s32)"
    by (simp add: setSubHalIndex_def)
  then show ?thesis
    using local_7
    by (simp add: born_def sample_env_def initializeSensorList_def HalProxy_members_def probe_api_def sample_probe_def
        add_sensor_def setDirectChannelFlags_def standardize_pickup_def sample_info_def blank_sensor_def sample_consts_def Let_def)
qed

text \<open>The event is of a sensor that is not in the list.\<close>

theorem proxy_life_sound_witness:
  "let b = born sample_env [sample_probe 0 False] 0 0; p = fst (fold (life_step sample_env) sample_life (b, []))
   in delivered (proxy_effects p) = [sample_event 9] \<and> mWakelockRefCount p = 1
    \<and> wakes False (wake_log (proxy_effects p)) = Some True
    \<and> RBT.lookup (pSensors b) 9 = None \<and> RBT.lookup (pSensors p) 9 \<in> {None, Some (sample_info 0 0)}"
proof -
  let ?b = "born sample_env [sample_probe 0 False] 0 0"
  let ?q = "proxy_step sample_env (Initializes True 0 0 True) ?b" and ?s = "fold (life_step sample_env) sample_life (?b, [])"
  have b: "mThreadsRun ?b = False" "mWakelockRefCount ?b = 0" "proxy_effects ?b = []" "mPendingWritesThread ?b = WriterGone"
      "mWakelockThread ?b = WakerGone" "RBT.lookup (pSensors ?b) 9 = None" "mPendingWriteEventsQueue ?b = []"
    unfolding sample_born by (simp_all add: HalProxy_members_def)
  have e: "event_part ?q = ([], 0, mMostEventsObservedPendingWriteEventsQueue ?b, [], 0, [])"
    using b by (simp add: event_part_initialize stopThreads_def lock_part_def Let_def)
  have q: "mThreadsRun ?q" "mWakelockRefCount ?q = 0" "handled (proxy_effects ?q) = []" "wake_log (proxy_effects ?q) = []"
      "mPendingWriteEventsQueue ?q = []"
    using e by (simp_all add: initialize_runs event_part_def lock_part_def)
  then have d: "delivered (proxy_effects ?q) = []"
    using delivered_subseq_handled [of "proxy_effects ?q"] by simp
  have "admissible (life_step sample_env) (life_allows sample_env) sample_life (?b, [])"
    using q by (simp add: sample_life_def life_allows_def life_step_def sample_env_def
        sample_consts_def del: proxy_step.simps)
  note sound = proxy_life_sound [OF sample_env_ok _ this, of 9]
  have "delivered (proxy_effects (fst ?s)) = [sample_event 9]" "mWakelockRefCount (fst ?s) = 1"
    using q d by (simp_all add: sample_life_def life_step_def postEventsToMessageQueue_def
        incrementRefCountAndMaybeAcquireWakelock_def size_add_def delivered_def Let_def del: proxy_step.simps(16))
  moreover have "env_info sample_env = sample_info 0 0"
    by (simp add: sample_env_def)
  ultimately show ?thesis
    using sound b(6) by (auto simp: Let_def)
qed

section \<open>Dynamic sensors are not in the list\<close>

lemma count_keeps: "RBT.lookup (pSensors p) k = Some v
    \<Longrightarrow> RBT.lookup (pSensors (snd (count_wakeups fb si0 evs n p))) k = Some v"
proof (induction evs arbitrary: n p)
  case (Cons x xs)
  obtain m where m: "count_wakeups fb si0 (x # xs) n p = count_wakeups fb si0 xs m (looks_up si0 x p)"
    using count_Cons by blast
  show ?case
    unfolding m by (rule Cons.IH) (simp add: looks_up_lookup Cons.prems)
qed simp

lemma count_inserts: "ev \<in> set evs \<Longrightarrow> RBT.lookup (pSensors p) (sint (ev_sensorHandle ev)) = None
    \<Longrightarrow> RBT.lookup (pSensors (snd (count_wakeups fb si0 evs n p))) (sint (ev_sensorHandle ev)) = Some si0"
proof (induction evs arbitrary: n p)
  case (Cons x xs)
  obtain m where m: "count_wakeups fb si0 (x # xs) n p = count_wakeups fb si0 xs m (looks_up si0 x p)"
    using count_Cons by blast
  show ?case
  proof (cases "sint (ev_sensorHandle ev) = sint (ev_sensorHandle x)")
    case True
    then show ?thesis
      unfolding m using Cons.prems(2) by (intro count_keeps) (simp add: looks_up_lookup)
  next
    case False
    then show ?thesis
      unfolding m using Cons.prems by (intro Cons.IH) (auto simp: looks_up_lookup)
  qed
qed simp

text \<open>
  C15: Counting invents sensors. When part of a
  batch is lost, the writer looks the handles of its events up with \<open>operator[]\<close>; for one that is not in the list,
  as that of any dynamic sensor, a blank description is inserted, and from then on the framework is given it
  in the list of sensors.
\<close>

theorem lost_event_invents_sensor:
  assumes "mPendingWritesThread p = WriterWrites q" and "mPendingWriteEventsQueue p = (evs, nw) # rest"
    and "0 < nw" and "q < length evs" and "ev \<in> set (take q evs)"
    and "RBT.lookup (pSensors p) (sint (ev_sensorHandle ev)) = None"
  shows "RBT.lookup (pSensors (handlePendingWrites fb si0 quantum False p)) (sint (ev_sensorHandle ev)) = Some si0
    \<and> si0 \<in> set (getSensorsList_2_1 (handlePendingWrites fb si0 quantum False p))"
proof -
  have "RBT.lookup (pSensors (handlePendingWrites fb si0 quantum False p)) (sint (ev_sensorHandle ev)) = Some si0"
    using assms count_inserts [OF assms(5), of "pemit (EventsLost (take q evs)) p" fb si0 0]
    by (simp add: handlePendingWrites_def writer_finishes_def countNumWakeupEvents_def min_absorb2
        decrementRefCountAndMaybeReleaseWakelock_def Let_def)
  then show ?thesis
    using map_of_SomeD [of "RBT.entries (pSensors (handlePendingWrites fb si0 quantum False p))"]
    by (force simp: getSensorsList_2_1_def RBT.map_of_entries)
qed

theorem lost_event_invents_sensor_witness:
  "sample_info 0 0 \<in> set (getSensorsList_2_1 (handlePendingWrites platform_flags (sample_info 0 0) 1 False
     (torn_proxy\<lparr>pSensors := RBT.empty\<rparr>)))"
  by (rule conjunct2 [OF lost_event_invents_sensor [where ev = "sample_event 7" and q = 1 and nw = 2
      and evs = "[sample_event 7, sample_event 7]" and rest = "[]"]]) (simp_all add: torn_proxy_def)

end
