(* ===== verification/Hal_Callback.thy ===== *)
theory Hal_Callback
  imports Hal_Wakelock_Props
begin

text \<open>
  The callback a sub-HAL posts events through (\<open>sensors/HalProxyCallback.cpp\<close>): it tags the events with
  the index of the sub-HAL, drops what the pick-up sensor must not report, counts the wakeup events
  and passes the batch to the proxy. \<open>getSensorInfo\<close> is the proxy's lookup, declared in a platform
  header and an argument here; so is what reading \<open>scalar\<close> yields when other members were written.
\<close>

section \<open>Processing\<close>

text \<open>The callback has its own copy of the handle arithmetic of the proxy.\<close>

definition V2_0_kBitsAfterSubHalIndex :: nat where
  "V2_0_kBitsAfterSubHalIndex = 24"

definition V2_0_setSubHalIndex :: "s32 \<Rightarrow> nat \<Rightarrow> s32" where
  "V2_0_setSubHalIndex sensorHandle i =
     or sensorHandle (push_bit V2_0_kBitsAfterSubHalIndex (word_of_nat i))"

lemma same_setSubHalIndex [simp]: "V2_0_setSubHalIndex = setSubHalIndex"
  by (simp add: fun_eq_iff V2_0_setSubHalIndex_def V2_0_kBitsAfterSubHalIndex_def setSubHalIndex_def kBitsAfterSubHalIndex_def)

fun u_scalar :: "(event_payload \<Rightarrow> real) \<Rightarrow> event_payload \<Rightarrow> real" where
  "u_scalar pun (Data (x # xs)) = x"
| "u_scalar pun (Vec3 x y z) = x"
| "u_scalar pun u = pun u"

fun processEvents ::
  "flag_bits \<Rightarrow> (event_payload \<Rightarrow> real) \<Rightarrow> (s32 \<Rightarrow> SensorInfo) \<Rightarrow> nat \<Rightarrow> Event list \<Rightarrow> nat \<times> Event list" where
  "processEvents fb pun getSensorInfo mSubHalIndex [] = (0, [])"
| "processEvents fb pun getSensorInfo mSubHalIndex (ev # evs) =
     (let ev = ev\<lparr>ev_sensorHandle := V2_0_setSubHalIndex (ev_sensorHandle ev) mSubHalIndex\<rparr>;
          sensor = getSensorInfo (ev_sensorHandle ev);
          r = processEvents fb pun getSensorInfo mSubHalIndex evs
      in if si_type sensor = PICK_UP_GESTURE \<and> u_scalar pun (ev_u ev) \<noteq> 1 then r
         else ((if and (si_flags sensor) (WAKE_UP fb) \<noteq> 0 then fst r + 1 else fst r), ev # snd r))"

text \<open>The constructor of the platform's wakelock over the reference counter is an argument.\<close>

definition createScopedWakelock :: "(bool \<Rightarrow> 'h HalProxy \<Rightarrow> 'w \<times> 'h HalProxy) \<Rightarrow> bool \<Rightarrow> 'h HalProxy \<Rightarrow> 'w \<times> 'h HalProxy" where
  "createScopedWakelock ScopedWakelock lock p = ScopedWakelock lock p"

text \<open>
  \<open>locked\<close> is \<open>isLocked()\<close> of the wakelock that comes with the events. \<open>asserts\<close> says whether the build keeps \<open>ALOG_ASSERT\<close>.
\<close>

definition HalProxyCallback_postEvents ::
  "bool \<Rightarrow> hal_consts \<Rightarrow> flag_bits \<Rightarrow> (event_payload \<Rightarrow> real) \<Rightarrow> (s32 \<Rightarrow> SensorInfo) \<Rightarrow> nat
   \<Rightarrow> Event list \<Rightarrow> bool \<Rightarrow> int \<Rightarrow> nat \<Rightarrow> bool \<Rightarrow> 'h HalProxy \<Rightarrow> 'h HalProxy outcome" where
  "HalProxyCallback_postEvents asserts hc fb pun getSensorInfo mSubHalIndex events locked now avail write_ok p =
     (if events = [] \<or> \<not> mThreadsRun p then Returns p
      else let r = processEvents fb pun getSensorInfo mSubHalIndex events; numWakeupEvents = fst r
           in if asserts \<and> (if 0 < numWakeupEvents then \<not> locked else locked) then Aborts
              else Returns (postEventsToMessageQueue hc (snd r) numWakeupEvents locked now avail write_ok p))"

section \<open>What passes\<close>

definition tag_event :: "nat \<Rightarrow> Event \<Rightarrow> Event" where
  "tag_event i ev = ev\<lparr>ev_sensorHandle := setSubHalIndex (ev_sensorHandle ev) i\<rparr>"

definition passes :: "(event_payload \<Rightarrow> real) \<Rightarrow> (s32 \<Rightarrow> SensorInfo) \<Rightarrow> nat \<Rightarrow> Event \<Rightarrow> bool" where
  "passes pun info i ev \<longleftrightarrow>
     \<not> (si_type (info (setSubHalIndex (ev_sensorHandle ev) i)) = PICK_UP_GESTURE \<and> u_scalar pun (ev_u ev) \<noteq> 1)"

definition wakes_up :: "flag_bits \<Rightarrow> (s32 \<Rightarrow> SensorInfo) \<Rightarrow> nat \<Rightarrow> Event \<Rightarrow> bool" where
  "wakes_up fb info i ev \<longleftrightarrow> and (si_flags (info (setSubHalIndex (ev_sensorHandle ev) i))) (WAKE_UP fb) \<noteq> 0"

lemma processEvents_result:
  "processEvents fb pun info i evs =
     (length (filter (\<lambda>ev. passes pun info i ev \<and> wakes_up fb info i ev) evs),
      map (tag_event i) (filter (passes pun info i) evs))"
  by (induction evs) (auto simp: tag_event_def passes_def wakes_up_def Let_def)

text \<open>
  A sub-HAL's batch reaches the proxy's queue tagged, filtered and in order: while the threads run
  and there is room, what the proxy has handled or keeps grows by exactly the batch's events that are
  not a pick-up gesture with a value other than 1, under handles that route back to this sub-HAL's
  own ones.
\<close>

theorem callback_posts_batch:
  assumes "queue_inv hc p" and "mThreadsRun p" and "i < 128"
    and "length events + kMaxSizePendingWriteEventsQueue hc < 2 ^ 64"
    and "mSizePendingWriteEventsQueue p + length events \<le> kMaxSizePendingWriteEventsQueue hc"
    and "\<forall>ev \<in> set events. local_handle (ev_sensorHandle ev)"
  shows "\<exists>p'. HalProxyCallback_postEvents False hc fb pun info i events locked now avail write_ok p = Returns p'
    \<and> seen p' = seen p @ map (tag_event i) (filter (passes pun info i) events)
    \<and> (\<forall>ev \<in> set events. subHalIndex (ev_sensorHandle (tag_event i ev)) = i
         \<and> clearSubHalIndex first_byte (ev_sensorHandle (tag_event i ev)) = ev_sensorHandle ev)"
proof -
  let ?out = "map (tag_event i) (filter (passes pun info i) events)"
  let ?n = "length (filter (\<lambda>ev. passes pun info i ev \<and> wakes_up fb info i ev) events)"
  have "length ?out \<le> length events"
    by simp
  then have fits: "length ?out + kMaxSizePendingWriteEventsQueue hc < 2 ^ 64"
      "mSizePendingWriteEventsQueue p + length ?out \<le> kMaxSizePendingWriteEventsQueue hc"
    using assms(4,5) by linarith+
  have "seen (postEventsToMessageQueue hc ?out ?n locked now avail write_ok p) = seen p @ ?out"
    using post_events [OF assms(1) fits(1), of ?n locked now avail write_ok] fits(2) by blast
  moreover have "subHalIndex (ev_sensorHandle (tag_event i ev)) = i
      \<and> clearSubHalIndex first_byte (ev_sensorHandle (tag_event i ev)) = ev_sensorHandle ev"
    if "ev \<in> set events" for ev
    using that assms(3,6) hc.idx_put hc.strip_put by (simp add: tag_event_def)
  ultimately show ?thesis
    using assms(2) by (auto simp: HalProxyCallback_postEvents_def processEvents_result Let_def)
qed

definition pickup_info :: "s32 \<Rightarrow> SensorInfo" where
  "pickup_info h = (sample_info h 1)\<lparr>si_type := PICK_UP_GESTURE\<rparr>"

theorem callback_posts_batch_witness:
  "\<exists>p'. HalProxyCallback_postEvents False sample_consts platform_flags (\<lambda>_. 0) pickup_info 3
      [sample_event 7, (sample_event 7)\<lparr>ev_u := Data [1]\<rparr>] True 5 4 True running_proxy = Returns p'
   \<and> seen p' = [tag_event 3 ((sample_event 7)\<lparr>ev_u := Data [1]\<rparr>)]"
proof -
  have "queue_inv sample_consts running_proxy" "seen running_proxy = []"
    by (simp_all add: queue_inv_def pending_def seen_def running_proxy_def HalProxy_members_def)
  moreover have "filter (passes (\<lambda>_. 0) pickup_info 3) [sample_event 7, (sample_event 7)\<lparr>ev_u := Data [1]\<rparr>]
      = [(sample_event 7)\<lparr>ev_u := Data [1]\<rparr>]"
    by (simp add: passes_def pickup_info_def sample_event_def)
  moreover have "mThreadsRun running_proxy" "mSizePendingWriteEventsQueue running_proxy = 0"
      "kMaxSizePendingWriteEventsQueue sample_consts = 3" "ev_sensorHandle (sample_event 7) = 7"
    by (simp_all add: running_proxy_def HalProxy_members_def sample_consts_def sample_event_def)
  ultimately show ?thesis
    using callback_posts_batch [of sample_consts running_proxy 3
        "[sample_event 7, (sample_event 7)\<lparr>ev_u := Data [1]\<rparr>]" platform_flags "\<lambda>_. 0" pickup_info True 5 4 True]
      local_7
    by auto
qed

text \<open>
  The pick-up filter breaks the contract it sits under: events of a wakeup pick-up sensor must be
  posted with the wakelock locked, as any batch that wakes the framework; when none of their values is
  1 a build that keeps the assertions aborts, because the filter has dropped every event before the
  wakeup events are counted, while the same batch without the lock passes. A build without assertions
  posts an empty batch under a locked wakelock.
\<close>

theorem pickup_filter_breaks_contract:
  assumes "events \<noteq> []" and "\<forall>ev \<in> set events. wakes_up fb info i ev \<and> \<not> passes pun info i ev" and "mThreadsRun p"
  shows "HalProxyCallback_postEvents True hc fb pun info i events True now avail write_ok p = Aborts
    \<and> HalProxyCallback_postEvents True hc fb pun info i events False now avail write_ok p
        = Returns (postEventsToMessageQueue hc [] 0 False now avail write_ok p)
    \<and> HalProxyCallback_postEvents False hc fb pun info i events True now avail write_ok p
        = Returns (postEventsToMessageQueue hc [] 0 True now avail write_ok p)"
proof -
  have "processEvents fb pun info i events = (0, [])"
    using assms(2) by (auto simp: processEvents_result filter_empty_conv)
  then show ?thesis
    using assms(1,3) by (simp add: HalProxyCallback_postEvents_def)
qed

definition wakeup_pickup_info :: "s32 \<Rightarrow> SensorInfo" where
  "wakeup_pickup_info h = (pickup_info h)\<lparr>si_flags := 1\<rparr>"

theorem pickup_filter_breaks_contract_witness:
  "HalProxyCallback_postEvents True sample_consts platform_flags (\<lambda>_. 0) wakeup_pickup_info 3 [sample_event 7] True 5 4 True
     running_proxy = Aborts"
  using pickup_filter_breaks_contract [of "[sample_event 7]" platform_flags wakeup_pickup_info 3 "\<lambda>_. 0" running_proxy]
  by (simp add: passes_def wakes_up_def wakeup_pickup_info_def pickup_info_def sample_event_def running_proxy_def
      HalProxy_members_def platform_flags_def)

section \<open>The device's sensors keep the contract\<close>

text \<open>
  The sensors of this device keep the wakelock contract through every layer: a batch any section of
  a sensor's thread posts reaches the sub-HAL's callback with a wakelock locked exactly when the batch
  wakes the framework, so no assertion fails, provided the proxy's record of the sensor has the
  sensor's wakeup flag and is not a pick-up gesture.
\<close>

theorem device_posts_keep_contract:
  assumes "sensor_resume fb e s = Returns (s', posts)" and "(evs, w) \<in> set posts" and "shCallback h"
    and "si_type (info (setSubHalIndex (si_sensorHandle (mSensorInfo s)) i)) \<noteq> PICK_UP_GESTURE"
    and "and (si_flags (info (setSubHalIndex (si_sensorHandle (mSensorInfo s)) i))) (WAKE_UP fb)
       = and (si_flags (mSensorInfo s)) (WAKE_UP fb)"
  shows "\<exists>evs' locked p'. SensorsSubHal_postEvents (evs, w) h = Returns (evs', locked)
    \<and> HalProxyCallback_postEvents True hc fb pun info i evs' locked now avail write_ok p = Returns p'"
proof -
  obtain ev where ev: "evs = [ev]" "ev_sensorHandle ev = si_sensorHandle (mSensorInfo s)"
      and w: "w = isWakeUpSensor fb s"
    using section_post [OF assms(1,2)] by blast
  have "fst (processEvents fb pun info i evs) = (if w then 1 else 0)"
    using assms(4,5) ev w by (simp add: isWakeUpSensor_def Let_def)
  then show ?thesis
    using assms(3) by (auto simp: SensorsSubHal_postEvents_def HalProxyCallback_postEvents_def Let_def)
qed

theorem device_posts_keep_contract_witness:
  "\<exists>s' evs w evs' locked p'.
     sensor_resume platform_flags touch_env
       ((blank_sensor SingleTap)\<lparr>mKind := SingleTap, mIsEnabled := True, mRunThread := InPoll\<rparr>) = Returns (s', [(evs, w)])
     \<and> SensorsSubHal_postEvents (evs, w)
         \<lparr>shSensors = RBT.empty, shCallback = True, shCurrentOperationMode = NORMAL, mNextHandle = 3\<rparr>
         = Returns (evs', locked)
     \<and> HalProxyCallback_postEvents True sample_consts platform_flags (\<lambda>_. 0) (\<lambda>h. sample_info h 0) 0 evs' locked 0 4 True
         running_proxy = Returns p'"
proof -
  let ?s = "(blank_sensor SingleTap)\<lparr>mKind := SingleTap, mIsEnabled := True, mRunThread := InPoll\<rparr>"
  let ?h = "\<lparr>shSensors = RBT.empty, shCallback = True, shCurrentOperationMode = NORMAL, mNextHandle = 3\<rparr>"
  obtain s' evs w where r: "sensor_resume platform_flags touch_env ?s = Returns (s', [(evs, w)])"
    by (simp add: sensor_resume_def after_poll_polls read_trigger_def readBool_def touch_env_def blank_sensor_def
        sensor_readEvents_def SingleTapSensor_readEvents_def fillEventData_def readCoordinates_def sensor_event_def Let_def)
  have "si_type (sample_info k 0) \<noteq> PICK_UP_GESTURE" "si_flags (sample_info k 0) = 0" "si_flags (mSensorInfo ?s) = 0" for k
    by (simp_all add: sample_info_def blank_sensor_def)
  then show ?thesis
    using r device_posts_keep_contract [OF r, of evs w ?h "\<lambda>h. sample_info h 0" 0 sample_consts "\<lambda>_. 0" 0 4 True running_proxy]
    by fastforce
qed

end
