(* ===== verification/Device_Stack.thy ===== *)
theory Device_Stack
  imports Hal_Callback Hal_Typing
begin

text \<open>
  The device's sensors put together: the proxy of \<open>sensors/HalProxy.cpp\<close> over the sub-HAL of
  \<open>sensors/SensorsSubHal.cpp\<close>, loaded by the device's configuration \<open>configs/hals.conf\<close>.
\<close>

section \<open>The sub-HAL as a library\<close>

text \<open>
  The sub-HAL behind the proxy's interface. Its state is the object and, in order, the batches it has
  handed to its event callback.
\<close>

definition device_api :: "flag_bits \<Rightarrow> Event \<Rightarrow> (SensorsSubHal \<times> post list) sub_hal_api" where
  "device_api fb ev0 =
     \<lparr>api_setOperationMode = (\<lambda>m d. case SensorsSubHal_setOperationMode m (fst d) of (r, h) \<Rightarrow> (r, (h, snd d))),
      api_activate = (\<lambda>l b d. case SensorsSubHal_activate l b (fst d) of (r, h) \<Rightarrow> (r, (h, snd d))),
      api_batch = (\<lambda>l s m d. case SensorsSubHal_batch l s m (fst d) of (r, h) \<Rightarrow> (r, (h, snd d))),
      api_flush = (\<lambda>l d. case SensorsSubHal_flush fb ev0 l (fst d) of (r, posts) \<Rightarrow> (r, (fst d, snd d @ posts))),
      api_injectSensorData =
        (\<lambda>ev d. case SensorsSubHal_injectSensorData fb ev (fst d) of (r, posts) \<Rightarrow> (r, (fst d, snd d @ posts))),
      api_getSensorsList = (\<lambda>d. Some (SensorsSubHal_getSensorsList (fst d))),
      api_initialize = (\<lambda>i d. case SensorsSubHal_initialize (fst d) of (r, h) \<Rightarrow> (r, (h, snd d))),
      api_registerDirectChannel = (\<lambda>d. (SensorsSubHal_registerDirectChannel (fst d), d)),
      api_unregisterDirectChannel = (\<lambda>ch d. (SensorsSubHal_unregisterDirectChannel ch (fst d), d)),
      api_configDirectReport = (\<lambda>l ch rate d. (SensorsSubHal_configDirectReport l ch (fst d), d))\<rparr>"

text \<open>The library's entry point: the version, and the one sub-HAL of the process.\<close>

definition device_sensorsHalGetSubHal_2_1 :: "('l, 'h) linker \<Rightarrow> 'h \<Rightarrow> u32 \<times> 'h" where
  "device_sensorsHalGetSubHal_2_1 lnk subHal = (SUB_HAL_2_1_VERSION lnk, subHal)"

text \<open>
  What a proxy relies on when one of its sub-HALs, of whatever type, is this one: \<open>emb\<close> places it among
  them, and the interface's calls are its operations.
\<close>

locale device_sub_hal =
  fixes api :: "'h sub_hal_api" and emb :: "SensorsSubHal \<times> post list \<Rightarrow> 'h"
  assumes activates: "api_activate api l b (emb (h, out))
      = (fst (SensorsSubHal_activate l b h), emb (snd (SensorsSubHal_activate l b h), out))"
    and sets_mode: "api_setOperationMode api m (emb (h, out))
      = (fst (SensorsSubHal_setOperationMode m h), emb (snd (SensorsSubHal_setOperationMode m h), out))"
    and lists: "api_getSensorsList api (emb (h, out)) = Some (SensorsSubHal_getSensorsList h)"
begin

lemma announced: "announced_list api (emb (h, out)) = SensorsSubHal_getSensorsList h"
  by (simp add: announced_list_def lists)

text \<open>A request the proxy forwards is the sub-HAL's own.\<close>

lemma forwarded:
  assumes "platform_mask hc" and "mSubHalList p ! i = emb (h, out)" and "i < length (mSubHalList p)" and "i < 128"
    and "local_handle l"
  shows "HalProxy_activate api hc (setSubHalIndex l i) b p
    = (fst (SensorsSubHal_activate l b h), p\<lparr>mSubHalList := (mSubHalList p)[i := emb (snd (SensorsSubHal_activate l b h), out)]\<rparr>)"
  using assms by (simp add: HalProxy_activate_def forward_put call_sub_hal_def activates)

end

interpretation dv: device_sub_hal "device_api fb ev0" "\<lambda>d. d" for fb ev0
  by unfold_locales (simp_all add: device_api_def case_prod_beta)

section \<open>Its sensors\<close>

lemma entries_two: "RBT.entries (RBT.insert 2 b (RBT.insert (1 :: int) a RBT.empty)) = [(1, a), (2, b)]"
  by (simp add: RBT.entries_def RBT.insert.rep_eq RBT.empty.rep_eq rbt_insert_def rbt_insert_with_key_def)

definition udfps_of :: "flag_bits \<Rightarrow> bool \<times> bool \<times> Sensor \<Rightarrow> Sensor" where
  "udfps_of fb u = UdfpsSensor_new fb 1 (fst u) (fst (snd u)) (snd (snd u))"

definition tap_of :: "flag_bits \<Rightarrow> bool \<times> bool \<times> Sensor \<Rightarrow> Sensor" where
  "tap_of fb t = SingleTapSensor_new fb 2 (fst t) (fst (snd t)) (snd (snd t))"

lemma device_infos [simp]:
  "si_sensorHandle (mSensorInfo (udfps_of fb u)) = 1" "si_sensorHandle (mSensorInfo (tap_of fb t)) = 2"
  "si_type (mSensorInfo (udfps_of fb u)) = DEVICE_PRIVATE 1" "si_type (mSensorInfo (tap_of fb t)) = DEVICE_PRIVATE 2"
  "si_typeAsString (mSensorInfo (udfps_of fb u)) = ''org.lineageos.sensor.udfps''"
  "si_typeAsString (mSensorInfo (tap_of fb t)) = ''org.lineageos.sensor.single_touch''"
  "si_flags (mSensorInfo (udfps_of fb u)) = or (ONE_SHOT_MODE fb) (WAKE_UP fb)"
  "si_flags (mSensorInfo (tap_of fb t)) = or (ONE_SHOT_MODE fb) (WAKE_UP fb)"
  by (simp_all add: udfps_of_def tap_of_def sensor_new_defs Let_def)

lemma device_list: "SensorsSubHal_getSensorsList (SensorsSubHal_new fb u t) = [mSensorInfo (udfps_of fb u), mSensorInfo (tap_of fb t)]"
proof -
  have "shSensors (SensorsSubHal_new fb u t) = RBT.insert 2 (tap_of fb t) (RBT.insert 1 (udfps_of fb u) RBT.empty)"
    by (simp add: SensorsSubHal_new_def AddSensor_def udfps_of_def [symmetric] tap_of_def [symmetric] Let_def)
  then show ?thesis
    by (simp add: SensorsSubHal_getSensorsList_def entries_two)
qed

lemma local_1_2: "local_handle 1" "local_handle 2"
  by (simp_all add: subHalIndexIsClear_def first_byte_def)

section \<open>Loading\<close>

definition hals_conf :: string where
  "hals_conf = ''sensors.ssc.so'' @ [newline] @ ''sensors.nothing.so'' @ [newline]"

lemma hals_conf_words: "file_words hals_conf = [''sensors.ssc.so'', ''sensors.nothing.so'']"
  by (simp add: file_words_def hals_conf_def c_space_def)

lemma load_at_most_one: "length (load_sub_hal lnk file) \<le> 1"
  by (simp add: load_sub_hal_def split: option.split prod.split)

text \<open>The library is loaded when the linker finds it and its only entry point is that of version 2.1.\<close>

lemma device_loads:
  assumes "getHandleForSubHalSharedObject lnk file = Some l" and "sensorsHalGetSubHal lnk l = None"
    and "sensorsHalGetSubHal_2_1 lnk l = Some (device_sensorsHalGetSubHal_2_1 lnk h)"
  shows "load_sub_hal lnk file = [h]"
  using assms by (simp add: load_sub_hal_def device_sensorsHalGetSubHal_2_1_def)

lemma flags_kept:
  assumes "flags_ok fb"
  shows "and (si_flags (fst (setDirectChannelFlags fb i (info, p)))) (WAKE_UP fb) = and (si_flags info) (WAKE_UP fb)"
proof -
  have w: "and (WAKE_UP fb) (or (MASK_DIRECT_REPORT fb) (MASK_DIRECT_CHANNEL fb)) = 0"
    using assms by (simp add: flags_ok_def bit.conj_disj_distrib)
  have kept: "and (and f (not d)) (WAKE_UP fb) = and f (WAKE_UP fb)" if "and (WAKE_UP fb) d = 0" for f d :: u32
  proof (rule bit_word_eqI)
    fix n
    have "\<not> bit (and (WAKE_UP fb) d) n"
      using that by simp
    then show "bit (and (and f (not d)) (WAKE_UP fb)) n = bit (and f (WAKE_UP fb)) n" if "n < LENGTH(32)"
      using that by (auto simp: bit_and_iff bit_not_iff)
  qed
  then show ?thesis
    using kept [OF w] by (simp add: setDirectChannelFlags_def Let_def del: bit.de_Morgan_disj)
qed

lemma type_kept [simp]:
  "si_type (fst (setDirectChannelFlags fb i (info, p))) = si_type info"
  "si_typeAsString (fst (setDirectChannelFlags fb i (info, p))) = si_typeAsString info"
  by (simp_all add: setDirectChannelFlags_def Let_def)

lemma add_sensor_entry:
  assumes "platform_mask hc" and "flags_ok fb" and "local_handle (si_sensorHandle info)"
    and "si_typeAsString info \<noteq> ''android.sensor.wrist_tilt_gesture''"
  shows "\<exists>x. RBT.lookup (pSensors (add_sensor fb hc i info p)) (sint (setSubHalIndex (si_sensorHandle info) i)) = Some x
    \<and> si_type x = si_type info \<and> and (si_flags x) (WAKE_UP fb) = and (si_flags info) (WAKE_UP fb)"
  using assms flags_kept [OF assms(2), of i "info\<lparr>si_sensorHandle := setSubHalIndex (si_sensorHandle info) i\<rparr>" p]
  by (simp add: add_sensor_def standardize_pickup_def platform_mask_def Let_def)

lemma add_sensor_others:
  assumes "platform_mask hc" and "k \<noteq> sint (setSubHalIndex (si_sensorHandle info) i)"
  shows "RBT.lookup (pSensors (add_sensor fb hc i info p)) k = RBT.lookup (pSensors p) k"
  using assms by (auto simp: add_sensor_def platform_mask_def Let_def)

lemma put_1_2: "i < 128 \<Longrightarrow> sint (setSubHalIndex 1 i) \<noteq> sint (setSubHalIndex 2 i)"
  using hc.put_inj [OF local_1_2, of i i] by (simp flip: word_eq_sint_iff)

lemma device_wakes:
  assumes "flags_ok fb"
  shows "and (or (ONE_SHOT_MODE fb) (WAKE_UP fb)) (WAKE_UP fb) \<noteq> 0"
  using assms by (auto simp: flags_ok_def bit.conj_disj_distrib2 bit_eq_iff bit_simps)

text \<open>The records of the two sensors, once they have been added to any list.\<close>

lemma device_entries:
  assumes "platform_mask hc" and "flags_ok fb" and "i < 128" and "k \<in> {1, 2}"
  shows "\<exists>x. RBT.lookup (pSensors (fold (add_sensor fb hc i) [mSensorInfo (udfps_of fb u), mSensorInfo (tap_of fb t)] q))
        (sint (setSubHalIndex k i)) = Some x \<and> si_type x = DEVICE_PRIVATE (if k = 1 then 1 else 2)
      \<and> and (si_flags x) (WAKE_UP fb) \<noteq> 0"
proof -
  let ?U = "mSensorInfo (udfps_of fb u)" and ?T = "mSensorInfo (tap_of fb t)"
  let ?q = "add_sensor fb hc i ?U q"
  have "RBT.lookup (pSensors (add_sensor fb hc i ?T ?q)) (sint (setSubHalIndex 1 i))
      = RBT.lookup (pSensors ?q) (sint (setSubHalIndex 1 i))"
    by (rule add_sensor_others [OF assms(1)]) (simp add: put_1_2 assms(3))
  then show ?thesis
    using assms(4) local_1_2 device_wakes [OF assms(2)] add_sensor_entry [OF assms(1,2), of ?U i q]
      add_sensor_entry [OF assms(1,2), of ?T i ?q]
    by auto
qed

text \<open>A proxy whose last sub-HAL is this one.\<close>

lemma device_listed:
  fixes api :: "'h sub_hal_api" and emb :: "SensorsSubHal \<times> post list \<Rightarrow> 'h" and fb :: flag_bits and hc :: hal_consts
    and u t :: "bool \<times> bool \<times> Sensor" and vs :: "'h list" and s0 r0 :: int
  assumes "platform_mask hc" and "flags_ok fb" and "device_sub_hal api emb" and "length vs < 128"
  defines "hs \<equiv> vs @ [emb (SensorsSubHal_new fb u t, [])]"
  defines "p \<equiv> initializeSensorList api fb hc (HalProxy_members hs s0 r0)"
  shows "mSubHalList p = hs"
    and "k \<in> {1, 2} \<Longrightarrow> \<exists>x. RBT.lookup (pSensors p) (sint (setSubHalIndex k (length vs))) = Some x
      \<and> si_type x = DEVICE_PRIVATE (if k = 1 then 1 else 2) \<and> and (si_flags x) (WAKE_UP fb) \<noteq> 0"
proof -
  let ?q = "fold (add_list api fb hc) [0..<length vs] (HalProxy_members hs s0 r0)"
  have q: "mSubHalList ?q = hs"
    by (simp add: conjunct2 [OF add_lists_keys [OF assms(1)]]) (simp add: HalProxy_members_def)
  have "announced_list api (hs ! length vs) = [mSensorInfo (udfps_of fb u), mSensorInfo (tap_of fb t)]"
    using device_sub_hal.announced [OF assms(3)] by (simp add: device_list hs_def)
  moreover have "p = add_list api fb hc (length vs) ?q"
    unfolding p_def initializeSensorList_alt by (simp add: HalProxy_members_def hs_def)
  ultimately have last: "p = fold (add_sensor fb hc (length vs)) [mSensorInfo (udfps_of fb u), mSensorInfo (tap_of fb t)] ?q"
    by (simp only: add_list_alt q)
  show "mSubHalList p = hs"
    using q by (simp add: last)
  show "\<exists>x. RBT.lookup (pSensors p) (sint (setSubHalIndex k (length vs))) = Some x
      \<and> si_type x = DEVICE_PRIVATE (if k = 1 then 1 else 2) \<and> and (si_flags x) (WAKE_UP fb) \<noteq> 0" if "k \<in> {1, 2}"
    unfolding last by (rule device_entries [OF assms(1,2,4) that])
qed

text \<open>
  C21: The device's sensor stack boots as configured: with the two libraries of \<open>hals.conf\<close>, of which the
  other may or may not load, the proxy ends up with this sub-HAL last and lists both its sensors, the
  UDFPS and the tap sensor, under handles 1 and 2 with the sub-HAL's index, as wakeup sensors of their
  private types; activating either reaches exactly that sensor, and no other handle of this sub-HAL is
  accepted.
\<close>

theorem device_stack_boots:
  fixes api :: "'h sub_hal_api" and emb :: "SensorsSubHal \<times> post list \<Rightarrow> 'h" and lnk :: "('l, 'h) linker"
    and fb :: flag_bits and hc :: hal_consts and u t :: "bool \<times> bool \<times> Sensor" and s0 r0 :: int
  assumes "platform_mask hc" and "flags_ok fb" and "device_sub_hal api emb"
    and "load_sub_hal lnk ''sensors.nothing.so'' = [emb (SensorsSubHal_new fb u t, [])]"
  defines "ssc \<equiv> load_sub_hal lnk ''sensors.ssc.so''"
  defines "p \<equiv> HalProxy_new api fb hc lnk (Some hals_conf) s0 r0"
  shows "mSubHalList p = ssc @ [emb (SensorsSubHal_new fb u t, [])] \<and> length ssc \<le> 1
    \<and> (\<forall>k \<in> {1, 2}. \<exists>x. RBT.lookup (pSensors p) (sint (setSubHalIndex k (length ssc))) = Some x
          \<and> si_type x = DEVICE_PRIVATE (if k = 1 then 1 else 2) \<and> and (si_flags x) (WAKE_UP fb) \<noteq> 0)
    \<and> (local_handle l \<longrightarrow> HalProxy_activate api hc (setSubHalIndex l (length ssc)) b p
          = (if l \<in> {1, 2} then OK else BAD_VALUE,
             p\<lparr>mSubHalList := ssc @ [emb (snd (SensorsSubHal_activate l b (SensorsSubHal_new fb u t)), [])]\<rparr>))"
proof -
  let ?h = "SensorsSubHal_new fb u t" and ?hs = "ssc @ [emb (SensorsSubHal_new fb u t, [])]"
  have one: "length ssc \<le> 1"
    unfolding ssc_def by (rule load_at_most_one)
  have p: "p = initializeSensorList api fb hc (HalProxy_members ?hs s0 r0)"
    by (simp add: p_def HalProxy_new_def HalProxy_init_def initializeSubHalListFromConfigFile_def hals_conf_words ssc_def
        assms(4) HalProxy_members_def)
  have small: "length ssc < 128"
    using one by simp
  note listed = device_listed [OF assms(1-3) small, where u = u and t = t and ?s0.0 = s0 and ?r0.0 = r0, folded p]
  have "HalProxy_activate api hc (setSubHalIndex l (length ssc)) b p
      = (if l \<in> {1, 2} then OK else BAD_VALUE,
         p\<lparr>mSubHalList := ssc @ [emb (snd (SensorsSubHal_activate l b ?h), [])]\<rparr>)" if "local_handle l"
    using device_sub_hal.forwarded [OF assms(3,1), of p "length ssc" ?h "[]" l b] listed(1) small that
      handles_new [of fb u t "sint l"]
    by (auto simp: SensorsSubHal_activate_def with_sensor_def word_eq_sint_iff split: option.split)
  then show ?thesis
    using listed one by auto
qed

text \<open>A linker that finds this library in the second of the searched directories, and no other.\<close>

definition device_linker :: "SensorsSubHal \<times> post list \<Rightarrow> (unit, SensorsSubHal \<times> post list) linker" where
  "device_linker d =
     \<lparr>dlopen = (\<lambda>path. if path = ''/vendor/lib64/hw/sensors.nothing.so'' then Some () else None),
      sensorsHalGetSubHal = (\<lambda>_. None), sensorsHalGetSubHal_2_1 = (\<lambda>_. Some (1, d)),
      SUB_HAL_2_0_VERSION = 0, SUB_HAL_2_1_VERSION = 1\<rparr>"

definition two_files :: "bool \<times> bool \<times> Sensor" where
  "two_files = (True, True, blank_sensor Udfps)"

theorem device_stack_boots_witness:
  "let d = (SensorsSubHal_new platform_flags two_files two_files, []) in
   fst (HalProxy_activate (device_api platform_flags (sample_event 0)) sample_consts (setSubHalIndex 2 0) True
     (HalProxy_new (device_api platform_flags (sample_event 0)) platform_flags sample_consts (device_linker d) (Some hals_conf) 0 0)) = OK"
proof -
  let ?d = "(SensorsSubHal_new platform_flags two_files two_files, [])"
  have no: "load_sub_hal (device_linker ?d) ''sensors.ssc.so'' = []"
    by (simp add: load_sub_hal_def getHandleForSubHalSharedObject_def kSubHalShareObjectLocations_def device_linker_def)
  have "load_sub_hal (device_linker ?d) ''sensors.nothing.so'' = [?d]"
    by (rule device_loads [of _ _ "()"])
      (simp_all add: getHandleForSubHalSharedObject_def kSubHalShareObjectLocations_def device_linker_def
        device_sensorsHalGetSubHal_2_1_def)
  from device_stack_boots [OF sample_mask platform_flags_ok dv.device_sub_hal_axioms this, where l = 2 and b = True] show ?thesis
    using local_1_2 no by (simp add: Let_def)
qed

end
