(* ===== verification/Sub_Hal_Life.thy ===== *)
theory Sub_Hal_Life
  imports Sub_Hal
begin

text \<open>
  Every life of the device's sub-HAL (\<open>sensors/SensorsSubHal.cpp\<close> over \<open>sensors/Sensor.cpp\<close>): requests of the
  framework and sections of the sensors' threads in any order, and what the requests answer in all of
  them.
\<close>

section \<open>Lives\<close>

definition sensor_section ::
  "flag_bits \<Rightarrow> run_env \<Rightarrow> s32 \<Rightarrow> SensorsSubHal \<Rightarrow> (SensorsSubHal \<times> post list) outcome" where
  "sensor_section fb e k h =
     (case RBT.lookup (shSensors h) (sint k) of
        None \<Rightarrow> Returns (h, [])
      | Some sensor \<Rightarrow> and_then (sensor_resume fb e sensor)
          (\<lambda>(sensor, posts). Returns (h\<lparr>shSensors := RBT.insert (sint k) sensor (shSensors h)\<rparr>, posts)))"

inductive sub_hal_life :: "flag_bits \<Rightarrow> SensorsSubHal \<Rightarrow> bool" for fb where
  loaded: "sub_hal_life fb (SensorsSubHal_new fb u t)"
| request: "sub_hal_life fb h \<Longrightarrow> sub_hal_life fb (sub_hal_apply x h)"
| threads: "sub_hal_life fb h \<Longrightarrow> sensor_section fb e k h = Returns (h', posts) \<Longrightarrow> sub_hal_life fb h'"

section \<open>What stays\<close>

text \<open>A sensor of this device: it waits in \<open>poll\<close> for its file, and takes no injected data.\<close>

definition device_sensor :: "flag_bits \<Rightarrow> int \<Rightarrow> Sensor \<Rightarrow> bool" where
  "device_sensor fb k s \<longleftrightarrow> polls (mKind s) \<and> \<not> supportsDataInjection fb s \<and> isWakeUpSensor fb s
     \<and> sint (si_sensorHandle (mSensorInfo s)) = k"

definition device_sensors :: "flag_bits \<Rightarrow> SensorsSubHal \<Rightarrow> bool" where
  "device_sensors fb h \<longleftrightarrow> dom (RBT.lookup (shSensors h)) = {1, 2}
     \<and> (\<forall>k s. RBT.lookup (shSensors h) k = Some s \<longrightarrow> device_sensor fb k s)"

lemma device_sensor_calls [simp]:
  "device_sensor fb k (sensor_activate b s) = device_sensor fb k s"
  "device_sensor fb k (sensor_setOperationMode m s) = device_sensor fb k s"
  "device_sensor fb k s \<Longrightarrow> device_sensor fb k (sensor_batch p s)"
  by (auto simp: device_sensor_def sensor_op_defs supportsDataInjection_def isWakeUpSensor_def sensor_batch_def polls_def)

lemma section_frame:
  assumes "sensor_resume fb e s = Returns (s', posts)"
  shows "mKind s' = mKind s" and "mSensorInfo s' = mSensorInfo s"
  using assms
  by (cases "mRunThread s"; auto simp: sensor_resume_def loop_head_polls Sensor_run_def after_poll_polls Let_def
      split: if_splits)+

lemma device_sensor_section:
  "sensor_resume fb e s = Returns (s', posts) \<Longrightarrow> device_sensor fb k s' = device_sensor fb k s"
  using section_frame [of fb e s s' posts] by (simp add: device_sensor_def supportsDataInjection_def isWakeUpSensor_def)

lemma device_sensors_put:
  assumes "device_sensors fb h" and "RBT.lookup (shSensors h) k = Some s"
    and "device_sensor fb k s \<Longrightarrow> device_sensor fb k s'"
  shows "device_sensors fb (h\<lparr>shSensors := RBT.insert k s' (shSensors h)\<rparr>)"
  using assms by (auto simp: device_sensors_def)

lemma device_sensors_with:
  assumes "device_sensors fb h" and "\<And>s. device_sensor fb (sint k) s \<Longrightarrow> device_sensor fb (sint k) (f s)"
  shows "device_sensors fb (snd (with_sensor k f h))"
  using assms device_sensors_put [OF assms(1)] by (auto simp: with_sensor_def split: option.split)

lemma device_sensors_mode: "device_sensors fb h \<Longrightarrow> device_sensors fb (snd (SensorsSubHal_setOperationMode m h))"
  by (fastforce simp: device_sensors_def SensorsSubHal_setOperationMode_def dom_def)

lemma device_sensors_callback [simp]: "device_sensors fb (h\<lparr>shCallback := b\<rparr>) = device_sensors fb h"
  by (simp add: device_sensors_def)

lemma device_sensors_apply: "device_sensors fb h \<Longrightarrow> device_sensors fb (sub_hal_apply x h)"
  by (cases x) (auto intro: device_sensors_mode device_sensors_with
      simp: SensorsSubHal_activate_def SensorsSubHal_batch_def SensorsSubHal_initialize_def)

lemma device_sensors_section:
  assumes "device_sensors fb h" and "sensor_section fb e k h = Returns (h', posts)"
  shows "device_sensors fb h'"
  using assms device_sensors_put [OF assms(1)] device_sensor_section
  by (auto simp: sensor_section_def split: option.splits)

lemma device_flags:
  assumes "flags_ok fb"
  shows "and (or (ONE_SHOT_MODE fb) (WAKE_UP fb)) (DATA_INJECTION_BIT fb) = 0"
    and "and (or (ONE_SHOT_MODE fb) (WAKE_UP fb)) (WAKE_UP fb) \<noteq> 0" and "WAKE_UP fb \<noteq> 0"
  using assms by (auto simp: flags_ok_def bit.conj_disj_distrib2 bit_eq_iff bit_simps)

lemma device_sensor_new:
  assumes "flags_ok fb"
  shows "device_sensor fb 1 (UdfpsSensor_new fb 1 a b s0)" and "device_sensor fb 2 (SingleTapSensor_new fb 2 a b s0)"
  by (simp_all add: device_sensor_def sensor_new_defs polls_def supportsDataInjection_def isWakeUpSensor_def
      device_flags [OF assms] Let_def)

lemma new_sensors:
  "shSensors (SensorsSubHal_new fb u t) =
     RBT.insert 2 (SingleTapSensor_new fb 2 (fst t) (fst (snd t)) (snd (snd t)))
       (RBT.insert 1 (UdfpsSensor_new fb 1 (fst u) (fst (snd u)) (snd (snd u))) RBT.empty)"
proof -
  have "si_sensorHandle (mSensorInfo (UdfpsSensor_new fb k a b s0)) = k"
    "si_sensorHandle (mSensorInfo (SingleTapSensor_new fb k a b s0)) = k" for k a b s0
    by (simp_all add: sensor_new_defs Let_def)
  then show ?thesis
    by (simp add: SensorsSubHal_new_def AddSensor_def Let_def)
qed

lemma device_sensors_new:
  assumes "flags_ok fb"
  shows "device_sensors fb (SensorsSubHal_new fb u t)"
  using device_sensor_new [OF assms] by (auto simp: device_sensors_def new_sensors split: if_splits)

lemma life_device_sensors:
  assumes "flags_ok fb" and "sub_hal_life fb h"
  shows "device_sensors fb h"
  using assms(2) by induction (use device_sensors_new [OF assms(1)] device_sensors_apply device_sensors_section in blast)+

section \<open>What requests answer\<close>

text \<open>What each request should answer, for a sub-HAL with the one-shot sensors 1 and 2 and no others.\<close>

fun expected_result :: "sub_hal_op \<Rightarrow> Result" where
  "expected_result (SetOperationMode m) = OK"
| "expected_result (ActivateSensor k b) = (if k \<in> {1, 2} then OK else BAD_VALUE)"
| "expected_result (BatchSensor k p l) = (if k \<in> {1, 2} then OK else BAD_VALUE)"
| "expected_result Initialize = OK"
| "expected_result GetSensorsList = OK"
| "expected_result (FlushSensor k) = BAD_VALUE"
| "expected_result (InjectSensorData ev) =
     (if ev_sensorHandle ev \<notin> {1, 2} then BAD_VALUE
      else if ev_sensorType ev = ADDITIONAL_INFO then OK else INVALID_OPERATION)"
| "expected_result _ = INVALID_OPERATION"

lemma device_lookup:
  assumes "device_sensors fb h"
  shows "(\<exists>s. RBT.lookup (shSensors h) (sint (k :: s32)) = Some s \<and> device_sensor fb (sint k) s \<and> k \<in> {1, 2})
    \<or> RBT.lookup (shSensors h) (sint k) = None \<and> k \<notin> {1, 2}"
proof -
  have "sint k \<in> dom (RBT.lookup (shSensors h)) \<longleftrightarrow> k \<in> {1, 2}"
    using assms by (simp add: device_sensors_def word_eq_sint_iff)
  then show ?thesis
    using assms by (auto simp: device_sensors_def)
qed

lemma device_answers:
  assumes "device_sensors fb h"
  shows "sub_hal_result fb ev0 x h = expected_result x" and "sub_hal_posts fb ev0 x h = []"
proof -
  note l = device_lookup [OF assms]
  show "sub_hal_result fb ev0 x h = expected_result x"
  proof (cases x)
    case (ActivateSensor k b)
    then show ?thesis using l [of k] by (auto simp: SensorsSubHal_activate_def with_sensor_def)
  next
    case (BatchSensor k p r)
    then show ?thesis using l [of k] by (auto simp: SensorsSubHal_batch_def with_sensor_def)
  next
    case (FlushSensor k)
    then show ?thesis
      using l [of k] by (auto simp: SensorsSubHal_flush_def sensor_flush_def device_sensor_def polls_def)
  next
    case (InjectSensorData ev)
    then show ?thesis
      using l [of "ev_sensorHandle ev"] by (auto simp: SensorsSubHal_injectSensorData_def injectEvent_def device_sensor_def)
  qed (auto simp: SensorsSubHal_setOperationMode_def SensorsSubHal_initialize_def SensorsSubHal_registerDirectChannel_def
      SensorsSubHal_unregisterDirectChannel_def SensorsSubHal_configDirectReport_def)
  show "sub_hal_posts fb ev0 x h = []"
  proof (cases x)
    case (FlushSensor k)
    then show ?thesis
      using l [of k] by (auto simp: SensorsSubHal_flush_def sensor_flush_def device_sensor_def polls_def)
  next
    case (InjectSensorData ev)
    then show ?thesis
      using l [of "ev_sensorHandle ev"] by (auto simp: SensorsSubHal_injectSensorData_def injectEvent_def device_sensor_def)
  qed auto
qed

text \<open>What a section posts is of its sensor, and wakes the framework.\<close>

lemma section_posts:
  assumes "device_sensors fb h" and "sensor_section fb e k h = Returns (h', posts)"
  shows "\<forall>p \<in> set posts. \<exists>ev. p = ([ev], True) \<and> ev_sensorHandle ev = k"
proof
  fix p assume "p \<in> set posts"
  then obtain s s' where s: "RBT.lookup (shSensors h) (sint k) = Some s" "sensor_resume fb e s = Returns (s', posts)"
    using assms(2) by (auto simp: sensor_section_def split: option.splits)
  then have "device_sensor fb (sint k) s"
    using device_lookup [OF assms(1), of k] by auto
  then show "\<exists>ev. p = ([ev], True) \<and> ev_sensorHandle ev = k"
    using section_post [OF s(2), of "fst p" "snd p"] \<open>p \<in> set posts\<close>
    by (cases p) (auto simp: device_sensor_def word_eq_sint_iff)
qed

text \<open>
  C19: The sub-HAL of the device over all its life: whatever requests were made and whatever sections
  the threads of its sensors took, every request has the answer of the table, that is, only the two
  sensors can be activated and batched, one-shot sensors are not flushed, neither takes injected data
  but additional information, and there are no direct channels; no request posts an event, so events
  come from the sensors' threads alone, one at a time, of the sensor whose thread it is, and all wake the
  framework.
\<close>

theorem requests_answered:
  assumes "flags_ok fb" and "sub_hal_life fb h"
  shows "sub_hal_result fb ev0 x h = expected_result x \<and> sub_hal_posts fb ev0 x h = []
    \<and> (sensor_section fb e k h = Returns (h', posts) \<longrightarrow>
        (\<forall>p \<in> set posts. \<exists>ev. p = ([ev], True) \<and> ev_sensorHandle ev = k))"
  using device_answers [OF life_device_sensors [OF assms]] section_posts [OF life_device_sensors [OF assms]] by blast

theorem requests_answered_witness:
  "\<forall>ev0. sub_hal_result platform_flags ev0 (FlushSensor 2)
      (sub_hal_apply (ActivateSensor 2 True)
        (SensorsSubHal_new platform_flags (True, True, blank_sensor Udfps) (True, True, blank_sensor SingleTap))) = BAD_VALUE"
  using requests_answered [OF platform_flags_ok sub_hal_life.request [OF sub_hal_life.loaded],
      where x = "FlushSensor 2", THEN conjunct1] by (simp only: expected_result.simps) blast

end
