(* ===== verification/Device_Life.thy ===== *)
theory Device_Life
  imports Hal_Life Device_Stack Sub_Hal_Life
begin

text \<open>
  The whole sensor stack of the device over all its life: the proxy (\<open>sensors/HalProxy.cpp\<close>) over the vendor's
  library and the device's own sub-HAL (\<open>sensors/SensorsSubHal.cpp\<close>), with the vendor's library and the threads of the
  device's sensors (\<open>sensors/Sensor.cpp\<close>) posting through the callback (\<open>sensors/HalProxyCallback.cpp\<close>).
\<close>

section \<open>What a sub-HAL keeps the proxy keeps\<close>


definition at_index :: "nat \<Rightarrow> ('h \<Rightarrow> bool) \<Rightarrow> 'h HalProxy \<Rightarrow> bool" where
  "at_index i P p \<longleftrightarrow> i < length (mSubHalList p) \<and> P (mSubHalList p ! i)"


lemma at_index_updates [simp]:
  "at_index i P (p\<lparr>mWakelockThread := w\<rparr>) = at_index i P p" "at_index i P (p\<lparr>mPendingWritesThread := x\<rparr>) = at_index i P p"
  "at_index i P (p\<lparr>mThreadsRun := b\<rparr>) = at_index i P p" "at_index i P (p\<lparr>mCurrentOperationMode := m\<rparr>) = at_index i P p"
  "at_index i P (p\<lparr>mPendingWriteEventsQueue := q\<rparr>) = at_index i P p" "at_index i P (p\<lparr>mSizePendingWriteEventsQueue := n\<rparr>) = at_index i P p"
  "at_index i P (p\<lparr>mDynamicSensors := ss\<rparr>) = at_index i P p" "at_index i P (pemit eff p) = at_index i P p"
  by (simp_all add: at_index_def)




lemma list_count [simp]: "mSubHalList (snd (countNumWakeupEvents fb si0 evs n p)) = mSubHalList p"
proof -
  have "mSubHalList (snd (count_wakeups fb si0 evs n p)) = mSubHalList p" for evs n and p :: "'a HalProxy"
    by (induction evs arbitrary: n p) (simp_all add: Let_def)
  then show ?thesis by (simp add: countNumWakeupEvents_def)
qed




section \<open>Two kinds of libraries\<close>








section \<open>Steps of the stack\<close>





text \<open>
  What the platform promises: the vendor's library has other sub-HALs than the device's and posts under their own handles,
  whose first byte is clear, of whatever sensors, under any wakelock; what a sensor
  reads is defined (\<open>Sensor_Props\<close> says when); the device's sub-HAL has been initialised before one of its
  sensors posts; for these \<open>getSensorInfo\<close> finds what the proxy's list has; and references and batches stay below
  the bound of \<open>size_t\<close>. A life ends where an assertion fails.
\<close>





section \<open>The invariant of the stack\<close>


definition own_posts :: "nat \<Rightarrow> Event list \<Rightarrow> bool" where
  "own_posts i evs \<longleftrightarrow> (\<forall>ev \<in> set evs. subHalIndex (ev_sensorHandle ev) = i
     \<longrightarrow> clearSubHalIndex first_byte (ev_sensorHandle ev) \<in> {1, 2})"



lemma own_posts_append [simp]: "own_posts i (xs @ ys) \<longleftrightarrow> own_posts i xs \<and> own_posts i ys"
  by (auto simp: own_posts_def)



































end
