(* ===== verification/Sensor_Twins.thy ===== *)
theory Sensor_Twins
  imports Sensor_Props
begin

text \<open>
  The UDFPS and the single-tap sensor are two copies of one state machine (\<open>sensors/Sensor.cpp\<close>). Here
  they run side by side: with touch controllers that report alike, the copies stay in step and post
  alike over every sequence of calls and thread sections.
\<close>

section \<open>Runs\<close>

fun sensor_run :: "flag_bits \<Rightarrow> sensor_op list \<Rightarrow> Sensor \<Rightarrow> (Sensor \<times> post list) outcome" where
  "sensor_run fb [] s = Returns (s, [])"
| "sensor_run fb (op # ops) s =
     and_then (sensor_step fb op s) (\<lambda>r.
     and_then (sensor_run fb ops (fst r)) (\<lambda>q. Returns (fst q, snd r @ snd q)))"

section \<open>What is alike\<close>

text \<open>
  Both see the same results of \<open>poll\<close> and the same clock, their files agree on whether a finger is
  there, and the coordinates of the tap can be parsed.
\<close>

definition same_env :: "run_env \<Rightarrow> run_env \<Rightarrow> bool" where
  "same_env e e' \<longleftrightarrow> elapsedRealtimeNano e = elapsedRealtimeNano e' \<and> poll_rc e = poll_rc e'
     \<and> pipe_ready e = pipe_ready e' \<and> file_ready e = file_ready e'
     \<and> fst (readFpState (seek_rc e) (read_state e) (stack_bytes e) (0, 0)) = readBool (seek_rc e') (read_char e')
     \<and> (\<exists>xy. readCoordinates (coordinate_file e') = Returns xy)"

fun same_op :: "sensor_op \<Rightarrow> sensor_op \<Rightarrow> bool" where
  "same_op (Activate b) op = (op = Activate b)"
| "same_op (SetMode m) op = (op = SetMode m)"
| "same_op (Inject ev) op = (op = Inject ev)"
| "same_op (Section e) op = (case op of Section e' \<Rightarrow> same_env e e' | _ \<Rightarrow> False)"

text \<open>Posts agree on the wakeup flag, and event by event on handle and time.\<close>

definition same_post :: "post \<Rightarrow> post \<Rightarrow> bool" where
  "same_post p q \<longleftrightarrow> snd p = snd q
     \<and> list_all2 (\<lambda>a b. ev_sensorHandle a = ev_sensorHandle b \<and> ev_timestamp a = ev_timestamp b) (fst p) (fst q)"

definition twins :: "Sensor \<Rightarrow> Sensor \<Rightarrow> bool" where
  "twins s t \<longleftrightarrow> mKind s = Udfps \<and> mRunAs s = Udfps \<and> mKind t = SingleTap \<and> mRunAs t = SingleTap
     \<and> mIsEnabled s = mIsEnabled t \<and> mMode s = mMode t \<and> mStopThread s = mStopThread t
     \<and> mRunThread s = mRunThread t \<and> mWaitPipe s = mWaitPipe t \<and> pipe_bytes s = pipe_bytes t
     \<and> si_sensorHandle (mSensorInfo s) = si_sensorHandle (mSensorInfo t)
     \<and> si_flags (mSensorInfo s) = si_flags (mSensorInfo t)"

lemma same_post_refl [simp]: "same_post p p"
  by (simp add: same_post_def list_all2_same)

lemma same_posts_refl [simp]: "list_all2 same_post ps ps"
  by (simp add: list_all2_same)

text \<open>Whether there is a finger does not depend on the coordinates read before.\<close>

lemma trigger_anywhere: "fst (readFpState rc rd st xy) = fst (readFpState rc rd st (0, 0))"
  by (simp add: readFpState_def split: option.split)

section \<open>In step\<close>

lemma twins_client:
  assumes "twins s t"
  shows "twins (sensor_activate b s) (sensor_activate b t)"
    and "twins (sensor_setOperationMode m s) (sensor_setOperationMode m t)"
    and "snd (injectEvent fb ev s) = snd (injectEvent fb ev t)"
  using assms by (auto simp: twins_def sensor_op_defs polls_def injectEvent_def supportsDataInjection_def isWakeUpSensor_def)

lemma twins_loop: "twins s t \<Longrightarrow> twins (UdfpsSensor_loop s) (UdfpsSensor_loop t)"
  by (auto simp: twins_def UdfpsSensor_loop_def idle_def)

lemma twins_read: "twins s t \<Longrightarrow> twins (snd (read_trigger e s)) t"
  by (simp add: twins_def read_trigger_def Let_def)

lemma finger_read:
  "mRunAs s = Udfps \<Longrightarrow> fst (read_trigger e s) = fst (readFpState (seek_rc e) (read_state e) (stack_bytes e) (mScreenX s, mScreenY s))"
  "mRunAs s = SingleTap \<Longrightarrow> read_trigger e s = (readBool (seek_rc e) (read_char e), s)"
  by (simp_all add: read_trigger_def Let_def)

lemma twins_after_poll:
  assumes "twins s t" and "same_env e e'" and "after_poll fb e s = Returns (s', ps)"
  shows "\<exists>t' qs. after_poll fb e' t = Returns (t', qs) \<and> twins s' t' \<and> list_all2 same_post ps qs"
proof -
  let ?finger = "readBool (seek_rc e') (read_char e')"
  have trigger: "fst (readFpState (seek_rc e) (read_state e) (stack_bytes e) xy) = ?finger" for xy
    using assms(2) trans [OF trigger_anywhere] unfolding same_env_def by blast
  obtain xy where xy: "readCoordinates (coordinate_file e') = Returns xy"
    using assms(2) by (auto simp: same_env_def)
  have r: "twins (snd (read_trigger e s)) t"
    by (rule twins_read [OF assms(1)])
  have same: "twins u t \<Longrightarrow> twins (u\<lparr>mIsEnabled := False\<rparr>) (t\<lparr>mIsEnabled := False\<rparr>)"
      "twins u t \<Longrightarrow> twins (u\<lparr>pipe_bytes := pipe_bytes u - 1\<rparr>) (t\<lparr>pipe_bytes := pipe_bytes t - 1\<rparr>)"
      "twins u t \<Longrightarrow> twins (u\<lparr>mStopThread := True\<rparr>) (t\<lparr>mStopThread := True\<rparr>)" for u
    by (simp_all add: twins_def)
  have kinds: "mRunAs s = Udfps" "mKind s = Udfps" "mRunAs t = SingleTap" "mKind t = SingleTap"
      "si_sensorHandle (mSensorInfo s) = si_sensorHandle (mSensorInfo t)" "isWakeUpSensor fb s = isWakeUpSensor fb t"
    using assms(1) by (auto simp: twins_def isWakeUpSensor_def)
  have env: "poll_rc e' = poll_rc e" "file_ready e' = file_ready e" "pipe_ready e' = pipe_ready e"
      "elapsedRealtimeNano e' = elapsedRealtimeNano e"
    using assms(2) by (auto simp: same_env_def)
  consider (error) "sint (poll_rc e) < 0" | (finger) "\<not> sint (poll_rc e) < 0" "file_ready e" ?finger
    | (other) "\<not> sint (poll_rc e) < 0" "\<not> (file_ready e \<and> ?finger)" by blast
  then show ?thesis
  proof cases
    case error
    then show ?thesis
      using assms(3) same(3) [OF assms(1)] env by (auto simp: after_poll_polls intro: twins_loop)
  next
    case finger
    then show ?thesis
      using assms(3) env xy trigger kinds same(1) [OF r]
      by (auto simp: after_poll_polls finger_read sensor_readEvents_def UdfpsSensor_readEvents_def
          SingleTapSensor_readEvents_def fillEventData_def sensor_event_def isWakeUpSensor_def same_post_def Let_def
          intro: twins_loop)
  next
    case other
    then show ?thesis
      using assms(3) env trigger kinds same(2) [OF r] same(2) [OF assms(1)] assms(1) r
      by (auto simp: after_poll_polls Let_def finger_read intro: twins_loop split: if_splits)
  qed
qed

lemma twins_step:
  assumes "twins s t" and "same_op op op'" and "sensor_step fb op s = Returns (s', ps)"
  shows "\<exists>t' qs. sensor_step fb op' t = Returns (t', qs) \<and> twins s' t' \<and> list_all2 same_post ps qs"
proof (cases op)
  case (Section e)
  then obtain e' where e': "op' = Section e'" "same_env e e'"
    using assms(2) by (auto split: sensor_op.splits)
  have thread: "mRunThread t = mRunThread s" "polls (mRunAs s)" "polls (mRunAs t)" "wait_over t = wait_over s"
    using assms(1) by (auto simp: twins_def polls_def wait_over_def)
  show ?thesis
    using assms(1,3) e' Section thread twins_loop [OF assms(1)] twins_after_poll [OF assms(1) e'(2), of fb s' ps]
    by (cases "mRunThread s") (auto simp: sensor_resume_def loop_head_polls split: if_splits)
qed (use assms twins_client [OF assms(1)] in auto)

lemma twins_run:
  assumes "list_all2 same_op ops ops'" and "twins s t" and "sensor_run fb ops s = Returns (s', ps)"
  shows "\<exists>t' qs. sensor_run fb ops' t = Returns (t', qs) \<and> twins s' t' \<and> list_all2 same_post ps qs"
  using assms
proof (induction arbitrary: s t ps rule: list_all2_induct)
  case (Cons op ops op' ops')
  obtain s1 ps1 ps2 where 1: "sensor_step fb op s = Returns (s1, ps1)" "sensor_run fb ops s1 = Returns (s', ps2)"
      "ps = ps1 @ ps2"
    using Cons.prems(2) by auto
  obtain t1 qs1 where 2: "sensor_step fb op' t = Returns (t1, qs1)" "twins s1 t1" "list_all2 same_post ps1 qs1"
    using twins_step [OF Cons.prems(1) Cons.hyps(1) 1(1)] by blast
  obtain t2 qs2 where "sensor_run fb ops' t1 = Returns (t2, qs2)" "twins s' t2" "list_all2 same_post ps2 qs2"
    using Cons.IH [OF 2(2) 1(2)] by blast
  then show ?case
    using 1 2 by (auto intro: list_all2_appendI)
qed simp

lemma twins_new:
  assumes "mRunAs s0 = Udfps"
  shows "twins (UdfpsSensor_new fb h pipe_ok open_ok s0) (SingleTapSensor_new fb h pipe_ok open_ok (s0\<lparr>mRunAs := SingleTap\<rparr>))"
  using assms by (simp add: twins_def sensor_new_defs Let_def)

text \<open>
  C24: The single-tap sensor is the UDFPS sensor over: built alike and driven alike, by any sequence of
  calls and thread sections with controllers that agree, the second class returns whenever the first
  does, ends in the same state of its machine and makes the same posts at the same times, events of
  the same handle and wakeup flag.
\<close>

theorem polling_classes_agree:
  assumes "mRunAs s0 = Udfps" and "list_all2 same_op ops ops'"
    and "sensor_run fb ops (UdfpsSensor_new fb h pipe_ok open_ok s0) = Returns (s, ps)"
  shows "\<exists>t qs. sensor_run fb ops' (SingleTapSensor_new fb h pipe_ok open_ok (s0\<lparr>mRunAs := SingleTap\<rparr>)) = Returns (t, qs)
    \<and> twins s t \<and> list_all2 same_post ps qs"
  using twins_run [OF assms(2) twins_new [OF assms(1)] assms(3)] by blast

text \<open>Switched on, into \<open>poll\<close>, a finger.\<close>

definition touch_ops :: "sensor_op list" where
  "touch_ops = [Activate True, Section touch_env, Section touch_env]"

lemma touch_env_same: "same_env touch_env touch_env"
  by (simp add: same_env_def touch_env_def readBool_def readFpState_def readCoordinates_def sscanf_ints_def numeral_3_eq_3
      strto_def sign_split_def skip_0x_def c_space_def is_digit_def digit_val_def number_def signed_value_def Let_def)

theorem polling_classes_agree_witness:
  "\<exists>t q. sensor_run platform_flags touch_ops (SingleTapSensor_new platform_flags 4 True True (blank_sensor SingleTap))
     = Returns (t, [q]) \<and> mRunThread t = InWait"
proof -
  have finger: "fst (readFpState 0 (10, ''540,1900,1'') '''' (0, 0))"
    using touch_env_same by (simp add: same_env_def touch_env_def readBool_def)
  obtain s p where r: "sensor_run platform_flags touch_ops (UdfpsSensor_new platform_flags 4 True True (blank_sensor Udfps))
      = Returns (s, [p])" "mRunThread s = InWait"
    using finger trigger_anywhere [of 0 "(10, ''540,1900,1'')" "''''"]
    by (simp add: touch_ops_def sensor_resume_def loop_head_polls after_poll_polls read_trigger_def sensor_op_defs sensor_new_defs
        blank_sensor_def polls_def touch_env_def UdfpsSensor_loop_def idle_def sensor_readEvents_def Let_def)
  have "list_all2 same_op touch_ops touch_ops"
    using touch_env_same by (simp add: touch_ops_def)
  moreover have "(blank_sensor Udfps)\<lparr>mRunAs := SingleTap\<rparr> = blank_sensor SingleTap" "mRunAs (blank_sensor Udfps) = Udfps"
    by (simp_all add: blank_sensor_def)
  ultimately show ?thesis
    using polling_classes_agree [of "blank_sensor Udfps" touch_ops touch_ops platform_flags 4 True True s "[p]"] r
    by (fastforce simp: twins_def list_all2_Cons1)
qed

end
