(* ===== verification/Hal_Drain.thy ===== *)
theory Hal_Drain
  imports Hal_Queue_Props
begin

text \<open>
  The pending-writes thread (\<open>HalProxy::handlePendingWrites\<close>) empties its queue: how many sections it needs is
  computed from the queue, and each section is one step nearer.
\<close>

section \<open>The steps left\<close>

text \<open>A batch takes as many writes as its events fill message queues, at least one; each is two sections.\<close>

definition writes_for :: "nat \<Rightarrow> Event list \<Rightarrow> nat" where
  "writes_for q evs = max 1 ((length evs + q - 1) div q)"

definition writes_left :: "nat \<Rightarrow> 'h HalProxy \<Rightarrow> nat" where
  "writes_left q p = sum_list (map (\<lambda>b. writes_for q (fst b)) (mPendingWriteEventsQueue p))"

definition sections_left :: "nat \<Rightarrow> 'h HalProxy \<Rightarrow> nat" where
  "sections_left q p = 2 * writes_left q p - (if mPendingWritesThread p = WriterWaits then 0 else 1)"

text \<open>The thread is alive, and a write it is in has a batch and the capacity \<open>q\<close>.\<close>

definition draining :: "nat \<Rightarrow> 'h HalProxy \<Rightarrow> bool" where
  "draining q p \<longleftrightarrow> mThreadsRun p
     \<and> (mPendingWritesThread p = WriterWaits \<or> mPendingWritesThread p = WriterWrites q \<and> mPendingWriteEventsQueue p \<noteq> [])"

lemma writes_for_drop:
  assumes "0 < q" and "q < length evs"
  shows "writes_for q evs = Suc (writes_for q (drop q evs))"
proof -
  obtain m where m: "length evs = Suc (q + m)"
    using assms(2) less_iff_Suc_add by blast
  have "(m + q) div q = Suc (m div q)"
    using assms(1) by simp
  moreover have "(m + q + q) div q = Suc ((m + q) div q)"
    using div_add_self2 [of q "m + q"] assms(1) by linarith
  ultimately show ?thesis
    by (simp add: writes_for_def m add.commute add.left_commute)
qed

lemma writes_for_pos [simp]: "0 < writes_for q evs"
  by (simp add: writes_for_def)

lemma writes_for_last:
  assumes "\<not> q < length evs"
  shows "writes_for q evs = 1"
proof (cases "q = 0")
  case False
  then have "length evs + q - 1 < 2 * q"
    using assms by simp
  then have "(length evs + q - 1) div q < 2"
    using False by (simp add: div_less_iff_less_mult)
  then show ?thesis by (simp add: writes_for_def)
qed (use assms in \<open>simp add: writes_for_def\<close>)

lemma writer_counts_running [simp]: "mThreadsRun (writer_counts fb si q ok p) = mThreadsRun p"
proof -
  have c: "mThreadsRun (snd (countNumWakeupEvents fb si evs n p)) = mThreadsRun p" for evs n
    using count_wakeups_frame [of fb si "take n evs" 0 p] by (auto simp: countNumWakeupEvents_def)
  have d: "mThreadsRun (decrementRefCountAndMaybeReleaseWakelock k t r) = mThreadsRun r" for k t and r :: "'a HalProxy"
    by (simp add: decrementRefCountAndMaybeReleaseWakelock_def Let_def)
  show ?thesis
    by (simp add: writer_counts_def c d Let_def split: list.split prod.split)
qed

lemma writer_counts_delivered [simp]: "delivered (proxy_effects (writer_counts fb si q ok p)) = delivered (proxy_effects p)"
proof -
  have c: "proxy_effects (snd (countNumWakeupEvents fb si evs n p)) = proxy_effects p" for evs n
    using count_wakeups_frame [of fb si "take n evs" 0 p] by (auto simp: countNumWakeupEvents_def)
  have d: "delivered (proxy_effects (decrementRefCountAndMaybeReleaseWakelock k t r)) = delivered (proxy_effects r)"
    for k t and r :: "'a HalProxy"
    by (simp add: decrementRefCountAndMaybeReleaseWakelock_def Let_def)
  show ?thesis
    by (simp add: writer_counts_def c d Let_def split: list.split prod.split)
qed

text \<open>The section behind a write, field by field.\<close>

lemma writer_after_write:
  fixes p :: "'h HalProxy" and fb :: flag_bits and si :: SensorInfo and quantum :: nat and ok :: bool
  assumes "mPendingWritesThread p = WriterWrites q" and "mPendingWriteEventsQueue p = (evs, nw) # rest"
  defines "p' \<equiv> handlePendingWrites fb si quantum ok p"
  shows "mPendingWriteEventsQueue p' = (if q < length evs then (drop q evs, nw) # rest else rest)"
    and "mPendingWritesThread p' = WriterWaits" and "mThreadsRun p' = mThreadsRun p"
    and "ok \<Longrightarrow> delivered (proxy_effects p') = delivered (proxy_effects p) @ take (min (length evs) q) evs"
proof -
  let ?c = "writer_counts fb si q ok (pemit (tried ok (take (min (length evs) q) evs)) p)"
  have "queue_part ?c = queue_part (pemit (tried ok (take (min (length evs) q) evs)) p)"
    by simp
  then have c: "mPendingWriteEventsQueue ?c = (evs, nw) # rest"
    using assms(2) by (simp add: queue_part_def)
  have p': "p' = writer_rest q ?c"
    using assms(1) writer_alt [OF assms(2)] by (simp add: p'_def handlePendingWrites_def)
  show "mPendingWriteEventsQueue p' = (if q < length evs then (drop q evs, nw) # rest else rest)"
      "mPendingWritesThread p' = WriterWaits" "mThreadsRun p' = mThreadsRun p"
    unfolding p' writer_rest_def c by simp_all
  show "delivered (proxy_effects p') = delivered (proxy_effects p) @ take (min (length evs) q) evs" if ok
    unfolding p' writer_rest_def c using that by (simp add: tried_def)
qed

section \<open>Every section counts\<close>

lemma section_counts:
  assumes "draining q p" and "0 < q"
  shows "draining q (handlePendingWrites fb si q ok p)"
    and "sections_left q (handlePendingWrites fb si q ok p) = sections_left q p - 1"
    and "ok \<Longrightarrow> delivered (proxy_effects (handlePendingWrites fb si q ok p)) @ pending (handlePendingWrites fb si q ok p)
      = delivered (proxy_effects p) @ pending p"
proof -
  let ?p = "handlePendingWrites fb si q ok p"
  have "draining q ?p \<and> sections_left q ?p = sections_left q p - 1
    \<and> (ok \<longrightarrow> delivered (proxy_effects ?p) @ pending ?p = delivered (proxy_effects p) @ pending p)"
  proof (cases "mPendingWritesThread p")
    case WriterWaits
    then show ?thesis
      using assms(1)
      by (auto simp: handlePendingWrites_def writer_picks_up_def draining_def sections_left_def writes_left_def pending_def)
  next
    case (WriterWrites r)
    then have w: "mPendingWritesThread p = WriterWrites q" "mThreadsRun p"
      using assms(1) by (simp_all add: draining_def)
    obtain evs nw rest where b: "mPendingWriteEventsQueue p = (evs, nw) # rest"
      using assms(1) WriterWrites by (cases "mPendingWriteEventsQueue p") (auto simp: draining_def)
    note after = writer_after_write [OF w(1) b, where fb = fb and si = si and quantum = q and ok = ok]
    have "writes_left q ?p = writes_left q p - 1" "0 < writes_left q p"
      using after(1) b writes_for_drop [OF assms(2), of evs] writes_for_last [of q evs]
      by (auto simp: writes_left_def)
    moreover have "take (min (length evs) q) evs @ pending ?p = pending p"
      using after(1) b by (auto simp: pending_def min_def simp flip: append_assoc)
    ultimately show ?thesis
      using after(2-4) w by (auto simp: draining_def sections_left_def)
  next
    case WriterGone
    with assms(1) show ?thesis by (simp add: draining_def)
  qed
  then show "draining q ?p" "sections_left q ?p = sections_left q p - 1"
    and "ok \<Longrightarrow> delivered (proxy_effects ?p) @ pending ?p = delivered (proxy_effects p) @ pending p"
    by blast+
qed

lemma drain_run:
  assumes "draining q p" and "0 < q"
  shows "draining q (fold (handlePendingWrites fb si q) oks p)
    \<and> sections_left q (fold (handlePendingWrites fb si q) oks p) = sections_left q p - length oks"
  using assms(1)
proof (induction oks arbitrary: p)
  case (Cons ok oks)
  then show ?case
    using Cons.IH [OF section_counts(1) [OF Cons.prems assms(2)]] section_counts(2) [OF Cons.prems assms(2)] by simp
qed simp

lemma drain_delivers:
  assumes "draining q p" and "0 < q" and "\<forall>ok \<in> set oks. ok"
  shows "delivered (proxy_effects (fold (handlePendingWrites fb si q) oks p)) @ pending (fold (handlePendingWrites fb si q) oks p)
    = delivered (proxy_effects p) @ pending p"
  using assms(1,3)
proof (induction oks arbitrary: p)
  case (Cons ok oks)
  then have "ok" "\<forall>ok \<in> set oks. ok" by auto
  from trans [OF Cons.IH [OF section_counts(1) [OF Cons.prems(1) assms(2)] this(2)] section_counts(3) [OF Cons.prems(1) assms(2) this(1)]]
  show ?case by simp
qed simp

lemma writes_positive: "writes_left q p = 0 \<longleftrightarrow> mPendingWriteEventsQueue p = []"
  by (cases "mPendingWriteEventsQueue p") (auto simp: writes_left_def writes_for_def)

lemma sections_zero: "draining q p \<Longrightarrow> sections_left q p = 0 \<longleftrightarrow> mPendingWriteEventsQueue p = []"
  using writes_positive [of q p] by (auto simp: sections_left_def draining_def)

text \<open>
  C22: The writer thread works off its queue, and exactly when: with a message queue that takes \<open>q\<close> events
  at a time, while nothing is posted and its capacity stays, the pending queue is empty after \<open>k\<close> sections of the
  thread if and only if \<open>k\<close> is at least twice the number of writes the batches need, less the section that took up the
  write under way, if there is one, whether the writes succeed or time out; then the thread waits again,
  and if they succeeded everything that was pending has been delivered, in order. The loop around the sections
  ends only when the threads are told to stop.
\<close>

theorem pending_drains:
  fixes p :: "'h HalProxy" and fb :: flag_bits and si :: SensorInfo and oks :: "bool list"
  assumes "mThreadsRun p" and "0 < q"
    and "mPendingWritesThread p = WriterWaits \<or> mPendingWritesThread p = WriterWrites q \<and> mPendingWriteEventsQueue p \<noteq> []"
  defines "sections \<equiv> 2 * sum_list (map (\<lambda>b. max 1 ((length (fst b) + q - 1) div q)) (mPendingWriteEventsQueue p))
      - (if mPendingWritesThread p = WriterWaits then 0 else 1)"
    and "p' \<equiv> fold (handlePendingWrites fb si q) oks p"
  shows "(mPendingWriteEventsQueue p' = [] \<longleftrightarrow> sections \<le> length oks)
    \<and> (sections \<le> length oks \<longrightarrow> mPendingWritesThread p' = WriterWaits)
    \<and> ((\<forall>ok \<in> set oks. ok) \<longrightarrow> sections \<le> length oks \<longrightarrow>
         delivered (proxy_effects p') = delivered (proxy_effects p) @ pending p)"
proof -
  have d: "draining q p"
    using assms(1,3) by (simp add: draining_def)
  note run = drain_run [OF d assms(2), of fb si oks, folded p'_def]
  have left: "sections_left q p = sections"
    by (simp add: sections_left_def writes_left_def writes_for_def sections_def)
  have empty: "mPendingWriteEventsQueue p' = [] \<longleftrightarrow> sections \<le> length oks"
    using run sections_zero left by fastforce
  moreover have "pending p' = []" "mPendingWritesThread p' = WriterWaits" if "sections \<le> length oks"
    using that empty run by (auto simp: pending_def draining_def)
  ultimately show ?thesis
    using drain_delivers [OF d assms(2), of oks fb si, folded p'_def] by auto
qed

text \<open>Two batches of three and one events: six sections of a waiting thread, five when the first write is under way.\<close>

theorem pending_drains_witness:
  "let p = running_proxy\<lparr>mPendingWriteEventsQueue := [([sample_event 1, sample_event 2, sample_event 3], 0), ([sample_event 4], 0)],
             mSizePendingWriteEventsQueue := 4\<rparr>
   in mPendingWriteEventsQueue (fold (handlePendingWrites platform_flags (sample_info 0 0) 2) [True, True, True, True, True] p) \<noteq> []
    \<and> delivered (proxy_effects (fold (handlePendingWrites platform_flags (sample_info 0 0) 2) [True, True, True, True, True, True] p))
        = [sample_event 1, sample_event 2, sample_event 3, sample_event 4]
    \<and> mPendingWriteEventsQueue (fold (handlePendingWrites platform_flags (sample_info 0 0) 2) [True, True, True, True, True]
        (p\<lparr>mPendingWritesThread := WriterWrites 2\<rparr>)) = []"
proof -
  let ?p = "running_proxy\<lparr>mPendingWriteEventsQueue := [([sample_event 1, sample_event 2, sample_event 3], 0), ([sample_event 4], 0)],
             mSizePendingWriteEventsQueue := 4\<rparr>"
  let ?w = "?p\<lparr>mPendingWritesThread := WriterWrites 2\<rparr>"
  have p: "mThreadsRun ?p" "mPendingWritesThread ?p = WriterWaits" "proxy_effects ?p = []" "mThreadsRun ?w"
    by (simp_all add: running_proxy_def HalProxy_members_def)
  show ?thesis
    using pending_drains [OF p(1), of 2 platform_flags "sample_info 0 0" "[True, True, True, True, True]"]
      pending_drains [OF p(1), of 2 platform_flags "sample_info 0 0" "[True, True, True, True, True, True]"]
      pending_drains [OF p(4), of 2 platform_flags "sample_info 0 0" "[True, True, True, True, True]"] p(2,3)
    by (simp add: pending_def del: fold_simps)
qed

end
