(* ===== verification/Hal_Debug.thy ===== *)
theory Hal_Debug
  imports Hal_Proxy Text_Parsing
begin

text \<open>
  The dumps of the sensors service: \<open>HalProxy::debug\<close> and \<open>SensorsSubHal::debug\<close>, with the descriptors
  they duplicate. The locale \<open>dumps\<close> states what the proxy's dump needs of a sub-HAL's.
\<close>

section \<open>Descriptors\<close>

text \<open>
  The open descriptors of the process, each with the file it refers to, the first number that is out
  of bounds, and what has been written to each file. \<open>dup\<close> takes the least free number, and answers -1
  when there is none or its argument is not open; a write to a descriptor that is not open fails.
\<close>

record fd_table =
  fds :: "(int \<times> nat) list"
  fd_limit :: nat
  texts :: "nat \<Rightarrow> string"

definition fd_dup :: "int \<Rightarrow> fd_table \<Rightarrow> int \<times> fd_table" where
  "fd_dup fd io =
     (case (map_of (fds io) fd, find (\<lambda>n. map_of (fds io) (int n) = None) [0..<fd_limit io]) of
        (Some file, Some n) \<Rightarrow> (int n, io\<lparr>fds := (int n, file) # fds io\<rparr>)
      | _ \<Rightarrow> (- 1, io))"

definition fd_write :: "int \<Rightarrow> string \<Rightarrow> fd_table \<Rightarrow> fd_table" where
  "fd_write fd t io =
     (case map_of (fds io) fd of None \<Rightarrow> io | Some file \<Rightarrow> io\<lparr>texts := (texts io)(file := texts io file @ t)\<rparr>)"

definition fd_close :: "int \<Rightarrow> fd_table \<Rightarrow> fd_table" where
  "fd_close fd io = io\<lparr>fds := [e \<leftarrow> fds io. fst e \<noteq> fd]\<rparr>"

text \<open>A handle of the interface: a null one, or the descriptors it carries.\<close>

type_synonym hidl_handle = "int list option"

section \<open>The sub-HAL\<close>

definition SensorsSubHal_getName :: string where
  "SensorsSubHal_getName = ''FakeSubHal''"

definition Sensor_getSensorInfo :: "Sensor \<Rightarrow> SensorInfo" where
  "Sensor_getSensorInfo s = mSensorInfo s"

text \<open>
  How a name with a NUL inside is printed is up to the \<open>hidl_string\<close> of the platform; it is taken to be printed whole, and the
  property below leaves such names out.
\<close>

definition sensor_lines :: "SensorInfo \<Rightarrow> string" where
  "sensor_lines i =
     ''Name: '' @ si_name i @ [newline] @ ''Min delay: '' @ decimal (sint (si_minDelay i)) @ [newline]
     @ ''Flags: '' @ decimal (uint (si_flags i)) @ [newline]"

text \<open>What a C function sees of a string ends at the first NUL.\<close>

definition c_str :: "string \<Rightarrow> string" where
  "c_str s = takeWhile (\<lambda>c. c \<noteq> nul) s"

text \<open>
  \<open>fdopen\<close> of a failed \<open>dup\<close> is a null stream, on which \<open>fprintf\<close> and \<open>fclose\<close> are undefined. The stream
  is buffered: what is printed reaches the file with \<open>fclose\<close>.
\<close>

definition SensorsSubHal_debug :: "hidl_handle \<Rightarrow> string list \<Rightarrow> SensorsSubHal \<Rightarrow> fd_table \<Rightarrow> fd_table outcome" where
  "SensorsSubHal_debug fd args h io =
     (case fd of
        None \<Rightarrow> Returns io
      | Some [] \<Rightarrow> Returns io
      | Some (d # ds) \<Rightarrow>
          (let (out, io) = fd_dup d io
           in if out < 0 then Undefined_behaviour
              else let note = (if args \<noteq> []
                     then ''Note: sub-HAL '' @ SensorsSubHal_getName
                       @ '' currently does not support args. Input arguments are ignored.'' @ [newline]
                     else []);
                   stream = ''Available sensors:'' @ [newline]
                     @ concat (map (\<lambda>sensor. sensor_lines (Sensor_getSensorInfo (snd sensor))) (RBT.entries (shSensors h)))
                     @ [newline]
                 in Returns (fd_close out (fd_write out (note @ c_str stream) io))))"

section \<open>The proxy\<close>

text \<open>What the proxy's dump calls on a sub-HAL of its list; the dump may change the sub-HAL.\<close>

record 'h dump_api =
  dump_getName :: "'h \<Rightarrow> string"
  dump_debug :: "hidl_handle \<Rightarrow> string list \<Rightarrow> 'h \<Rightarrow> fd_table \<Rightarrow> ('h \<times> fd_table) outcome"

definition msFromNs :: "int \<Rightarrow> int" where
  "msFromNs nanos = nanos sdiv 1000000"

definition shown_bool :: "bool \<Rightarrow> string" where
  "shown_bool b = (if b then ''true'' else ''false'')"

definition line :: "string \<Rightarrow> string \<Rightarrow> string" where
  "line label v = label @ v @ [newline]"

definition internal_values :: "int \<Rightarrow> 'h HalProxy \<Rightarrow> string" where
  "internal_values now p =
     line ''===HalProxy==='' [] @ line ''Internal values:'' []
     @ line ''  Threads are running: '' (shown_bool (mThreadsRun p))
     @ line ''  Wakelock timeout start time: '' (decimal (msFromNs (now - mWakelockTimeoutStartTime p)) @ '' ms ago'')
     @ line ''  Wakelock timeout reset time: '' (decimal (msFromNs (now - mWakelockTimeoutResetTime p)) @ '' ms ago'')
     @ line ''  Wakelock ref count: '' (decimal (int (mWakelockRefCount p)))
     @ line ''  # of events on pending write writes queue: '' (decimal (int (mSizePendingWriteEventsQueue p)))
     @ line '' Most events seen on pending write events queue: ''
         (decimal (int (mMostEventsObservedPendingWriteEventsQueue p)))
     @ (case mPendingWriteEventsQueue p of
          [] \<Rightarrow> []
        | batch # _ \<Rightarrow> line ''  Size of events list on front of pending writes queue: '' (decimal (int (length (fst batch)))))
     @ line ''  # of non-dynamic sensors across all subhals: '' (decimal (int (length (RBT.entries (pSensors p)))))
     @ line ''  # of dynamic sensors across all subhals: '' (decimal (int (length (RBT.entries (mDynamicSensors p)))))
     @ line ''SubHals ('' (decimal (int (length (mSubHalList p))) @ ''):'')"

definition sub_hal_lines :: "string \<Rightarrow> string" where
  "sub_hal_lines name = line ''  Name: '' name @ line ''  Debug dump: '' []"

text \<open>The loop over the sub-HALs; \<open>stream\<close> is what the string stream holds when it is entered.\<close>

fun debug_each :: "'h dump_api \<Rightarrow> int \<Rightarrow> hidl_handle \<Rightarrow> string \<Rightarrow> 'h list \<Rightarrow> fd_table \<Rightarrow> (string \<times> 'h list \<times> fd_table) outcome" where
  "debug_each api writeFd fd stream [] io = Returns (stream, [], io)"
| "debug_each api writeFd fd stream (subHal # subHals) io =
     and_then
       (dump_debug api fd [] subHal (fd_write writeFd (stream @ sub_hal_lines (dump_getName api subHal)) io))
       (\<lambda>(subHal, io). and_then (debug_each api writeFd fd [newline] subHals io)
          (\<lambda>(stream, subHals, io). Returns (stream, subHal # subHals, io)))"

definition HalProxy_debug ::
  "'h dump_api \<Rightarrow> int \<Rightarrow> hidl_handle \<Rightarrow> string list \<Rightarrow> 'h HalProxy \<Rightarrow> fd_table \<Rightarrow> ('h HalProxy \<times> fd_table) outcome" where
  "HalProxy_debug api now fd args p io =
     (case fd of
        None \<Rightarrow> Returns (p, io)
      | Some [] \<Rightarrow> Returns (p, io)
      | Some (d # ds) \<Rightarrow>
          (let (writeFd, io) = fd_dup d io
           in and_then (debug_each api writeFd fd (internal_values now p) (mSubHalList p) io)
                (\<lambda>(stream, subHals, io). Returns (p\<lparr>mSubHalList := subHals\<rparr>, fd_write writeFd stream io))))"

section \<open>Descriptors in use\<close>

definition fds_ok :: "fd_table \<Rightarrow> bool" where
  "fds_ok io \<longleftrightarrow> distinct (map fst (fds io)) \<and> fst ` set (fds io) \<subseteq> int ` {..<fd_limit io}"

definition spare :: "fd_table \<Rightarrow> nat" where
  "spare io = fd_limit io - length (fds io)"

lemma card_int_below: "card (int ` {..<n}) = n"
  by (simp add: card_image)

lemma fds_bounded:
  assumes "fds_ok io"
  shows "length (fds io) \<le> fd_limit io"
proof -
  have "card (set (map fst (fds io))) \<le> card (int ` {..<fd_limit io})"
    using assms by (intro card_mono) (auto simp: fds_ok_def)
  then show ?thesis
    using assms unfolding fds_ok_def by (simp only: distinct_card card_int_below length_map)
qed

text \<open>There is a number to take exactly while descriptors are spare.\<close>

lemma free_number:
  assumes "fds_ok io"
  shows "find (\<lambda>n. map_of (fds io) (int n) = None) [0..<fd_limit io] = None \<longleftrightarrow> spare io = 0"
proof -
  let ?K = "set (map fst (fds io))" and ?A = "int ` {..<fd_limit io}"
  have K: "?K \<subseteq> ?A"
    using assms by (simp add: fds_ok_def)
  have c: "card ?K = length (fds io)"
    using assms unfolding fds_ok_def by (simp only: distinct_card length_map)
  have "?A \<subseteq> ?K \<longleftrightarrow> ?A = ?K"
    using K by blast
  also have "\<dots> \<longleftrightarrow> card ?A = card ?K"
    using K card_subset_eq [of ?A ?K] by auto
  finally have "?A \<subseteq> ?K \<longleftrightarrow> spare io = 0"
    using fds_bounded [OF assms] unfolding c card_int_below spare_def by linarith
  then show ?thesis
    by (auto simp: find_None_iff map_of_eq_None_iff image_subset_iff)
qed

lemma dup_fails: "fds_ok io \<Longrightarrow> spare io = 0 \<Longrightarrow> fd_dup fd io = (- 1, io)"
  using free_number [of io] by (simp add: fd_dup_def split: option.split)

lemma dup_works:
  assumes "fds_ok io" and "map_of (fds io) fd = Some file" and "0 < spare io"
  obtains n where "fd_dup fd io = (int n, io\<lparr>fds := (int n, file) # fds io\<rparr>)" and "map_of (fds io) (int n) = None"
    and "n < fd_limit io"
proof -
  obtain n where "find (\<lambda>n. map_of (fds io) (int n) = None) [0..<fd_limit io] = Some n"
    using free_number [OF assms(1)] assms(3) by auto
  moreover from this have "map_of (fds io) (int n) = None" "n < fd_limit io"
    by (auto simp: find_Some_iff)
  ultimately show ?thesis
    using that [of n] assms(2) by (simp add: fd_dup_def)
qed

lemma ok_after_dup:
  assumes "fds_ok io" and "map_of (fds io) (int n) = None" and "n < fd_limit io"
  shows "fds_ok (io\<lparr>fds := (int n, file) # fds io\<rparr>)" and "spare (io\<lparr>fds := (int n, file) # fds io\<rparr>) = spare io - 1"
  using assms by (auto simp: fds_ok_def spare_def map_of_eq_None_iff)

lemma write_keeps [simp]:
  "fds (fd_write fd t io) = fds io" "fd_limit (fd_write fd t io) = fd_limit io" "fds_ok (fd_write fd t io) = fds_ok io"
  "spare (fd_write fd t io) = spare io"
  by (simp_all add: fd_write_def fds_ok_def spare_def split: option.split)

lemma close_fresh: "map_of (fds io) (int n) = None \<Longrightarrow> [e \<leftarrow> fds io. fst e \<noteq> int n] = fds io"
  by (force simp: map_of_eq_None_iff filter_id_conv)

lemma write_write: "fd_write fd t' (fd_write fd t io) = fd_write fd (t @ t') io"
  by (simp add: fd_write_def split: option.split)

lemma write_same: "map_of (fds io) a = map_of (fds io) b \<Longrightarrow> fd_write a t io = fd_write b t io"
  by (simp add: fd_write_def)

text \<open>A stream on a duplicate of \<open>d\<close>, once closed, has written to the file of \<open>d\<close>.\<close>

lemma write_through_dup:
  assumes "map_of (fds io) d = Some file" and "map_of (fds io) (int n) = None"
  shows "fd_close (int n) (fd_write (int n) t (io\<lparr>fds := (int n, file) # fds io\<rparr>)) = fd_write d t io"
  using assms by (simp add: fd_write_def fd_close_def close_fresh)

section \<open>The dump of a sub-HAL\<close>

definition sensors_shown :: "SensorsSubHal \<Rightarrow> string" where
  "sensors_shown h =
     c_str (''Available sensors:'' @ [newline] @ concat (map sensor_lines (SensorsSubHal_getSensorsList h)) @ [newline])"

definition args_note :: "string list \<Rightarrow> string" where
  "args_note args = (if args \<noteq> [] then ''Note: sub-HAL '' @ SensorsSubHal_getName
     @ '' currently does not support args. Input arguments are ignored.'' @ [newline] else [])"

lemma sub_hal_dump:
  assumes "fds_ok io" and "map_of (fds io) d = Some file" and "0 < spare io"
  shows "SensorsSubHal_debug (Some (d # ds)) args h io = Returns (fd_write d (args_note args @ sensors_shown h) io)"
proof -
  obtain n where n: "fd_dup d io = (int n, io\<lparr>fds := (int n, file) # fds io\<rparr>)" "map_of (fds io) (int n) = None"
    using dup_works [OF assms] by metis
  have e: "concat (map (\<lambda>sensor. sensor_lines (Sensor_getSensorInfo (snd sensor))) (RBT.entries (shSensors h)))
      = concat (map sensor_lines (SensorsSubHal_getSensorsList h))"
    by (simp add: Sensor_getSensorInfo_def SensorsSubHal_getSensorsList_def comp_def)
  show ?thesis
    unfolding SensorsSubHal_debug_def option.case list.case n(1) Let_def prod.case e args_note_def [symmetric]
    by (simp only: write_through_dup [OF assms(2) n(2)] sensors_shown_def append_assoc) simp
qed

lemma sub_hal_starved:
  assumes "fds_ok io" and "spare io = 0"
  shows "SensorsSubHal_debug (Some (d # ds)) args h io = Undefined_behaviour"
  using dup_fails [OF assms] by (simp add: SensorsSubHal_debug_def)

section \<open>What the proxy's dump needs\<close>

text \<open>All that one dump of the proxy writes, when \<open>shown\<close> is what each sub-HAL's dump does.\<close>

definition dump_report :: "'h dump_api \<Rightarrow> ('h \<Rightarrow> string) \<Rightarrow> int \<Rightarrow> 'h HalProxy \<Rightarrow> string" where
  "dump_report api shown now p = internal_values now p
     @ concat (map (\<lambda>h. sub_hal_lines (dump_getName api h) @ shown h @ [newline]) (mSubHalList p))"

locale dumps =
  fixes api :: "'h dump_api" and shown :: "'h \<Rightarrow> string"
  assumes shows_all: "fds_ok io \<Longrightarrow> map_of (fds io) d = Some file \<Longrightarrow> 0 < spare io
      \<Longrightarrow> dump_debug api (Some (d # ds)) [] h io = Returns (h, fd_write d (shown h) io)"
    and starved: "fds_ok io \<Longrightarrow> spare io = 0 \<Longrightarrow> dump_debug api (Some (d # ds)) [] h io = Undefined_behaviour"
begin

lemma each:
  assumes "fds_ok io" and "map_of (fds io) d = Some file" and "map_of (fds io) w = Some file" and "0 < spare io"
  shows "\<exists>rest t. debug_each api w (Some (d # ds)) stream hs io = Returns (rest, hs, fd_write d t io)
    \<and> t @ rest = stream @ concat (map (\<lambda>h. sub_hal_lines (dump_getName api h) @ shown h @ [newline]) hs)"
  using assms
proof (induction hs arbitrary: stream io)
  case Nil
  then show ?case
    by (auto simp: fd_write_def intro!: exI [of _ "[]"])
next
  case (Cons h hs)
  let ?t = "stream @ sub_hal_lines (dump_getName api h)" and ?s = "shown h"
  let ?io = "fd_write d (?t @ ?s) io"
  have "fd_write w ?t io = fd_write d ?t io"
    using Cons.prems by (simp add: write_same)
  then have "dump_debug api (Some (d # ds)) [] h (fd_write w ?t io) = Returns (h, ?io)"
    using shows_all [of "fd_write d ?t io" d "file" ds h] Cons.prems by (simp only: write_keeps write_write)
  moreover obtain rest t where "debug_each api w (Some (d # ds)) [newline] hs ?io = Returns (rest, hs, fd_write d t ?io)"
    and "t @ rest = newline # concat (map (\<lambda>h. sub_hal_lines (dump_getName api h) @ shown h @ [newline]) hs)"
    using Cons.IH [of ?io "[newline]"] Cons.prems by auto
  ultimately show ?case
    by (auto simp: write_write intro!: exI [of _ "?t @ ?s @ t"])
qed

lemma dump:
  assumes "fds_ok io" and "map_of (fds io) d = Some file" and "1 < spare io"
  shows "\<exists>n. HalProxy_debug api now (Some (d # ds)) args p io
      = Returns (p, fd_write d (dump_report api shown now p) (io\<lparr>fds := (int n, file) # fds io\<rparr>))
    \<and> map_of (fds io) (int n) = None \<and> n < fd_limit io"
proof -
  obtain n where n: "fd_dup d io = (int n, io\<lparr>fds := (int n, file) # fds io\<rparr>)" "map_of (fds io) (int n) = None" "n < fd_limit io"
    using dup_works [OF assms(1,2)] assms(3) by (metis less_trans zero_less_one)
  let ?io = "io\<lparr>fds := (int n, file) # fds io\<rparr>"
  have d: "map_of (fds ?io) d = Some file" "map_of (fds ?io) (int n) = Some file"
    using assms(2) n(2) by auto
  have "fds_ok ?io" "0 < spare ?io"
    using ok_after_dup [OF assms(1) n(2,3)] assms(3) by simp_all
  then obtain rest t where t: "debug_each api (int n) (Some (d # ds)) (internal_values now p) (mSubHalList p) ?io
        = Returns (rest, mSubHalList p, fd_write d t ?io)" "t @ rest = dump_report api shown now p"
    using each [OF _ d] unfolding dump_report_def by blast
  have "fd_write (int n) rest (fd_write d t ?io) = fd_write d (dump_report api shown now p) ?io"
    unfolding t(2) [symmetric] write_write [symmetric] by (rule write_same) (simp only: write_keeps d)
  then show ?thesis
    using n t(1) by (auto simp: HalProxy_debug_def)
qed

lemma dump_starved:
  assumes "fds_ok io" and "map_of (fds io) d = Some file" and "spare io = 1" and "mSubHalList p \<noteq> []"
  shows "HalProxy_debug api now (Some (d # ds)) args p io = Undefined_behaviour"
proof -
  obtain n where n: "fd_dup d io = (int n, io\<lparr>fds := (int n, file) # fds io\<rparr>)" "map_of (fds io) (int n) = None" "n < fd_limit io"
    using dup_works [OF assms(1,2)] assms(3) by (metis zero_less_one)
  moreover obtain h hs where "mSubHalList p = h # hs"
    using assms(4) by (cases "mSubHalList p") auto
  ultimately show ?thesis
    using starved ok_after_dup [OF assms(1) n(2,3), of "file"] assms(3) by (simp add: HalProxy_debug_def)
qed

end

definition device_dump :: "SensorsSubHal dump_api" where
  "device_dump = \<lparr>dump_getName = (\<lambda>_. SensorsSubHal_getName),
     dump_debug = (\<lambda>fd args h io. and_then (SensorsSubHal_debug fd args h io) (\<lambda>io. Returns (h, io)))\<rparr>"

interpretation dd: dumps device_dump sensors_shown
  by unfold_locales (simp_all add: device_dump_def sub_hal_dump sub_hal_starved args_note_def)

section \<open>Dump after dump\<close>

fun dump_again :: "'h dump_api \<Rightarrow> hidl_handle \<Rightarrow> int list \<Rightarrow> 'h HalProxy \<Rightarrow> fd_table \<Rightarrow> ('h HalProxy \<times> fd_table) outcome" where
  "dump_again api fd [] p io = Returns (p, io)"
| "dump_again api fd (now # nows) p io =
     and_then (HalProxy_debug api now fd [] p io) (\<lambda>(p, io). dump_again api fd nows p io)"

text \<open>
  The proxy's dump leaks a descriptor: each one is complete and right, the proxy's own values and
  every sub-HAL with its sensors in order, but leaves the duplicate of the caller's descriptor open; so
  the dumps of a process can be counted, and the one that takes the last spare descriptor does not return:
  the sub-HAL prints to a stream it could not open.
\<close>

theorem debug_leaks_descriptor:
  assumes "fds_ok io" and "map_of (fds io) d = Some file" and "0 < spare io" and "mSubHalList p \<noteq> []"
  shows "if length nows < spare io
    then \<exists>io'. dump_again device_dump (Some [d]) nows p io = Returns (p, io')
      \<and> spare io' = spare io - length nows
      \<and> texts io' = (texts io)(file := texts io file @ concat (map (\<lambda>now. dump_report device_dump sensors_shown now p) nows))
    else dump_again device_dump (Some [d]) nows p io = Undefined_behaviour"
  using assms(1-3)
proof (induction nows arbitrary: io)
  case (Cons now nows)
  show ?case
  proof (cases "spare io = 1")
    case True
    then show ?thesis
      using dd.dump_starved [OF Cons.prems(1,2) True assms(4)] by simp
  next
    case False
    then have "1 < spare io"
      using Cons.prems(3) by simp
    then obtain n where n: "HalProxy_debug device_dump now (Some [d]) [] p io
        = Returns (p, fd_write d (dump_report device_dump sensors_shown now p) (io\<lparr>fds := (int n, file) # fds io\<rparr>))"
      "map_of (fds io) (int n) = None" "n < fd_limit io"
      using dd.dump [OF Cons.prems(1,2)] by blast
    let ?io = "fd_write d (dump_report device_dump sensors_shown now p) (io\<lparr>fds := (int n, file) # fds io\<rparr>)"
    have io: "fds_ok ?io" "spare ?io = spare io - 1" "map_of (fds ?io) d = Some file"
      "texts ?io = (texts io)(file := texts io file @ dump_report device_dump sensors_shown now p)"
      unfolding write_keeps using ok_after_dup [OF Cons.prems(1) n(2,3)] Cons.prems(2) n(2) by (auto simp: fd_write_def)
    have "0 < spare ?io"
      unfolding io(2) using \<open>1 < spare io\<close> by simp
    then show ?thesis
      using Cons.IH [OF io(1,3)] n(1) unfolding io(2,4) by (auto simp: fun_eq_iff split: if_splits)
  qed
qed (use assms in auto)

definition sample_files_io :: fd_table where
  "sample_files_io = \<lparr>fds = [(0, 7), (1, 8)], fd_limit = 4, texts = (\<lambda>_. [])\<rparr>"

lemma sample_files_ok: "fds_ok sample_files_io" "map_of (fds sample_files_io) 1 = Some 8" "spare sample_files_io = 2"
  by (auto simp: fds_ok_def sample_files_io_def spare_def image_iff)

definition dumped_sub_hal :: SensorsSubHal where
  "dumped_sub_hal = SensorsSubHal_new platform_flags (True, True, blank_sensor Udfps) (True, True, blank_sensor SingleTap)"

theorem debug_leaks_descriptor_witness:
  "let p = HalProxy_members [dumped_sub_hal] 0 0 in
   (\<exists>io'. dump_again device_dump (Some [1]) [5000000] p sample_files_io = Returns (p, io') \<and> spare io' = 1)
   \<and> dump_again device_dump (Some [1]) [5000000, 9000000] p sample_files_io = Undefined_behaviour"
  using debug_leaks_descriptor [of sample_files_io 1 8 "HalProxy_members [dumped_sub_hal] 0 0" "[5000000]"]
    debug_leaks_descriptor [of sample_files_io 1 8 "HalProxy_members [dumped_sub_hal] 0 0" "[5000000, 9000000]"]
  by (auto simp: sample_files_ok HalProxy_members_def Let_def)

section \<open>Reading a dump\<close>

definition printed_int :: "string \<Rightarrow> int" where
  "printed_int s = (case strto 10 s of None \<Rightarrow> 0 | Some (neg, n, rest) \<Rightarrow> signed_value neg n)"

fun read_sensors :: "string list \<Rightarrow> (string \<times> int \<times> int) list" where
  "read_sensors (n # m # f # ls) = (drop 6 n, printed_int (drop 11 m), printed_int (drop 7 f)) # read_sensors ls"
| "read_sensors ls = []"

definition read_dump :: "string \<Rightarrow> (string \<times> int \<times> int) list" where
  "read_dump t = read_sensors (tl (dropWhile (\<lambda>l. l \<noteq> ''Available sensors:'') (file_lines t)))"

lemma printed_decimal [simp]: "printed_int (decimal i) = i"
  using strto_decimal [of "[]" i] by (simp add: printed_int_def stops_def signed_value_def)

lemma lines_from_line: "newline \<notin> set l \<Longrightarrow> lines_from a (l @ newline # rest) = (a @ l) # lines_from [] rest"
  by (induction l arbitrary: a) auto

lemma file_lines_line: "newline \<notin> set l \<Longrightarrow> file_lines (l @ newline # rest) = l # file_lines rest"
  by (simp add: file_lines_def lines_from_line)

lemma decimal_one_line: "newline \<notin> set (decimal i)" "nul \<notin> set (decimal i)"
proof -
  have "newline \<notin> set (decimal_nat n)" "nul \<notin> set (decimal_nat n)" for n
    using decimal_nat_is_digit [of newline n] decimal_nat_is_digit [of nul n] by (auto simp: is_digit_def digit_val_def)
  then show "newline \<notin> set (decimal i)" "nul \<notin> set (decimal i)"
    by (simp_all add: decimal_def)
qed

lemma whole_c_str: "nul \<notin> set s \<Longrightarrow> c_str s = s"
  by (auto simp: c_str_def takeWhile_eq_all_conv)

lemma sensor_lines_read:
  assumes "newline \<notin> set (si_name i)"
  shows "file_lines (sensor_lines i @ rest) = (''Name: '' @ si_name i) # (''Min delay: '' @ decimal (sint (si_minDelay i)))
    # (''Flags: '' @ decimal (uint (si_flags i))) # file_lines rest"
  using file_lines_line [of "''Name: '' @ si_name i"] file_lines_line [of "''Min delay: '' @ decimal (sint (si_minDelay i))"]
    file_lines_line [of "''Flags: '' @ decimal (uint (si_flags i))"] assms decimal_one_line
  by (simp add: sensor_lines_def)

lemma sensors_read:
  assumes "\<forall>i \<in> set is. newline \<notin> set (si_name i)"
  shows "read_sensors (file_lines (concat (map sensor_lines is) @ [newline]))
    = map (\<lambda>i. (si_name i, sint (si_minDelay i), uint (si_flags i))) is"
  using assms
proof (induction "is")
  case Nil
  then show ?case
    using file_lines_line [of "[]" "[]"] by (simp add: file_lines_def)
next
  case (Cons i "is")
  then show ?case
    by (simp add: sensor_lines_read)
qed

text \<open>
  C37: A sub-HAL's dump is complete: whatever the arguments, it goes to the file of the caller's
  descriptor, leaves all descriptors as they were, and its text reads back to the name, the minimal delay
  and the flags of every sensor the sub-HAL lists, in their order, provided that no name breaks
  a line or holds a NUL.
\<close>

theorem dump_reads_back:
  assumes "fds_ok io" and "map_of (fds io) d = Some file" and "0 < spare io"
    and "\<forall>i \<in> set (SensorsSubHal_getSensorsList h). newline \<notin> set (si_name i) \<and> nul \<notin> set (si_name i)"
  shows "\<exists>t. SensorsSubHal_debug (Some (d # ds)) args h io = Returns (io\<lparr>texts := (texts io)(file := texts io file @ t)\<rparr>)
    \<and> read_dump t = map (\<lambda>i. (si_name i, sint (si_minDelay i), uint (si_flags i))) (SensorsSubHal_getSensorsList h)"
proof -
  have args: "read_dump (args_note args @ t) = read_dump t" for t
    using file_lines_line [of "''Note: sub-HAL FakeSubHal currently does not support args. Input arguments are ignored.''"]
    by (simp add: read_dump_def args_note_def SensorsSubHal_getName_def)
  have "file_lines (sensors_shown h)
      = ''Available sensors:'' # file_lines (concat (map sensor_lines (SensorsSubHal_getSensorsList h)) @ [newline])"
    using file_lines_line [of "''Available sensors:''"] assms(4)
    by (subst sensors_shown_def, subst whole_c_str) (auto simp: sensor_lines_def decimal_one_line)
  then have "read_dump (args_note args @ sensors_shown h)
      = map (\<lambda>i. (si_name i, sint (si_minDelay i), uint (si_flags i))) (SensorsSubHal_getSensorsList h)"
    unfolding args using sensors_read assms(4) by (simp add: read_dump_def)
  moreover have "SensorsSubHal_debug (Some (d # ds)) args h io
      = Returns (io\<lparr>texts := (texts io)(file := texts io file @ args_note args @ sensors_shown h)\<rparr>)"
    using sub_hal_dump [OF assms(1-3)] assms(2) by (simp add: fd_write_def)
  ultimately show ?thesis
    by blast
qed

lemma dumped_names:
  "\<forall>i \<in> set (SensorsSubHal_getSensorsList dumped_sub_hal). newline \<notin> set (si_name i) \<and> nul \<notin> set (si_name i)"
  by (simp add: SensorsSubHal_getSensorsList_def dumped_sub_hal_def SensorsSubHal_new_def AddSensor_def sensor_new_defs
      Let_def RBT.entries_def RBT.insert.rep_eq RBT.empty.rep_eq rbt_insert_def rbt_insert_with_key_def)

theorem dump_reads_back_witness:
  "\<exists>t. SensorsSubHal_debug (Some [1]) [''-v''] dumped_sub_hal sample_files_io
     = Returns (sample_files_io\<lparr>texts := (texts sample_files_io)(8 := texts sample_files_io 8 @ t)\<rparr>)
   \<and> map fst (read_dump t) = map si_name (SensorsSubHal_getSensorsList dumped_sub_hal)"
proof -
  have "0 < spare sample_files_io"
    by (simp add: sample_files_ok)
  from dump_reads_back [OF sample_files_ok(1,2) this dumped_names, of "[]" "[''-v'']"] show ?thesis
    by (force simp: comp_def)
qed

end
