(* ===== verification/Charging_Props.thy ===== *)
theory Charging_Props
  imports Charging
begin

text \<open>
  What the charging limit does: the current it allows as a function of the temperature, that it
  settles, and how its threads come and go.
\<close>

section \<open>The policy\<close>

text \<open>The allowed current in mA by charger and temperature in thousandths of a degree.\<close>

definition allowed_current :: "ChargeStatus \<Rightarrow> int \<Rightarrow> int" where
  "allowed_current c t =
     (if usbChgActive c \<and> usingPps c
      then if t < 35000 then 9000 else if t < 37000 then 7000 else if t < 39000 then 6000
           else if t < 41000 then 4000 else if t < 43000 then 3000 else if t < 48000 then 2000 else 0
      else if usbChgActive c
      then if t < 35000 then 9000 else if t < 37000 then 5000 else if t < 39000 then 3000
           else if t < 41000 then 2000 else if t < 48000 then 1600 else 0
      else if wlsChgActive c
      then if t < 35000 then 9000 else if t < 41000 then 2000 else if t < 48000 then 1000 else 0
      else 9000)"

lemmas charge_tables = CHG_VOLT_TBL_def ppsTempThresholds_def ppsVoltLimit_def qcTempThresholds_def
  qcVoltLimit_def wlsTempThresholds_def wlsVoltLimit_def

lemma limit_index_allowed:
  "\<exists>i. limit_index t (get_charge_tempThresholds c) (get_charge_voltLimits c) 0 0 = Returns i
     \<and> i < length CHG_VOLT_TBL \<and> sint (CHG_VOLT_TBL ! i) = allowed_current c (sint t)"
  by (simp add: get_charge_tempThresholds_def get_charge_voltLimits_def allowed_current_def charge_tables)

lemma allowed_antitone: "t \<le> t' \<Longrightarrow> allowed_current c t' \<le> allowed_current c t"
  by (simp add: allowed_current_def)

lemma limit_pass_result:
  assumes "stoi (read_line fs BATTERY_SCENARIO_FCC) = Returns last_limit" and "get_charge_temp fs tdir c = Returns t"
    and "open_errno e = None" and "write_errno e = None"
  shows "limit_pass fs tdir e c c c
    = Returns (if allowed_current c (sint t) = sint last_limit then []
        else [(BATTERY_SCENARIO_FCC, decimal (allowed_current c (sint t)) @ [nul])])"
proof -
  obtain i where i: "limit_index t (get_charge_tempThresholds c) (get_charge_voltLimits c) 0 0 = Returns i"
      "i < length CHG_VOLT_TBL" "sint (CHG_VOLT_TBL ! i) = allowed_current c (sint t)"
    using limit_index_allowed by blast
  then have "CHG_VOLT_TBL ! i \<noteq> last_limit \<longleftrightarrow> allowed_current c (sint t) \<noteq> sint last_limit"
    by (simp add: word_eq_sint_iff)
  then show ?thesis
    using assms i by (simp add: limit_pass_def write_value_int_def write_value_def Let_def)
qed

text \<open>
  C27: One pass of the limit implements the temperature policy: with the members unchanged during the
  pass and both values readable it never leaves its tables, writes the current the policy allows
  exactly when the node shows another one, and a higher temperature never allows more.
\<close>

theorem charge_limit_policy:
  assumes "stoi (read_line fs BATTERY_SCENARIO_FCC) = Returns last_limit" and "get_charge_temp fs tdir c = Returns t"
    and "open_errno e = None" and "write_errno e = None"
  shows "limit_pass fs tdir e c c c
      = Returns (if allowed_current c (sint t) = sint last_limit then []
          else [(BATTERY_SCENARIO_FCC, decimal (allowed_current c (sint t)) @ [nul])])
    \<and> (sint t \<le> t' \<longrightarrow> allowed_current c t' \<le> allowed_current c (sint t))"
  using limit_pass_result [OF assms] allowed_antitone by blast

definition sample_status :: "bool \<Rightarrow> bool \<Rightarrow> ChargeStatus" where
  "sample_status usb pps = \<lparr>mStatus = 2, usbChgActive = usb, usingPps = pps, wlsChgActive = False, enableChgLimit = True\<rparr>"

text \<open>A phone with one thermal zone: the battery at the temperature \<open>t\<close>; the node shows \<open>fcc\<close>.\<close>

definition sample_files :: "int \<Rightarrow> int \<Rightarrow> files" where
  "sample_files t fcc = (\<lambda>p.
     if p = BATTERY_SCENARIO_FCC then Some (decimal fcc @ [newline])
     else if p = ''/sys/class/thermal/thermal_zone3/type'' then Some ''battery''
     else if p = ''/sys/class/thermal/thermal_zone3/temp'' then Some (decimal t @ [newline]) else None)"

definition fine_env :: write_env where
  "fine_env = \<lparr>open_errno = None, write_errno = None\<rparr>"

lemma decimal_no_newline: "takeWhile (\<lambda>c. c \<noteq> newline) (decimal i @ newline # rest) = decimal i"
proof -
  have "c \<noteq> newline" if "c \<in> set (decimal i)" for c
  proof -
    have "c = CHR ''-'' \<or> is_digit 10 c"
      using that decimal_nat_is_digit by (auto simp: decimal_def split: if_splits)
    then show ?thesis by (auto simp: is_digit_def digit_val_def)
  qed
  then show ?thesis by (subst takeWhile_append2) auto
qed

lemma stoi_line: "stoi (decimal (sint (w :: s32))) = Returns w"
  using stoi_decimal [of "[]" w] by (simp add: stops_def)

lemma sample_temp:
  "get_charge_temp (sample_files (sint (t :: s32)) fcc) (Some [''thermal_zone3'']) (sample_status True pps) = Returns t"
proof -
  let ?fs = "sample_files (sint t) fcc"
  have zone: "read_line ?fs ''/sys/class/thermal/thermal_zone3/type'' = ''battery''"
      "read_line ?fs ''/sys/class/thermal/thermal_zone3/temp'' = decimal (sint t)"
    by (simp_all add: read_line_def sample_files_def BATTERY_SCENARIO_FCC_def first_line_def decimal_no_newline)
  have "decimal 3 = ''3''"
    by (simp add: decimal_def decimal_nat.simps digit_char_def char_of_def bit_0)
  moreover have "strto 10 ''3'' = Some (False, 3, '''')"
    by (simp add: strto_def sign_split_def skip_0x_def c_space_def is_digit_def digit_val_def number_def Let_def)
  ultimately show ?thesis
    using zone stoi_line [of t]
    by (simp add: get_charge_temp_def sample_status_def sensor_or_def get_tzn_def starts_with_def TZ_DIR_NAME_def
        THERMAL_SYSFS_def snprintf_def MAX_PATH_def temp_path_def signed_value_def Let_def)
qed

lemma sample_fcc:
  "stoi (read_line (sample_files t (sint (w :: s32))) BATTERY_SCENARIO_FCC) = Returns w"
  by (simp add: read_line_def sample_files_def first_line_def decimal_no_newline stoi_line)

theorem charge_limit_policy_witness:
  "limit_pass (sample_files (sint (42000 :: s32)) (sint (9000 :: s32))) (Some [''thermal_zone3'']) fine_env
     (sample_status True True) (sample_status True True) (sample_status True True)
   = Returns [(BATTERY_SCENARIO_FCC, decimal 3000 @ [nul])]"
proof -
  have e: "open_errno fine_env = None" "write_errno fine_env = None"
    by (simp_all add: fine_env_def)
  have "allowed_current (sample_status True True) (sint (42000 :: s32)) = 3000"
    by (simp add: allowed_current_def sample_status_def)
  then show ?thesis
    using charge_limit_policy [OF sample_fcc [of "sint (42000 :: s32)" 9000]
        sample_temp [of 42000 "sint (9000 :: s32)" True] e, of 0] by simp
qed

section \<open>The limit settles\<close>

lemma read_other: "g p = fs p \<Longrightarrow> read_line g p = read_line fs p"
  by (simp add: read_line_def)

lemma thermal_not_fcc: "snprintf (THERMAL_SYSFS @ p) \<noteq> BATTERY_SCENARIO_FCC"
  by (simp add: snprintf_def THERMAL_SYSFS_def BATTERY_SCENARIO_FCC_def MAX_PATH_def)

lemma temp_unaffected:
  assumes "\<And>p. p \<noteq> BATTERY_SCENARIO_FCC \<Longrightarrow> g p = fs p"
  shows "get_charge_temp g tdir c = get_charge_temp fs tdir c"
proof -
  have tz: "read_line g (snprintf (THERMAL_SYSFS @ p)) = read_line fs (snprintf (THERMAL_SYSFS @ p))" for p
    by (rule read_other) (rule assms [OF thermal_not_fcc])
  then have "read_line g (snprintf (THERMAL_SYSFS @ d @ ''/'' @ ''type'')) = read_line fs (snprintf (THERMAL_SYSFS @ d @ ''/'' @ ''type''))" for d
    by blast
  then have "find_tz g n ds = find_tz fs n ds" for n ds
    by (induction ds) (simp_all add: Let_def)
  then have "get_tzn g tdir n = get_tzn fs tdir n" for n
    by (simp add: get_tzn_def split: option.split)
  moreover have "read_line g (temp_path z) = read_line fs (temp_path z)" for z
    unfolding temp_path_def by (rule tz)
  ultimately show ?thesis
    by (simp add: get_charge_temp_def sensor_or_def Let_def)
qed

text \<open>
  The limit settles in one pass: when the node then shows the line that was written, the next pass
  at the same temperature writes nothing, whatever stood in the node before.
\<close>

theorem charge_limit_settles:
  assumes "stoi (read_line fs BATTERY_SCENARIO_FCC) = Returns last_limit" and "get_charge_temp fs tdir c = Returns t"
    and "open_errno e = None" and "write_errno e = None" and "limit_pass fs tdir e c c c = Returns [(node, text @ [nul])]"
  shows "limit_pass (fs(node := Some (text @ newline # rest))) tdir e c c c = Returns []"
proof -
  let ?v = "allowed_current c (sint t)"
  have w: "node = BATTERY_SCENARIO_FCC" "text = decimal ?v"
    using limit_pass_result [OF assms(1-4)] assms(5) by (auto split: if_splits)
  obtain i where i: "sint (CHG_VOLT_TBL ! i) = ?v"
    using limit_index_allowed by blast
  let ?fs = "fs(BATTERY_SCENARIO_FCC := Some (decimal ?v @ newline # rest))"
  have "stoi (read_line ?fs BATTERY_SCENARIO_FCC) = Returns (CHG_VOLT_TBL ! i)"
    using stoi_line [of "CHG_VOLT_TBL ! i"] i
    by (simp add: read_line_def first_line_def decimal_no_newline)
  moreover have "get_charge_temp ?fs tdir c = Returns t"
    using assms(2) temp_unaffected [of ?fs fs tdir c] by simp
  ultimately show ?thesis
    using limit_pass_result [of ?fs "CHG_VOLT_TBL ! i" tdir c t e] assms(3,4) i w by simp
qed

theorem charge_limit_settles_witness:
  "limit_pass ((sample_files (sint (42000 :: s32)) (sint (9000 :: s32)))(BATTERY_SCENARIO_FCC := Some (decimal 3000 @ [newline])))
     (Some [''thermal_zone3'']) fine_env (sample_status True True) (sample_status True True) (sample_status True True)
   = Returns []"
proof -
  have e: "open_errno fine_env = None" "write_errno fine_env = None"
    by (simp_all add: fine_env_def)
  have "allowed_current (sample_status True True) (sint (42000 :: s32)) = 3000"
    by (simp add: allowed_current_def sample_status_def)
  then have "limit_pass (sample_files (sint (42000 :: s32)) (sint (9000 :: s32))) (Some [''thermal_zone3'']) fine_env
      (sample_status True True) (sample_status True True) (sample_status True True)
      = Returns [(BATTERY_SCENARIO_FCC, decimal 3000 @ [nul])]"
    using limit_pass_result [OF sample_fcc [of "sint (42000 :: s32)" 9000]
        sample_temp [of 42000 "sint (9000 :: s32)" True] e] by simp
  from charge_limit_settles [OF sample_fcc [of "sint (42000 :: s32)" 9000]
      sample_temp [of 42000 "sint (9000 :: s32)" True] e this, of "[]"]
  show ?thesis by simp
qed

section \<open>Threads\<close>

datatype charging_event = Health s32 files | Wakes files "string list option" write_env

fun charging_step :: "s32 \<Rightarrow> charging_event \<Rightarrow> charging \<Rightarrow> charging outcome" where
  "charging_step CHARGING (Health st fs) s = healthInfoChanged CHARGING fs st s"
| "charging_step CHARGING (Wakes fs tdir e) s = limiter_wakes fs tdir e s"

fun charging_run :: "s32 \<Rightarrow> charging_event list \<Rightarrow> charging \<Rightarrow> charging outcome" where
  "charging_run CHARGING [] s = Returns s"
| "charging_run CHARGING (x # xs) s = and_then (charging_step CHARGING x s) (charging_run CHARGING xs)"

lemma health_leaves:
  assumes "st \<noteq> CHARGING" and "st \<noteq> mStatus (status s)" and "healthInfoChanged CHARGING fs st s = Returns s'"
  shows "limiters s' = limiters s \<and> mStatus (status s') = st"
  using assms by (auto simp: healthInfoChanged_def Let_def)

lemma health_enters:
  assumes "mStatus (status s) \<noteq> CHARGING" and "healthInfoChanged CHARGING fs CHARGING s = Returns s'"
  shows "limiters s' = limiters s + 1"
  using assms by (auto simp: healthInfoChanged_def Let_def)

lemma limiter_passes:
  assumes "enableChgLimit (status s)" and "limiter_wakes fs tdir e s = Returns s'"
  shows "limiters s' = limiters s"
  using assms by (auto simp: limiter_wakes_def split: if_splits)

definition limiter_inv :: "s32 \<Rightarrow> charging \<Rightarrow> bool" where
  "limiter_inv CHARGING s \<longleftrightarrow> (enableChgLimit (status s) \<longrightarrow> 0 < limiters s \<and> mStatus (status s) = CHARGING)"

lemma limiter_inv_step:
  "limiter_inv CHARGING s \<Longrightarrow> charging_step CHARGING x s = Returns s' \<Longrightarrow> limiter_inv CHARGING s'"
  by (cases x)
    (auto simp: limiter_inv_def healthInfoChanged_def limiter_wakes_def Let_def split: if_splits)

lemma limiter_inv_run:
  "charging_run CHARGING xs s = Returns s' \<Longrightarrow> limiter_inv CHARGING s \<Longrightarrow> limiter_inv CHARGING s'"
  by (induction xs arbitrary: s) (auto intro: limiter_inv_step)

text \<open>
  While the limit is on, a thread enforces it and the battery is charging; but nothing keeps it to
  one thread: a status that leaves \<open>CHARGING\<close> and comes back before the thread's next pass leaves one
  thread more than before, and all of them stay while it charges.
\<close>

theorem limiter_threads:
  assumes "\<not> enableChgLimit (status s0)" and "charging_run CHARGING xs s0 = Returns s"
  shows "(enableChgLimit (status s) \<longrightarrow> 0 < limiters s \<and> mStatus (status s) = CHARGING)
    \<and> (mStatus (status s) = CHARGING \<longrightarrow> other \<noteq> CHARGING \<longrightarrow>
        charging_run CHARGING [Health other fs, Health CHARGING fs'] s = Returns s2 \<longrightarrow> limiters s2 = limiters s + 1)
    \<and> (enableChgLimit (status s) \<longrightarrow> charging_step CHARGING (Wakes fs tdir e) s = Returns s3 \<longrightarrow> limiters s3 = limiters s)"
proof -
  have "limiter_inv CHARGING s"
    using limiter_inv_run [OF assms(2)] assms(1) by (simp add: limiter_inv_def)
  moreover have "limiters s2 = limiters s + 1"
    if "mStatus (status s) = CHARGING" "other \<noteq> CHARGING"
      and r: "charging_run CHARGING [Health other fs, Health CHARGING fs'] s = Returns s2"
  proof -
    obtain s1 where "healthInfoChanged CHARGING fs other s = Returns s1"
        "healthInfoChanged CHARGING fs' CHARGING s1 = Returns s2"
      using r by auto
    then show ?thesis
      using health_leaves [of other CHARGING s fs s1] health_enters [of s1 CHARGING fs' s2] that by simp
  qed
  ultimately show ?thesis
    using limiter_passes by (auto simp: limiter_inv_def)
qed

definition plugged :: files where
  "plugged = (\<lambda>p. if p = USB_CHG_ONLINE then Some ''1'' else if p = WLS_CHG_ONLINE then Some ''0'' else None)"

definition idle_charging :: charging where
  "idle_charging = \<lparr>status = (sample_status False False)\<lparr>mStatus := 3, enableChgLimit := False\<rparr>, limiters = 0, writes = []\<rparr>"

theorem limiter_threads_witness:
  "\<exists>s2. charging_run 2 [Health 2 plugged, Health 3 plugged, Health 2 plugged] idle_charging = Returns s2 \<and> limiters s2 = 2"
proof -
  have on: "stoi (read_line plugged USB_CHG_ONLINE) = Returns 1" "stoi (read_line plugged WLS_CHG_ONLINE) = Returns 0"
    by (simp_all add: read_line_def plugged_def USB_CHG_ONLINE_def WLS_CHG_ONLINE_def first_line_def stoi_def strto_def
        sign_split_def skip_0x_def c_space_def is_digit_def digit_val_def number_def signed_value_def Let_def)
  obtain s where s: "charging_run 2 [Health 2 plugged] idle_charging = Returns s"
      "limiters s = 1" "mStatus (status s) = 2"
    by (simp add: healthInfoChanged_def on idle_charging_def sample_status_def Let_def)
  obtain s2 where s2: "charging_run 2 [Health 3 plugged, Health 2 plugged] s = Returns s2"
    using s(3) by (simp add: healthInfoChanged_def on Let_def)
  have "\<not> enableChgLimit (status idle_charging)"
    by (simp add: idle_charging_def)
  from limiter_threads [OF this s(1), of 3 plugged plugged s2] s s2
  have "limiters s2 = 2"
    by simp
  moreover have "charging_run 2 [Health 2 plugged, Health 3 plugged, Health 2 plugged] idle_charging = Returns s2"
    using s(1) s2 by simp
  ultimately show ?thesis by blast
qed

text \<open>
  A status change in the middle of a pass is fatal at 48 degrees: when \<open>usingPps\<close> falls between the
  reading of the thresholds and of the limits, the sixth threshold has no limit and the pass reads
  past the end of the list.
\<close>

theorem torn_tables_undefined:
  assumes "stoi (read_line fs BATTERY_SCENARIO_FCC) = Returns last_limit" and "get_charge_temp fs tdir c = Returns t"
    and "48000 \<le> sint t" and "usbChgActive c" and "usingPps c"
  shows "limit_pass fs tdir e c c (c\<lparr>usingPps := False\<rparr>) = Undefined_behaviour"
  using assms
  by (simp add: limit_pass_def get_charge_tempThresholds_def get_charge_voltLimits_def charge_tables)

theorem torn_tables_undefined_witness:
  "limit_pass (sample_files (sint (48000 :: s32)) (sint (0 :: s32))) (Some [''thermal_zone3'']) fine_env
     (sample_status True True) (sample_status True True) ((sample_status True True)\<lparr>usingPps := False\<rparr>) = Undefined_behaviour"
  using torn_tables_undefined [OF sample_fcc [of "sint (48000 :: s32)" 0] sample_temp [of 48000 "sint (0 :: s32)" True]]
  by (simp add: sample_status_def)

end
