(* ===== verification/Vibrator_Life.thy ===== *)
theory Vibrator_Life
  imports Vibrator
begin

text \<open>
  The vibrator service over its life: every request of the interface \<open>vibrator/Vibrator.h\<close> overrides, the
  runs of requests that do not end in undefined behaviour, and what holds along them: at which amplitude
  effects are played and how long the completion threads sleep.
\<close>

section \<open>Requests\<close>

datatype vibrator_request =
    GetCapabilities | OffRequest | OnRequest s32 bool | PerformRequest s32 s32 bool | GetSupportedEffects
  | AmplitudeRequest real | OtherRequest other_request

fun vibrator_apply ::
  "'v aac_library \<Rightarrow> effect_codes \<Rightarrow> bool \<Rightarrow> (real \<Rightarrow> real \<Rightarrow> real) \<Rightarrow> vibrator_request \<Rightarrow> 'v vibrator
   \<Rightarrow> (vibra_status \<times> 'v vibrator) outcome" where
  "vibrator_apply a c remap mul OffRequest s = Returns (vibrator_off a s)"
| "vibrator_apply a c remap mul (OnRequest ms cb) s = Returns (vibrator_on a ms cb s)"
| "vibrator_apply a c remap mul (PerformRequest effect es cb) s =
     (let r = vibrator_perform a c remap effect es cb s in Returns (fst (fst r), snd r))"
| "vibrator_apply a c remap mul (AmplitudeRequest amplitude) s = vibrator_setAmplitude a mul amplitude s"
| "vibrator_apply a c remap mul (OtherRequest r) s = Returns (vibrator_other r s)"
| "vibrator_apply a c remap mul GetCapabilities s = Returns (VOk, s)"
| "vibrator_apply a c remap mul GetSupportedEffects s = Returns (VOk, s)"

fun vibrator_run ::
  "'v aac_library \<Rightarrow> effect_codes \<Rightarrow> bool \<Rightarrow> (real \<Rightarrow> real \<Rightarrow> real) \<Rightarrow> vibrator_request list \<Rightarrow> 'v vibrator
   \<Rightarrow> 'v vibrator outcome" where
  "vibrator_run a c remap mul [] s = Returns s"
| "vibrator_run a c remap mul (x # xs) s =
     and_then (vibrator_apply a c remap mul x s) (\<lambda>r. vibrator_run a c remap mul xs (snd r))"

text \<open>An invariant of every request holds along every run.\<close>

lemma vibrator_run_inv:
  assumes "\<And>x s r s'. x \<in> set xs \<Longrightarrow> I s \<Longrightarrow> vibrator_apply a c remap mul x s = Returns (r, s') \<Longrightarrow> I s'"
    and "I s" and "vibrator_run a c remap mul xs s = Returns s'"
  shows "I s'"
  using assms
proof (induction xs arbitrary: s)
  case (Cons x xs)
  then obtain r t where t: "vibrator_apply a c remap mul x s = Returns (r, t)" "vibrator_run a c remap mul xs t = Returns s'"
    by auto
  show ?case
    by (rule Cons.IH [OF _ Cons.prems(1) [OF _ Cons.prems(2) t(1)] t(2)]) (use Cons.prems(1) in auto)
qed simp

lemma lib_call_frame [simp]:
  "sLastMode (snd (lib_call k f s)) = sLastMode s" "completions (snd (lib_call k f s)) = completions s"
  by (simp_all add: lib_call_def case_prod_beta)

section \<open>Amplitudes\<close>

text \<open>
  What can be said of the amplitude of the library from the requests it accepted: full (or never set), that of
  a stream, or that of a stream which the service has tried to reset in vain, or has stopped tracking, since.
\<close>

datatype amplitude = Full | Stream | Not_reset

text \<open>
  The calls the library has heard, replayed on it: its state, the amplitude, and whether every effect so far was
  started at another amplitude than that of a stream. A status other than 0 refuses an amplitude, a negative one a
  vibration.
\<close>

fun lib_after :: "'v aac_library \<Rightarrow> vibra_call \<Rightarrow> 'v \<Rightarrow> 'v" where
  "lib_after a InitCall v = snd (aac_vibra_init a v)"
| "lib_after a LooperStart v = aac_vibra_looper_start a v"
| "lib_after a StopPerformHe v = snd (aac_vibra_looper_stopPerformHe a v)"
| "lib_after a Off v = snd (aac_vibra_off a v)"
| "lib_after a (LooperOn ms) v = snd (aac_vibra_looper_on a ms v)"
| "lib_after a (SetAmplitude x) v = snd (aac_vibra_setAmplitude a x v)"
| "lib_after a (Prebaked i k) v = snd (aac_vibra_looper_prebaked_effect a i k v)"

fun amplitude_after :: "'v aac_library \<Rightarrow> vibra_call \<Rightarrow> 'v \<Rightarrow> amplitude \<Rightarrow> amplitude" where
  "amplitude_after a (SetAmplitude x) v m =
     (if fst (aac_vibra_setAmplitude a x v) = 0 then if x = 0xFF then Full else Stream
      else if x = 0xFF \<and> m = Stream then Not_reset else m)"
| "amplitude_after a (LooperOn ms) v m =
     (if 0 \<le> sint (fst (aac_vibra_looper_on a ms v)) \<and> m = Stream then Not_reset else m)"
| "amplitude_after a _ v m = m"

fun starts_effect :: "vibra_call \<Rightarrow> bool" where
  "starts_effect (Prebaked i k) = True"
| "starts_effect _ = False"

definition hears :: "'v aac_library \<Rightarrow> vibra_call \<Rightarrow> 'v \<times> amplitude \<times> bool \<Rightarrow> 'v \<times> amplitude \<times> bool" where
  "hears a c r = (case r of (v, m, ok) \<Rightarrow>
     (lib_after a c v, amplitude_after a c v m, ok \<and> (starts_effect c \<longrightarrow> m \<noteq> Stream)))"

definition heard :: "'v aac_library \<Rightarrow> 'v \<Rightarrow> vibra_call list \<Rightarrow> 'v \<times> amplitude \<times> bool" where
  "heard a v calls = fold (hears a) calls (v, Full, True)"

lemma heard_simps [simp]:
  "heard a v [] = (v, Full, True)" "heard a v (xs @ [x]) = hears a x (heard a v xs)"
  by (simp_all add: heard_def)

text \<open>What the service and the library have in common after the calls, and the mode the service remembers.\<close>

definition tracks :: "'v aac_library \<Rightarrow> 'v \<Rightarrow> amplitude \<Rightarrow> 'v vibrator \<Rightarrow> bool" where
  "tracks a v m s \<longleftrightarrow> heard a v (lib_calls s) = (lib s, m, True)"

definition amplitude_inv :: "'v aac_library \<Rightarrow> 'v \<Rightarrow> 'v vibrator \<Rightarrow> bool" where
  "amplitude_inv a v s \<longleftrightarrow> (\<exists>m. tracks a v m s \<and> (sLastMode s \<noteq> MODE_STREAM \<longrightarrow> m \<noteq> Stream))"

lemma lib_call_tracks:
  assumes "tracks a v m s" and "\<And>u. snd (f u) = lib_after a c u" and "starts_effect c \<longrightarrow> m \<noteq> Stream"
  shows "tracks a v (amplitude_after a c (lib s) m) (snd (lib_call c f s))"
  using assms by (simp add: tracks_def hears_def lib_call_def case_prod_beta)

lemma tracks_updates [simp]:
  "tracks a v m (s\<lparr>sLastMode := x\<rparr>) = tracks a v m s" "tracks a v m (s\<lparr>completions := y\<rparr>) = tracks a v m s"
  by (simp_all add: tracks_def)

lemma lib_call_result [simp]: "fst (lib_call c f s) = fst (f (lib s))"
  by (simp add: lib_call_def case_prod_beta)

lemma quiet_call_inv:
  assumes "amplitude_inv a v s" and "\<And>u. snd (f u) = lib_after a c u" and "\<And>u m. amplitude_after a c u m = m"
    and "\<not> starts_effect c"
  shows "amplitude_inv a v (snd (lib_call c f s))"
  using assms(1) lib_call_tracks [OF _ assms(2), where v = v and s = s] assms(3,4) by (fastforce simp: amplitude_inv_def)

lemma off_amplitude: "amplitude_inv a v s \<Longrightarrow> amplitude_inv a v (snd (vibrator_off a s))"
  by (simp add: vibrator_off_def Let_def quiet_call_inv)

lemma on_amplitude:
  assumes "amplitude_inv a v s"
  shows "amplitude_inv a v (snd (vibrator_on a ms cb s))"
proof -
  obtain m where m: "tracks a v m s" "sLastMode s \<noteq> MODE_STREAM \<longrightarrow> m \<noteq> Stream"
    using assms by (auto simp: amplitude_inv_def)
  let ?n = "amplitude_after a (LooperOn ms) (lib s) m" and ?t = "snd (lib_call (LooperOn ms) (aac_vibra_looper_on a ms) s)"
  have "tracks a v ?n ?t"
    by (rule lib_call_tracks [OF m(1)]) simp_all
  moreover have "m \<noteq> Stream \<longrightarrow> ?n \<noteq> Stream" "0 \<le> sint (fst (aac_vibra_looper_on a ms (lib s))) \<longrightarrow> ?n \<noteq> Stream"
    by simp_all
  ultimately show ?thesis
    unfolding amplitude_inv_def vibrator_on_def Let_def using m(2)
    by (intro exI [of _ ?n]) (simp del: amplitude_after.simps add: not_less)
qed

lemma set_amplitude:
  assumes "amplitude_inv a v s" and "vibrator_setAmplitude a mul amplitude s = Returns (r, s')"
  shows "amplitude_inv a v s'"
proof -
  obtain m where m: "tracks a v m s" "sLastMode s \<noteq> MODE_STREAM \<longrightarrow> m \<noteq> Stream"
    using assms by (auto simp: amplitude_inv_def)
  define x :: u8 where "x = word_of_int (if mul amplitude 0xff < 0 then 0 else \<lfloor>mul amplitude 0xff\<rfloor>)"
  have x: "s' = (let r = lib_call (SetAmplitude x) (aac_vibra_setAmplitude a x) s
      in if fst r \<noteq> 0 then snd r else (snd r)\<lparr>sLastMode := MODE_STREAM\<rparr>)"
    using assms(2) unfolding vibrator_setAmplitude_def Let_def x_def [symmetric] by (simp del: lib_call_result split: if_splits)
  let ?n = "amplitude_after a (SetAmplitude x) (lib s) m" and ?t = "snd (lib_call (SetAmplitude x) (aac_vibra_setAmplitude a x) s)"
  have "tracks a v ?n ?t"
    by (rule lib_call_tracks [OF m(1)]) simp_all
  moreover have "m \<noteq> Stream \<longrightarrow> fst (aac_vibra_setAmplitude a x (lib s)) \<noteq> 0 \<longrightarrow> ?n \<noteq> Stream"
    by simp
  ultimately show ?thesis
    unfolding amplitude_inv_def x Let_def using m(2) by (intro exI [of _ ?n]) (simp del: amplitude_after.simps)
qed

lemma perform_amplitude:
  assumes "amplitude_inv a v s"
  shows "amplitude_inv a v (snd (vibrator_perform a c remap effect es cb s))"
proof -
  define t where "t = (if sLastMode s = MODE_STREAM then snd (lib_call (SetAmplitude 0xFF) (aac_vibra_setAmplitude a 0xFF) s) else s)"
  obtain m where m: "tracks a v m s" "sLastMode s \<noteq> MODE_STREAM \<longrightarrow> m \<noteq> Stream"
    using assms by (auto simp: amplitude_inv_def)
  have "\<exists>n. tracks a v n t \<and> n \<noteq> Stream"
  proof (cases "sLastMode s = MODE_STREAM")
    case True
    have "tracks a v (amplitude_after a (SetAmplitude 0xFF) (lib s) m) t"
      using lib_call_tracks [OF m(1), of "aac_vibra_setAmplitude a 0xFF" "SetAmplitude 0xFF"] True by (simp add: t_def)
    then show ?thesis
      by (intro exI conjI, assumption) auto
  qed (use m in \<open>auto simp: t_def\<close>)
  then obtain n where n: "tracks a v n t" "n \<noteq> Stream" by blast
  have plays: "tracks a v n (snd (lib_call (Prebaked i k) (aac_vibra_looper_prebaked_effect a i k) t))" for i k
    using lib_call_tracks [OF n(1), of "aac_vibra_looper_prebaked_effect a i k" "Prebaked i k"] n(2) by simp
  then show ?thesis
    using assms n unfolding vibrator_perform_def t_def [symmetric]
    by (auto simp: amplitude_inv_def Let_def split: option.split)
qed

lemma amplitude_inv_apply:
  assumes "amplitude_inv a v s" and "vibrator_apply a c remap mul x s = Returns (r, s')"
  shows "amplitude_inv a v s'"
proof (cases x)
  case OffRequest
  then show ?thesis
    using off_amplitude [OF assms(1)] assms(2) by simp
next
  case (OnRequest ms cb)
  then show ?thesis
    using on_amplitude [OF assms(1), of ms cb] assms(2) by simp
next
  case (PerformRequest effect es cb)
  then show ?thesis
    using perform_amplitude [OF assms(1)] assms(2) by (auto simp: Let_def)
next
  case (AmplitudeRequest amplitude)
  then show ?thesis
    using set_amplitude [OF assms(1)] assms(2) by simp
next
  case (OtherRequest q)
  then show ?thesis
    using assms by (auto simp: vibrator_other_def split: other_request.splits)
qed (use assms in auto)

text \<open>The service as it starts, with a library in state \<open>v\<close>.\<close>

definition powered_on :: "'v aac_library \<Rightarrow> 'v \<Rightarrow> 'v vibrator" where
  "powered_on a v = Vibrator_new a \<lparr>sLastMode = MODE_NONE, lib = v, lib_calls = [], completions = []\<rparr>"

lemma powered_on_inv: "amplitude_inv a v (powered_on a v)"
proof -
  let ?s = "\<lparr>sLastMode = MODE_NONE, lib = v, lib_calls = [], completions = []\<rparr>"
  have "amplitude_inv a v ?s"
    by (simp add: amplitude_inv_def tracks_def)
  from quiet_call_inv [OF this, of "aac_vibra_init a" InitCall]
  have init: "amplitude_inv a v (snd (lib_call InitCall (aac_vibra_init a) ?s))" by simp
  from quiet_call_inv [OF this, of "\<lambda>v. ((), aac_vibra_looper_start a v)" LooperStart]
  show ?thesis
    using init by (simp add: powered_on_def Vibrator_new_def Let_def)
qed

text \<open>
  C32: An amplitude of a stream does not leak into effects: over any life of the service, with any library, whether or not
  it accepts what it is asked, a prebaked effect is started while the last amplitude the library accepted is the
  full one, or it accepted none, or, since it accepted that of a stream, it has refused the full one or played
  a timed vibration. So effects that fail and vibrations that are switched off in between do no harm.
\<close>

theorem effects_at_full_amplitude:
  assumes "vibrator_run a c remap mul xs (powered_on a v) = Returns s"
  shows "\<exists>m. heard a v (lib_calls s) = (lib s, m, True)"
proof -
  have "amplitude_inv a v s"
    by (rule vibrator_run_inv [where I = "amplitude_inv a v", OF _ powered_on_inv assms], rule amplitude_inv_apply)
  then show ?thesis
    by (auto simp: amplitude_inv_def tracks_def)
qed

text \<open>
  A library that refuses the full amplitude once it has played an effect: then the service forgets the stream although its
  amplitude is still in force.
\<close>

definition refusing_library :: "bool aac_library" where
  "refusing_library = \<lparr>aac_vibra_init = (\<lambda>v. (0, v)), aac_vibra_looper_start = (\<lambda>v. v),
     aac_vibra_looper_stopPerformHe = (\<lambda>v. (False, v)), aac_vibra_off = (\<lambda>v. (0, v)),
     aac_vibra_looper_on = (\<lambda>_ v. (20, v)), aac_vibra_setAmplitude = (\<lambda>x v. (if v \<and> x = 0xFF then - 1 else 0, v)),
     aac_vibra_looper_prebaked_effect = (\<lambda>_ _ v. (30, True))\<rparr>"

definition silent :: "unit vibrator" where
  "silent = \<lparr>sLastMode = MODE_NONE, lib = (), lib_calls = [], completions = []\<rparr>"

theorem effects_at_full_amplitude_witness:
  "\<exists>s. vibrator_run refusing_library sample_codes False (\<lambda>x y. x * y)
        [AmplitudeRequest 0, OffRequest, PerformRequest 1 2 False, AmplitudeRequest 0, PerformRequest 1 2 False]
        (powered_on refusing_library False) = Returns s
    \<and> lib_calls s = [InitCall, LooperStart, SetAmplitude 0, StopPerformHe, Off, SetAmplitude 0xFF, Prebaked 1 100,
        SetAmplitude 0, SetAmplitude 0xFF, Prebaked 1 100]
    \<and> heard refusing_library False (lib_calls s) = (True, Not_reset, True) \<and> sLastMode s = MODE_PREBAKED"
proof -
  let ?xs = "[AmplitudeRequest 0, OffRequest, PerformRequest 1 2 False, AmplitudeRequest 0, PerformRequest 1 2 False]"
  obtain s where s: "vibrator_run refusing_library sample_codes False (\<lambda>x y. x * y) ?xs (powered_on refusing_library False) = Returns s"
      "lib_calls s = [InitCall, LooperStart, SetAmplitude 0, StopPerformHe, Off, SetAmplitude 0xFF, Prebaked 1 100,
        SetAmplitude 0, SetAmplitude 0xFF, Prebaked 1 100]" "lib s = True" "sLastMode s = MODE_PREBAKED"
    by (simp add: vibrator_setAmplitude_def vibrator_off_def vibrator_perform_def powered_on_def Vibrator_new_def lib_call_def
        refusing_library_def sample_codes_def strength_of_def RICHTAP_STRONG_STRENGTH_def Let_def)
  obtain m where m: "heard refusing_library False (lib_calls s) = (True, m, True)"
    using effects_at_full_amplitude [OF s(1)] s(3) by auto
  have "fst (snd (heard refusing_library False (lib_calls s))) = Not_reset"
    by (simp add: s(2) heard_def hears_def refusing_library_def)
  then show ?thesis
    using s m by auto
qed

section \<open>Completions\<close>

definition completions_ok :: "'v vibrator \<Rightarrow> bool" where
  "completions_ok s \<longleftrightarrow> (\<forall>ret \<in> set (completions s). 0 \<le> sint ret)"

lemma completions_apply:
  assumes "completions_ok s" and "vibrator_apply a c remap mul x s = Returns (r, s')"
  shows "completions_ok s'"
  using assms
  by (cases x) (auto simp: completions_ok_def vibrator_off_def vibrator_on_def vibrator_perform_def vibrator_setAmplitude_def
      vibrator_other_def Let_def split: if_splits option.splits other_request.splits)

text \<open>
  Over any life of the service, a completion thread sleeps for exactly the duration the library gave,
  in microseconds, as long as that is at most 2147483 milliseconds; the multiplication of a longer one
  overflows and its behaviour is undefined.
\<close>

theorem completion_exact:
  assumes "completions s0 = []" and "vibrator_run a c remap mul xs (Vibrator_new a s0) = Returns s"
    and "ret \<in> set (completions s)"
  shows "(case completion_sleep ret of
      Returns t \<Rightarrow> sint ret \<le> 2147483 \<and> uint t = 1000 * sint ret
    | Aborts \<Rightarrow> False
    | Undefined_behaviour \<Rightarrow> 2147483 < sint ret)"
proof -
  have new: "completions_ok (Vibrator_new a s0)"
    using assms(1) by (simp add: completions_ok_def Vibrator_new_def Let_def)
  have "completions_ok s"
    by (rule vibrator_run_inv [where I = completions_ok, OF _ new assms(2)], rule completions_apply)
  then have pos: "0 \<le> sint ret"
    using assms(3) by (simp add: completions_ok_def)
  have "uint (ret * 1000) = 1000 * sint ret" if "sint ret \<le> 2147483"
  proof -
    have "sint (ret * 1000) = 1000 * sint ret"
      using that pos by (subst sint_mult_exact32) auto
    then show ?thesis
      using that pos by (simp add: uint_sint take_bit_int_eq_self)
  qed
  then show ?thesis
    using pos by (auto simp: completion_sleep_def)
qed

text \<open>A library that plays a timed vibration for as long as it is told.\<close>

definition obedient_library :: "unit aac_library" where
  "obedient_library = quiet_library\<lparr>aac_vibra_looper_on := (\<lambda>ms v. (ms, v))\<rparr>"

theorem completion_exact_witness:
  "\<exists>s. vibrator_run obedient_library sample_codes False (\<lambda>x y. x * y) [OnRequest 3600000 True, OnRequest 1000 True]
        (Vibrator_new obedient_library silent) = Returns s
    \<and> completions s = [3600000, 1000]
    \<and> completion_sleep 3600000 = Undefined_behaviour \<and> completion_sleep 1000 = Returns 1000000"
proof -
  obtain s where s: "vibrator_run obedient_library sample_codes False (\<lambda>x y. x * y) [OnRequest 3600000 True, OnRequest 1000 True]
        (Vibrator_new obedient_library silent) = Returns s" "completions s = [3600000, 1000]"
    by (simp add: vibrator_on_def Vibrator_new_def lib_call_def obedient_library_def quiet_library_def silent_def Let_def)
  have "completion_sleep 3600000 = Undefined_behaviour"
    using completion_exact [OF _ s(1), of 3600000] s(2) by (cases "completion_sleep 3600000") (auto simp: silent_def)
  moreover have "completion_sleep 1000 = Returns 1000000"
    by (simp add: completion_sleep_def)
  ultimately show ?thesis
    using s by blast
qed

end
