(* ===== verification/Camera_Torch.thy ===== *)
theory Camera_Torch
  imports Text_Parsing
begin

text \<open>
  The torch strength extension of the camera provider, \<open>configs/camera/CameraProviderExtension.cpp\<close>. What the
  kernel makes of the texts written to the nodes of its LEDs is a parameter: a table \<open>'k sysfs\<close> over a state of its own.
  Every write that reaches a node is recorded in order.
\<close>

section \<open>Nodes\<close>

definition TOGGLE_SWITCH :: string where
  "TOGGLE_SWITCH = ''/sys/devices/platform/soc/c42d000.qcom,spmi/spmi-0/0-02/c42d000.qcom,spmi:qcom,pm8350c@2:qcom,flash_led@ee00/leds/led:switch_0/brightness''"

definition kTorchLedPaths :: "string list" where
  "kTorchLedPaths =
     [''/sys/devices/platform/soc/c42d000.qcom,spmi/spmi-0/0-02/c42d000.qcom,spmi:qcom,pm8350c@2:qcom,flash_led@ee00/leds/led:torch_0'',
      ''/sys/devices/platform/soc/c42d000.qcom,spmi/spmi-0/0-02/c42d000.qcom,spmi:qcom,pm8350c@2:qcom,flash_led@ee00/leds/led:torch_1'']"

definition TORCH_BRIGHTNESS :: string where
  "TORCH_BRIGHTNESS = ''brightness''"

text \<open>
  For which paths a stream can be opened for writing, what the kernel does with a text, and what a stream reads, if it can
  be opened for reading.
\<close>

record 'k sysfs =
  sys_opens :: "string \<Rightarrow> bool"
  sys_write :: "string \<Rightarrow> string \<Rightarrow> 'k \<Rightarrow> 'k"
  sys_read :: "string \<Rightarrow> 'k \<Rightarrow> string option"

record 'k torch =
  kernel :: 'k
  node_log :: "(string \<times> s32) list"

definition set_node :: "'k sysfs \<Rightarrow> string \<Rightarrow> s32 \<Rightarrow> 'k torch \<Rightarrow> 'k torch" where
  "set_node k path val t =
     (if sys_opens k path
      then t\<lparr>kernel := sys_write k path (decimal (sint val)) (kernel t), node_log := node_log t @ [(path, val)]\<rparr>
      else t)"

text \<open>Extraction of an \<open>int\<close> fails without digits and out of range; then the default counts.\<close>

definition get_node :: "'k sysfs \<Rightarrow> string \<Rightarrow> s32 \<Rightarrow> 'k torch \<Rightarrow> s32" where
  "get_node k path default_value t =
     (case sys_read k path (kernel t) of
        None \<Rightarrow> default_value
      | Some text \<Rightarrow> (case stoi text of Returns v \<Rightarrow> v | _ \<Rightarrow> default_value))"

section \<open>The extension\<close>

definition supportsTorchStrengthControlExt :: bool where
  "supportsTorchStrengthControlExt = True"

definition supportsSetTorchModeExt :: bool where
  "supportsSetTorchModeExt = False"

definition getTorchDefaultStrengthLevelExt :: s32 where
  "getTorchDefaultStrengthLevelExt = 50"

definition getTorchMaxStrengthLevelExt :: s32 where
  "getTorchMaxStrengthLevelExt = 230"

definition led_node :: "string \<Rightarrow> string" where
  "led_node path = path @ ''/'' @ TORCH_BRIGHTNESS"

definition getTorchStrengthLevelExt :: "'k sysfs \<Rightarrow> 'k torch \<Rightarrow> s32" where
  "getTorchStrengthLevelExt k t = get_node k (led_node (kTorchLedPaths ! 0)) 0 t"

definition setTorchStrengthLevelExt :: "'k sysfs \<Rightarrow> s32 \<Rightarrow> bool \<Rightarrow> 'k torch \<Rightarrow> 'k torch" where
  "setTorchStrengthLevelExt k torchStrength enabled t =
     (let t = set_node k TOGGLE_SWITCH 0 t;
          t = fold (\<lambda>path. set_node k (led_node path) torchStrength) kTorchLedPaths t
      in if enabled then set_node k TOGGLE_SWITCH 255 t else t)"

definition setTorchModeExt :: "'k sysfs \<Rightarrow> bool \<Rightarrow> 'k torch \<Rightarrow> 'k torch" where
  "setTorchModeExt k enabled t =
     (let strength = getTorchDefaultStrengthLevelExt
      in setTorchStrengthLevelExt k (if enabled then strength else 0) enabled t)"

section \<open>What the LEDs are told\<close>

lemma led_fold: "fold f kTorchLedPaths t = f (kTorchLedPaths ! 1) (f (kTorchLedPaths ! 0) t)"
  by (simp add: kTorchLedPaths_def)

lemma node_paths:
  "led_node (kTorchLedPaths ! 0) \<noteq> TOGGLE_SWITCH" "led_node (kTorchLedPaths ! 0) \<noteq> led_node (kTorchLedPaths ! 1)"
  by (simp_all add: led_node_def kTorchLedPaths_def TOGGLE_SWITCH_def TORCH_BRIGHTNESS_def)

definition torch_writes :: "s32 \<Rightarrow> bool \<Rightarrow> (string \<times> s32) list" where
  "torch_writes strength enabled =
     [(TOGGLE_SWITCH, 0), (led_node (kTorchLedPaths ! 0), strength), (led_node (kTorchLedPaths ! 1), strength)]
     @ (if enabled then [(TOGGLE_SWITCH, 255)] else [])"

text \<open>The kernel after some writes.\<close>

definition kernel_after :: "'k sysfs \<Rightarrow> (string \<times> s32) list \<Rightarrow> 'k \<Rightarrow> 'k" where
  "kernel_after k = fold (\<lambda>(path, v). sys_write k path (decimal (sint v)))"

lemma strength_writes:
  "setTorchStrengthLevelExt k strength enabled t
     = \<lparr>kernel = kernel_after k (filter (\<lambda>w. sys_opens k (fst w)) (torch_writes strength enabled)) (kernel t),
        node_log = node_log t @ filter (\<lambda>w. sys_opens k (fst w)) (torch_writes strength enabled)\<rparr>"
  by (cases t) (simp add: setTorchStrengthLevelExt_def led_fold set_node_def torch_writes_def kernel_after_def Let_def
      del: One_nat_def)

text \<open>
  The nodes of a LED driver up to a greatest brightness \<open>mx\<close>: \<open>brightness\<close> can be written, reads as a line with the number
  written last when that was between 0 and \<open>mx\<close>, and does not depend on the nodes of other LEDs. What the
  driver makes of other numbers is left open.
\<close>

definition led_nodes :: "'k sysfs \<Rightarrow> int \<Rightarrow> bool" where
  "led_nodes k mx \<longleftrightarrow>
     (let led = led_node (kTorchLedPaths ! 0)
      in sys_opens k led
         \<and> (\<forall>n u. 0 \<le> n \<and> n \<le> mx \<longrightarrow> sys_read k led (sys_write k led (decimal n) u) = Some (decimal n @ [newline]))
         \<and> (\<forall>path text u. path \<noteq> led \<longrightarrow> sys_read k led (sys_write k path text u) = sys_read k led u))"

lemma strength_reads:
  assumes "led_nodes k mx" and "0 \<le> sint strength" and "sint strength \<le> mx"
  shows "getTorchStrengthLevelExt k (setTorchStrengthLevelExt k strength enabled t) = strength"
proof -
  let ?led = "led_node (kTorchLedPaths ! 0)"
  have opens: "sys_opens k ?led"
    using assms by (simp add: led_nodes_def Let_def)
  have own: "sys_read k ?led (sys_write k ?led (decimal (sint strength)) u) = Some (decimal (sint strength) @ [newline])" for u
    using assms by (simp add: led_nodes_def Let_def)
  have "sys_read k ?led (sys_write k path new u) = sys_read k ?led u" if "path \<noteq> ?led" for path new u
    using assms(1) that by (simp add: led_nodes_def Let_def)
  note other = this [OF node_paths(1) [symmetric]] this [OF node_paths(2) [symmetric]]
  have "sys_read k ?led (kernel (setTorchStrengthLevelExt k strength enabled t)) = Some (decimal (sint strength) @ [newline])"
    by (simp add: strength_writes torch_writes_def kernel_after_def opens own other del: One_nat_def)
  then show ?thesis
    by (simp add: getTorchStrengthLevelExt_def get_node_def stoi_decimal)
qed

text \<open>
  C36: The torch never changes brightness while it is lit: with any kernel, a change of strength first switches the LEDs off,
  then writes both to the same value, and switches them on only when asked to; a node that cannot be opened
  is left out and nothing else changes. With nodes that keep numbers from 0 to a maximum, which is at least the
  greatest strength the extension advertises, every strength from 0 to that maximum is read back as it was
  set, and after a change of the mode the default strength or 0.
\<close>

theorem torch_strength_roundtrip:
  shows "setTorchStrengthLevelExt k strength enabled t
      = (let ws = filter (\<lambda>w. sys_opens k (fst w))
                    ([(TOGGLE_SWITCH, 0), (led_node (kTorchLedPaths ! 0), strength), (led_node (kTorchLedPaths ! 1), strength)]
                     @ (if enabled then [(TOGGLE_SWITCH, 255)] else []))
         in \<lparr>kernel = kernel_after k ws (kernel t), node_log = node_log t @ ws\<rparr>)
    \<and> (led_nodes k mx \<and> 0 \<le> sint strength \<and> sint strength \<le> mx
        \<longrightarrow> getTorchStrengthLevelExt k (setTorchStrengthLevelExt k strength enabled t) = strength)
    \<and> (led_nodes k mx \<and> sint getTorchMaxStrengthLevelExt \<le> mx
        \<longrightarrow> getTorchStrengthLevelExt k (setTorchModeExt k on t) = (if on then getTorchDefaultStrengthLevelExt else 0))"
proof -
  have "getTorchStrengthLevelExt k (setTorchModeExt k on t) = (if on then getTorchDefaultStrengthLevelExt else 0)"
    if "led_nodes k mx" "sint getTorchMaxStrengthLevelExt \<le> mx"
    unfolding setTorchModeExt_def Let_def
    by (rule strength_reads [OF that(1)])
      (use that(2) in \<open>simp_all add: getTorchDefaultStrengthLevelExt_def getTorchMaxStrengthLevelExt_def\<close>)
  then show ?thesis
    using strength_writes [of k strength enabled t] strength_reads [of k mx strength enabled t]
    by (simp add: torch_writes_def Let_def del: One_nat_def)
qed

text \<open>A driver of LEDs of brightness 0 to 500, which takes what is above as 500 and does not take what is below.\<close>

definition clamping_leds :: "(string \<Rightarrow> int) sysfs" where
  "clamping_leds = \<lparr>sys_opens = (\<lambda>_. True),
     sys_write = (\<lambda>path text u. case stoi text of
        Returns v \<Rightarrow> if 0 \<le> sint v then u(path := min 500 (sint v)) else u | _ \<Rightarrow> u),
     sys_read = (\<lambda>path u. Some (decimal (u path) @ [newline]))\<rparr>"

lemma stoi_small:
  assumes "0 \<le> n" and "n \<le> 500"
  shows "stoi (decimal n) = Returns (word_of_int n)" and "sint (word_of_int n :: s32) = n"
proof -
  show s: "sint (word_of_int n :: s32) = n"
    using assms by (simp add: sint_word_of_int_s32)
  show "stoi (decimal n) = Returns (word_of_int n)"
    using stoi_decimal [of "[]" "word_of_int n"] s by (simp add: stops_def)
qed

lemma clamping_led_nodes: "led_nodes clamping_leds 500"
  by (auto simp: led_nodes_def clamping_leds_def stoi_small Let_def split: outcome.split)

theorem torch_strength_roundtrip_witness:
  "getTorchStrengthLevelExt clamping_leds (setTorchStrengthLevelExt clamping_leds 230 True \<lparr>kernel = (\<lambda>_. 0), node_log = []\<rparr>) = 230
    \<and> getTorchStrengthLevelExt clamping_leds (setTorchModeExt clamping_leds True \<lparr>kernel = (\<lambda>_. 0), node_log = []\<rparr>) = 50
    \<and> getTorchStrengthLevelExt clamping_leds (setTorchStrengthLevelExt clamping_leds 1000 True \<lparr>kernel = (\<lambda>_. 0), node_log = []\<rparr>) = 500"
proof -
  have "getTorchStrengthLevelExt clamping_leds (setTorchStrengthLevelExt clamping_leds 1000 True \<lparr>kernel = (\<lambda>_. 0), node_log = []\<rparr>) = 500"
    using node_paths stoi_decimal [of "[]" 1000] stoi_decimal [OF stops_newline [of "[]"], of 500] stoi_decimal [of "[]" 0] stoi_decimal [of "[]" 255]
    by (simp add: getTorchStrengthLevelExt_def get_node_def strength_writes torch_writes_def kernel_after_def clamping_leds_def stops_def
        del: One_nat_def)
  moreover have "getTorchStrengthLevelExt clamping_leds
      (setTorchStrengthLevelExt clamping_leds 230 True \<lparr>kernel = (\<lambda>_. 0), node_log = []\<rparr>) = 230"
    by (rule torch_strength_roundtrip [where mx = 500, THEN conjunct2, THEN conjunct1, rule_format]) (simp add: clamping_led_nodes)
  moreover have "getTorchStrengthLevelExt clamping_leds (setTorchModeExt clamping_leds True \<lparr>kernel = (\<lambda>_. 0), node_log = []\<rparr>)
      = (if True then getTorchDefaultStrengthLevelExt else 0)"
    by (rule torch_strength_roundtrip [where mx = 500, THEN conjunct2, THEN conjunct2, rule_format])
      (simp add: clamping_led_nodes getTorchMaxStrengthLevelExt_def)
  ultimately show ?thesis
    by (simp add: getTorchDefaultStrengthLevelExt_def)
qed

end
