(* ===== verification/Spec2Isabelle.thy ===== *)
theory Spec2Isabelle
  imports Service_Main Fp_Process_Props Fp_Races Device_Life Sensor_Twins Hal_Drain Hal_Debug Charging_Props Vibrator_Life
    Camera_Torch
begin

text \<open>
  \<^bold>\<open>Verification library of the native services of the Nothing Phone (2) device tree.\<close>

  \<^bold>\<open>The program.\<close> The C++ code of the tree is five independent services, each a process the framework calls
  over binder or HIDL:

  \<^item> the fingerprint service (\<open>fingerprint/\<close>): it opens a vendor HAL, keeps one session at a time, translates
    requests and messages between the two interfaces, counts failed attempts, lights the display under
    the finger and tells the vendor when the finger is down;
  \<^item> the sensors service (\<open>sensors/\<close>): a proxy that merges several sub-HALs under one handle space, with a
    queue of events, a reference-counted wakelock and two threads, and one sub-HAL of its own with the
    UDFPS and single-tap sensors, each with a polling thread;
  \<^item> the charging control (\<open>charging/\<close>): a listener of the battery status whose detached threads limit the
    charging current by temperature;
  \<^item> the vibrator service (\<open>vibrator/\<close>) and the torch extension of the camera provider (\<open>configs/camera/\<close>).

  \<^bold>\<open>Theories, in the order they build on each other.\<close>

  \<^item> \<open>Prelude\<close>: the types of machine integers, the sum of results (\<open>Returns\<close>, \<open>Aborts\<close>, \<open>Undefined_behaviour\<close>),
    arithmetic of \<open>size_t\<close>, word lemmas and the collections of simplification rules.
    \<open>Transition_System\<close>: runs of steps with what their surroundings promise, and invariants of such runs.
    \<open>Text_Parsing\<close>: the parsing of the C and C++ library that the code uses on sysfs nodes, with round trips.
  \<^item> \<open>Lockout_Tracker\<close> (\<open>LockoutTracker.cpp\<close>), \<open>Udfps_Handler\<close> (\<open>UdfpsHandler.cpp\<close>), \<open>Legacy2_Aidl\<close>
    (\<open>Legacy2Aidl.h\<close>), \<open>Fp_Session\<close> and \<open>Fp_Session_Props\<close> (\<open>Session.cpp\<close>, \<open>CancellationSignal.cpp\<close>,
    \<open>fingerprint.h\<close>), \<open>Fp_Service\<close> (\<open>Fingerprint.cpp\<close>, \<open>UdfpsExtension.cpp\<close>). The operations of a session are
    computations of the state monad over the session, the vendor's state and the list of effects. \<open>Fp_Races\<close> cuts
    \<open>Session::lockoutTimerExpired\<close> at its statements and interleaves all lockout threads of a session with its
    operations; where \<open>Fp_Session\<close> takes the expiry as one step, nothing is said there about how a permanent lockout
    ends. \<open>Fp_Process\<close> and \<open>Fp_Process_Props\<close> put the process together: the
    service, all the sessions it ever made, who refers to them, and the uses of their plain addresses by
    \<open>CancellationSignal.cpp\<close>, the lockout threads, \<open>onClientDeath\<close> and any number of calls of \<open>Fingerprint::notify\<close>.
  \<^item> \<open>Sensor_Handle\<close> (the handle arithmetic of \<open>HalProxy.cpp\<close>), \<open>Sensor_Types\<close>, \<open>Sensor_Device\<close> and
    \<open>Sensor_Props\<close> (\<open>Sensor.cpp\<close>), \<open>Sub_Hal\<close> and \<open>Sub_Hal_Life\<close> (\<open>SensorsSubHal.cpp\<close>), \<open>Hal_Proxy\<close> and \<open>Hal_Proxy_Props\<close> (lists,
    routing, modes, channels, dynamic sensors of \<open>HalProxy.cpp\<close>), \<open>Hal_Queue\<close>, \<open>Hal_Queue_Props\<close> and
    \<open>Hal_Wakelock_Props\<close> (its event queue, wakelock, threads and initialisation), \<open>Hal_Callback\<close>
    (\<open>HalProxyCallback.cpp\<close>), \<open>Hal_Debug\<close> (the dumps of proxy and sub-HAL, over the process's descriptors).
    \<open>Sensor_Twins\<close> compares the two polling classes, \<open>Hal_Typing\<close> types the state of the proxy, \<open>Hal_Drain\<close>
    bounds the work of its writer thread, and \<open>Device_Stack\<close> puts the device together: the proxy over the
    library of the sub-HAL, loaded by \<open>configs/hals.conf\<close>. \<open>Hal_Life\<close> has every operation and thread of the proxy as
    steps of one life, and \<open>Device_Life\<close> the life of the whole stack: the proxy, a vendor's libraries, and this
    sub-HAL with the threads of its sensors.
  \<^item> \<open>Charging\<close> and \<open>Charging_Props\<close> (\<open>charging-control.cpp\<close>), \<open>Vibrator\<close> and \<open>Vibrator_Life\<close>
    (\<open>Vibrator.cpp\<close>, \<open>Vibrator.h\<close>), \<open>Camera_Torch\<close>
    (\<open>CameraProviderExtension.cpp\<close>). \<open>Service_Main\<close> has the four \<open>main\<close> functions (\<open>service.cpp\<close>).

  Definitions have the names of the code, with the class in front where two classes share one; members
  of a class are the fields of a record of its name.

  \<^bold>\<open>Interfaces.\<close> \<open>lockout\<close> is what a session needs of a tracker, interpreted by the tracker's operations;
  \<open>finger_sink\<close> what it needs of the UDFPS handler, interpreted by the handler; \<open>object_life\<close> what it takes for shared
  objects to stay gone, interpreted by the sessions of the process; \<open>handle_codec\<close> what routing needs of
  the handle arithmetic, interpreted on bit operations of 32-bit words; \<open>sub_hal\<close> what a mode transaction needs of
  a sub-HAL, interpreted by the device's own sub-HAL; \<open>device_sub_hal\<close> what a proxy over this sub-HAL needs of its
  library, interpreted by the library, alone and beside others; \<open>sub_hal_promise\<close> what must hold of a sub-HAL's calls
  for a property of it to last, interpreted by the device's; \<open>invariant_system\<close> and \<open>two_invariants\<close> what an
  invariant of a run needs, interpreted by the lives of the proxy and of the stack; \<open>dumps\<close> what the proxy's
  dump needs of a sub-HAL's, interpreted by the
  sub-HAL's.

  \<^bold>\<open>Threads.\<close> A thread is cut at its waits and at the points where it gives up its lock; each piece is
  one atomic step that may be taken at any time, so a list of steps is an interleaving and an inductive
  predicate collects the reachable states. \<open>Fingerprint::notify\<close>, which takes no lock and no reference, is cut at each of its four looks at the session, and
  \<open>lockoutTimerExpired\<close> at each statement.
  Clocks, \<open>poll\<close>, message queues and files answer through
  arguments of the step, so a property holds for every answer. Loops end by their structure, except
  the two loops of \<open>UdfpsHandler::run\<close>, whose section has a measure with a termination proof; no
  definition uses fuel. Numbers keep their width: \<open>word\<close> types for the fixed ones, a \<open>nat\<close> with the modulus
  written out for \<open>size_t\<close> counters; times read from a clock in nanoseconds are \<open>int\<close> where the code only
  compares and subtracts them.

  \<^bold>\<open>What the lemmas show.\<close> Lockout: any run of failures and queries follows the policy of 5 and 20
  attempts; a session announces exactly that and forgets the count when it is reopened; over every interleaving of the
  statements of its lockout threads one of them has the timer, and a permanent lockout ends only by a reset, a match or
  a thread that had read the flag before; the
  exact moments at which the attempt that makes the lockout permanent loses against the timer. Process: which
  steps have no defined behaviour, that lockout threads and calls of \<open>notify\<close> find their session gone, and which
  messages a closed session still gets.
  UDFPS: the handler refines a touch machine under every interleaving, so the vendor device never sees two
  presses in a row, and pending requests are answered. Sensors: requests reach the sub-HAL that
  announced the sensor, modes change everywhere or nowhere, events stay in order and the queue bounded and
  counted, the wakelock is acquired and released alternately and times out, a polling sensor posts once
  per activation, and an event passes all layers; the two polling classes, written twice, behave alike; a
  sensor the proxy was built with is stored where requests for it are sent, over every life of the proxy; the writer empties
  the pending queue in an exact number of sections while nothing is posted; the configured stack lists the device's two sensors
  and reaches them; a dump reads back to the sensors it shows; what every request to the sub-HAL
  answers, over all its life. All this holds together along one life of the proxy with its initialisations, and along
  every life of the whole stack, in which an assertion of the callback fails only for a vendor's batch under the wrong
  wakelock; events may be of any sensors, and a lost one of a sensor that is not listed leaves a blank entry in the
  list. Vibrator: the advertised effects are played, never at the amplitude of a stream unless the library refused to
  reset it or a timed
  vibration intervenes, and completion threads sleep for the right time or overflow. Torch: for any kernel the LEDs are
  off while their strength changes, and nodes that keep a number give it back. Charging: one pass implements a monotone policy and
  settles. Several lemmas state faults of the code exactly: members without initial values, a
  service published without its device, descriptors that every dump leaks, a lost
  lockout end, wakelock references given up twice or kept over an initialisation, threads that add up, a
  read past a table.

  \<^bold>\<open>Not modelled.\<close> The logging; event
  flags and memory of the message queues, \<open>ScopedWakelock\<close>, the callback's \<open>getSensorInfo\<close> and the service managers,
  which are platform code. The
  operations of a session are atomic although the code takes no lock around them: what is proved of a
  session is about sequences of its operations, its threads included, but for \<open>Fingerprint::notify\<close> and
  \<open>lockoutTimerExpired\<close> as above. A session is destroyed at once when its last reference goes; that this may be while another thread is
  inside one of its operations is not modelled. Java, resources, init scripts,
  policies and configuration files are outside this library.
\<close>

section \<open>An event on its way\<close>

text \<open>
  C4: An event of the device reaches the framework through all four layers: what a section of a
  sensor's thread posts is one event of that sensor; sub-HAL and callback pass it, and with room in an
  idle queue the proxy writes it at once, under a handle that carries the sub-HAL's index and gives the
  sensor's own handle back. For a wakeup sensor one reference is counted, behind an acquired
  wakelock, and one acknowledgement gives exactly that reference back.
\<close>

theorem device_event_reaches_framework:
  assumes "sensor_resume fb e s = Returns (s', posts)" and "(evs, w) \<in> set posts" and "shCallback h"
    and "si_type (info (setSubHalIndex (si_sensorHandle (mSensorInfo s)) i)) \<noteq> PICK_UP_GESTURE"
    and "and (si_flags (info (setSubHalIndex (si_sensorHandle (mSensorInfo s)) i))) (WAKE_UP fb)
       = and (si_flags (mSensorInfo s)) (WAKE_UP fb)"
    and "i < 128" and "local_handle (si_sensorHandle (mSensorInfo s))"
    and "mThreadsRun p" and "mPendingWriteEventsQueue p = []" and "0 < avail" and "mWakelockRefCount p + 1 < 2 ^ 64"
  shows "\<exists>ev p'. evs = [ev] \<and> SensorsSubHal_postEvents (evs, w) h = Returns (evs, w)
    \<and> HalProxyCallback_postEvents True hc fb pun info i evs w now avail True p = Returns p'
    \<and> proxy_effects p' = proxy_effects p @ (if w \<and> mWakelockRefCount p = 0 then [AcquireWakeLock] else [])
        @ [EventsWritten [tag_event i ev]]
    \<and> subHalIndex (ev_sensorHandle (tag_event i ev)) = i
    \<and> clearSubHalIndex first_byte (ev_sensorHandle (tag_event i ev)) = si_sensorHandle (mSensorInfo s)
    \<and> mWakelockRefCount p' = mWakelockRefCount p + (if w then 1 else 0)
    \<and> (w \<longrightarrow> mWakelockRefCount (decrementRefCountAndMaybeReleaseWakelock 1 (- 1) p') = mWakelockRefCount p)"
proof -
  obtain ev where ev: "evs = [ev]" "ev_sensorHandle ev = si_sensorHandle (mSensorInfo s)"
      and w: "w = isWakeUpSensor fb s"
    using section_post [OF assms(1,2)] by blast
  let ?p = "postEventsToMessageQueue hc [tag_event i ev] (if w then 1 else 0) w now avail True p"
  have "processEvents fb pun info i evs = (if w then 1 else 0, [tag_event i ev])"
    using assms(4,5) ev w by (simp add: isWakeUpSensor_def tag_event_def Let_def)
  then have posted: "HalProxyCallback_postEvents True hc fb pun info i evs w now avail True p = Returns ?p"
    using assms(8) ev(1) by (simp add: HalProxyCallback_postEvents_def Let_def)
  have counted: "mThreadsRun ?p" "mWakelockRefCount ?p = mWakelockRefCount p + (if w then 1 else 0)"
      "proxy_effects ?p = proxy_effects p @ (if w \<and> mWakelockRefCount p = 0 then [AcquireWakeLock] else [])
        @ [EventsWritten [tag_event i ev]]"
    using assms(8-11)
    by (simp_all add: postEventsToMessageQueue_def incrementRefCountAndMaybeAcquireWakelock_def size_add_exact Let_def)
  moreover have "mWakelockRefCount (decrementRefCountAndMaybeReleaseWakelock 1 (- 1) ?p) = mWakelockRefCount p" if w
    using that counted by (simp add: decrementRefCountAndMaybeReleaseWakelock_def Let_def)
  moreover have "subHalIndex (ev_sensorHandle (tag_event i ev)) = i"
      "clearSubHalIndex first_byte (ev_sensorHandle (tag_event i ev)) = si_sensorHandle (mSensorInfo s)"
    using ev(2) assms(6,7) hc.idx_put hc.strip_put by (simp_all add: tag_event_def)
  ultimately show ?thesis
    using posted ev(1) assms(3) by (auto simp: SensorsSubHal_postEvents_def)
qed

text \<open>A tap on the display of a phone whose tap sensor has the handle 7 behind the sub-HAL with index 2.\<close>

definition polling_tap :: Sensor where
  "polling_tap = (blank_sensor SingleTap)\<lparr>mKind := SingleTap, mIsEnabled := True, mRunThread := InPoll,
     mSensorInfo := (mSensorInfo (blank_sensor SingleTap))\<lparr>si_sensorHandle := 7, si_flags := 1\<rparr>\<rparr>"

theorem device_event_reaches_framework_witness:
  "\<exists>s' ev p'. sensor_resume platform_flags touch_env polling_tap = Returns (s', [([ev], True)])
     \<and> HalProxyCallback_postEvents True sample_consts platform_flags (\<lambda>_. 0) (\<lambda>h. sample_info h 1) 2 [ev] True 5 4 True
         running_proxy = Returns p'
     \<and> proxy_effects p' = [AcquireWakeLock, EventsWritten [tag_event 2 ev]] \<and> mWakelockRefCount p' = 1"
proof -
  let ?h = "\<lparr>shSensors = RBT.empty, shCallback = True, shCurrentOperationMode = NORMAL, mNextHandle = 3\<rparr>"
  obtain s' evs where r: "sensor_resume platform_flags touch_env polling_tap = Returns (s', [(evs, True)])"
    by (simp add: sensor_resume_def after_poll_polls read_trigger_def polling_tap_def readBool_def touch_env_def sensor_event_def
        blank_sensor_def sensor_readEvents_def SingleTapSensor_readEvents_def fillEventData_def readCoordinates_def isWakeUpSensor_def platform_flags_def Let_def)
  have "si_type (sample_info k 1) \<noteq> PICK_UP_GESTURE" "si_flags (sample_info k 1) = 1"
      "mSensorInfo polling_tap = sample_info 7 1" "si_sensorHandle (sample_info 7 1) = 7" for k
    by (simp_all add: sample_info_def blank_sensor_def polling_tap_def)
  moreover have "mThreadsRun running_proxy" "mPendingWriteEventsQueue running_proxy = []" "mWakelockRefCount running_proxy = 0"
      "proxy_effects running_proxy = []"
    by (simp_all add: running_proxy_def HalProxy_members_def)
  ultimately show ?thesis
    using r local_7 device_event_reaches_framework [OF r, of evs True ?h "\<lambda>h. sample_info h 1" 2 running_proxy 4
        sample_consts "\<lambda>_. 0" 5] by auto
qed

end
